theory Spec2Isabelle
  imports Complex_Main "HOL-Library.Product_Lexorder" "HOL-Library.List_Lexorder"
    "HOL-Library.Char_ord" "HOL-Library.Log_Nat"
begin

section \<open>Values and errors\<close>

text \<open>
  The pipeline of \<^verbatim>\<open>import_ais_data.py\<close> works on pandas data frames of float64 columns.
  A float64 cell of a frame is modelled by its four kinds of value; its finite values are
  idealised as reals (the frames are only compared, filtered and averaged), while NaN
  and the infinities, which decide every comparison and every \<^verbatim>\<open>dropna\<close> below, are
  kept apart. The arithmetic of \<^verbatim>\<open>find_centroid\<close>, where rounding decides whether the
  signed area is zero, is modelled bit for bit in the next section.
\<close>

datatype float64 = Fin real | PInf | NInf | NaN

datatype error =
    NotdefinedError string
  | ZeroDivisionError
  | KeyError
  | ValueError
  | IndexError
  | OverflowError

text \<open>IEEE division, multiplication and addition as numpy performs them (no exception).\<close>

fun fdiv :: "float64 \<Rightarrow> float64 \<Rightarrow> float64" where
  "fdiv NaN _ = NaN"
| "fdiv _ NaN = NaN"
| "fdiv (Fin x) (Fin d) =
     (if d \<noteq> 0 then Fin (x / d) else if 0 < x then PInf else if x < 0 then NInf else NaN)"
| "fdiv (Fin x) PInf = Fin 0"
| "fdiv (Fin x) NInf = Fin 0"
| "fdiv PInf (Fin d) = (if 0 \<le> d then PInf else NInf)"
| "fdiv NInf (Fin d) = (if 0 \<le> d then NInf else PInf)"
| "fdiv PInf PInf = NaN"
| "fdiv PInf NInf = NaN"
| "fdiv NInf PInf = NaN"
| "fdiv NInf NInf = NaN"

fun fmul :: "float64 \<Rightarrow> float64 \<Rightarrow> float64" where
  "fmul NaN _ = NaN"
| "fmul _ NaN = NaN"
| "fmul (Fin x) (Fin y) = Fin (x * y)"
| "fmul (Fin x) PInf = (if x = 0 then NaN else if 0 < x then PInf else NInf)"
| "fmul (Fin x) NInf = (if x = 0 then NaN else if 0 < x then NInf else PInf)"
| "fmul PInf (Fin y) = (if y = 0 then NaN else if 0 < y then PInf else NInf)"
| "fmul NInf (Fin y) = (if y = 0 then NaN else if 0 < y then NInf else PInf)"
| "fmul PInf PInf = PInf"
| "fmul PInf NInf = NInf"
| "fmul NInf PInf = NInf"
| "fmul NInf NInf = PInf"

fun fadd :: "float64 \<Rightarrow> float64 \<Rightarrow> float64" where
  "fadd NaN _ = NaN"
| "fadd _ NaN = NaN"
| "fadd (Fin x) (Fin y) = Fin (x + y)"
| "fadd (Fin x) PInf = PInf"
| "fadd (Fin x) NInf = NInf"
| "fadd PInf (Fin y) = PInf"
| "fadd NInf (Fin y) = NInf"
| "fadd PInf PInf = PInf"
| "fadd NInf NInf = NInf"
| "fadd PInf NInf = NaN"
| "fadd NInf PInf = NaN"

text \<open>Comparisons of a cell with a finite threshold: every comparison with NaN is false.\<close>

fun fle :: "float64 \<Rightarrow> real \<Rightarrow> bool" where
  "fle (Fin x) t = (x \<le> t)"
| "fle NInf t = True"
| "fle PInf t = False"
| "fle NaN t = False"

fun flt :: "float64 \<Rightarrow> real \<Rightarrow> bool" where
  "flt (Fin x) t = (x < t)"
| "flt NInf t = True"
| "flt PInf t = False"
| "flt NaN t = False"

fun is_finite :: "float64 \<Rightarrow> bool" where
  "is_finite (Fin x) = True"
| "is_finite _ = False"

text \<open>The mean of a column as pandas takes it: NaN cells are skipped; no cell left is NaN.\<close>

definition fmean :: "float64 list \<Rightarrow> float64" where
  "fmean xs =
     (let ys = filter (\<lambda>x. x \<noteq> NaN) xs
      in if ys = [] then NaN else fdiv (foldl fadd (Fin 0) ys) (Fin (real (length ys))))"

text \<open>\<^verbatim>\<open>agg('first')\<close> and \<^verbatim>\<open>agg('last')\<close>: the first and the last cell that is not NaN.\<close>

definition first_valid :: "float64 list \<Rightarrow> float64" where
  "first_valid xs = (case filter (\<lambda>x. x \<noteq> NaN) xs of [] \<Rightarrow> NaN | x # _ \<Rightarrow> x)"

definition last_valid :: "float64 list \<Rightarrow> float64" where
  "last_valid xs = first_valid (rev xs)"

section \<open>IEEE 754 binary64 arithmetic\<close>

text \<open>
  The values of a numpy float64: the finite numbers \<open>m * 2 ^ e\<close> with \<open>\<bar>m\<bar> < 2 ^ 53\<close> and
  \<open>- 1074 \<le> e\<close> below \<open>2 ^ 1024\<close> (\<open>B64 0\<close> is the positive zero), the negative zero, the
  two infinities and NaN.
\<close>

datatype binary64 = B64 real | NegZero | PosInf | NegInf | QNaN

text \<open>
  Rounding to nearest, ties to even. \<open>binade x\<close> is the exponent \<open>e\<close> with
  \<open>2 ^ e \<le> \<bar>x\<bar> < 2 ^ (e + 1)\<close>; the spacing of the float64 values around \<open>x\<close> is
  \<open>2 ^ (e - 52)\<close>, and \<open>2 ^ (- 1074)\<close> in the subnormal range. A result of magnitude
  \<open>2 ^ 1024\<close> or more is an infinity; a result that rounds to zero keeps its sign.
\<close>

definition binade :: "real \<Rightarrow> int" where
  "binade x = (if 1 \<le> \<bar>x\<bar> then bitlen \<lfloor>\<bar>x\<bar>\<rfloor> - 1 else - bitlen (\<lceil>1 / \<bar>x\<bar>\<rceil> - 1))"

definition pow2 :: "int \<Rightarrow> real" where
  "pow2 e = (if 0 \<le> e then 2 ^ nat e else 1 / 2 ^ nat (- e))"

definition round_half_even :: "real \<Rightarrow> int" where
  "round_half_even x =
     (let n = \<lfloor>x\<rfloor>; r = x - of_int n
      in if r < 1 / 2 then n else if 1 / 2 < r then n + 1 else if even n then n else n + 1)"

definition round_binary64 :: "real \<Rightarrow> binary64" where
  "round_binary64 x =
     (if x = 0 then B64 0
      else (let ulp = pow2 (max (binade x - 52) (- 1074));
                r = of_int (round_half_even (\<bar>x\<bar> / ulp)) * ulp
            in if r = 0 then (if 0 < x then B64 0 else NegZero)
               else if 1024 \<le> binade r then (if 0 < x then PosInf else NegInf)
               else B64 (sgn x * r)))"

fun is_nan :: "binary64 \<Rightarrow> bool" where
  "is_nan QNaN = True"
| "is_nan _ = False"

fun is_inf :: "binary64 \<Rightarrow> bool" where
  "is_inf PosInf = True"
| "is_inf NegInf = True"
| "is_inf _ = False"

fun is_zero :: "binary64 \<Rightarrow> bool" where
  "is_zero (B64 x) = (x = 0)"
| "is_zero NegZero = True"
| "is_zero _ = False"

fun negative :: "binary64 \<Rightarrow> bool" where
  "negative (B64 x) = (x < 0)"
| "negative NegZero = True"
| "negative NegInf = True"
| "negative _ = False"

fun value_of :: "binary64 \<Rightarrow> real" where
  "value_of (B64 x) = x"
| "value_of _ = 0"

definition signed_zero :: "bool \<Rightarrow> binary64" where
  "signed_zero s = (if s then NegZero else B64 0)"

definition signed_inf :: "bool \<Rightarrow> binary64" where
  "signed_inf s = (if s then NegInf else PosInf)"

text \<open>
  The four operations as numpy performs them on float64 scalars: no exception, NaN for
  \<open>\<infinity> - \<infinity>\<close>, \<open>0 * \<infinity>\<close>, \<open>0 / 0\<close> and \<open>\<infinity> / \<infinity>\<close>, a signed infinity for any other division
  by a zero, and the exact result rounded otherwise. An exact sum of zero is the positive
  zero unless both terms are negative zeros.
\<close>

definition b64_add :: "binary64 \<Rightarrow> binary64 \<Rightarrow> binary64" where
  "b64_add a b =
     (if is_nan a \<or> is_nan b then QNaN
      else if is_inf a \<and> is_inf b then (if negative a = negative b then a else QNaN)
      else if is_inf a then a
      else if is_inf b then b
      else if is_zero a \<and> is_zero b then signed_zero (negative a \<and> negative b)
      else round_binary64 (value_of a + value_of b))"

definition b64_neg :: "binary64 \<Rightarrow> binary64" where
  "b64_neg a =
     (if is_nan a then QNaN
      else if is_inf a then signed_inf (\<not> negative a)
      else if is_zero a then signed_zero (\<not> negative a)
      else B64 (- value_of a))"

definition b64_sub :: "binary64 \<Rightarrow> binary64 \<Rightarrow> binary64" where
  "b64_sub a b = b64_add a (b64_neg b)"

definition b64_mul :: "binary64 \<Rightarrow> binary64 \<Rightarrow> binary64" where
  "b64_mul a b =
     (if is_nan a \<or> is_nan b then QNaN
      else if (is_inf a \<and> is_zero b) \<or> (is_zero a \<and> is_inf b) then QNaN
      else if is_inf a \<or> is_inf b then signed_inf (negative a \<noteq> negative b)
      else if is_zero a \<or> is_zero b then signed_zero (negative a \<noteq> negative b)
      else round_binary64 (value_of a * value_of b))"

definition b64_div :: "binary64 \<Rightarrow> binary64 \<Rightarrow> binary64" where
  "b64_div a b =
     (if is_nan a \<or> is_nan b then QNaN
      else if (is_inf a \<and> is_inf b) \<or> (is_zero a \<and> is_zero b) then QNaN
      else if is_inf a \<or> is_zero b then signed_inf (negative a \<noteq> negative b)
      else if is_zero a \<or> is_inf b then signed_zero (negative a \<noteq> negative b)
      else round_binary64 (value_of a / value_of b))"

text \<open>The cell of a frame that holds a float64 value (the frames do not tell the zeros apart).\<close>

fun to_float64 :: "binary64 \<Rightarrow> float64" where
  "to_float64 (B64 x) = Fin x"
| "to_float64 NegZero = Fin 0"
| "to_float64 PosInf = PInf"
| "to_float64 NegInf = NInf"
| "to_float64 QNaN = NaN"

section \<open>The centroid of a polygon (modules/centroid.py)\<close>

text \<open>
  The vertex array: a vertex is given by two reals, and the array holds the float64
  values nearest to them.
\<close>

definition vertex_array :: "(real \<times> real) list \<Rightarrow> (binary64 \<times> binary64) list" where
  "vertex_array polygon = map (\<lambda>(a, b). (round_binary64 a, round_binary64 b)) polygon"

text \<open>
  One pass of the loop of \<^verbatim>\<open>find_centroid\<close> over vertex \<open>i\<close>: the accumulator is
  \<open>(x, y, signed_area)\<close>, every operation a float64 operation.
\<close>

definition centroid_step ::
  "(binary64 \<times> binary64) list \<Rightarrow> nat \<Rightarrow> binary64 \<times> binary64 \<times> binary64 \<Rightarrow>
     binary64 \<times> binary64 \<times> binary64" where
  "centroid_step polygon i acc =
     (case acc of (x, y, area_sum) \<Rightarrow>
        (let x_first = fst (polygon ! i);
             y_first = snd (polygon ! i);
             x_last = fst (polygon ! ((i + 1) mod length polygon));
             y_last = snd (polygon ! ((i + 1) mod length polygon));
             area_polygon = b64_sub (b64_mul x_first y_last) (b64_mul x_last y_first)
         in (b64_add x (b64_mul (b64_add x_first x_last) area_polygon),
             b64_add y (b64_mul (b64_add y_first y_last) area_polygon),
             b64_add area_sum area_polygon)))"

text \<open>The three accumulators after the loop; each starts as the number 0.\<close>

definition centroid_sums :: "(real \<times> real) list \<Rightarrow> binary64 \<times> binary64 \<times> binary64" where
  "centroid_sums polygon =
     fold (centroid_step (vertex_array polygon)) [0..<length polygon] (B64 0, B64 0, B64 0)"

text \<open>The local variable \<^verbatim>\<open>signed_area\<close> after \<^verbatim>\<open>signed_area *= 0.5\<close>.\<close>

definition signed_area :: "(real \<times> real) list \<Rightarrow> binary64" where
  "signed_area polygon = b64_mul (snd (snd (centroid_sums polygon))) (B64 (1 / 2))"

text \<open>
  The last three statements: \<^verbatim>\<open>signed_area *= 0.5\<close> and the two divisions by
  \<^verbatim>\<open>6 * signed_area\<close>, which return NaN or an infinity for a zero divisor and raise
  nothing.
\<close>

definition centroid_quotients :: "binary64 \<times> binary64 \<times> binary64 \<Rightarrow> float64 \<times> float64" where
  "centroid_quotients acc =
     (case acc of (x, y, area_sum) \<Rightarrow>
        (let area = b64_mul area_sum (B64 (1 / 2))
         in (to_float64 (b64_div x (b64_mul (B64 6) area)),
             to_float64 (b64_div y (b64_mul (B64 6) area)))))"

text \<open>
  \<^verbatim>\<open>find_centroid\<close>. With no vertex the accumulators are still Python numbers and
  \<^verbatim>\<open>0 / 0.0\<close> raises ZeroDivisionError; with vertices they are numpy float64 values.
\<close>

definition find_centroid :: "(real \<times> real) list \<Rightarrow> error + float64 \<times> float64" where
  "find_centroid polygon =
     (if polygon = [] then Inl ZeroDivisionError
      else Inr (centroid_quotients (centroid_sums polygon)))"

text \<open>
  The signed area of a polygon as geometry has it, by the same shoelace formula in exact
  arithmetic: what the specification means by a polygon whose signed area is zero.
\<close>

definition shoelace_area :: "(real \<times> real) list \<Rightarrow> real" where
  "shoelace_area polygon =
     sum_list (map (\<lambda>i. fst (polygon ! i) * snd (polygon ! ((i + 1) mod length polygon))
                        - fst (polygon ! ((i + 1) mod length polygon)) * snd (polygon ! i))
                   [0..<length polygon]) / 2"

section \<open>Data frames\<close>

text \<open>
  A row of \<^verbatim>\<open>ais_data\<close>: the ship identifier, the timestamp (whole seconds since the epoch)
  and the four numeric columns, which \<^verbatim>\<open>pd.to_numeric(errors='coerce')\<close> fills with NaN
  where a field does not parse. The identifier is ordered as the source orders it when it
  sorts by \<^verbatim>\<open>mmsi\<close>.
\<close>

record ping =
  mmsi :: nat
  time :: int
  long :: float64
  lat :: float64
  sog :: float64
  cog :: float64

text \<open>A row of \<^verbatim>\<open>ports\<close>: \<^verbatim>\<open>name\<close>, \<^verbatim>\<open>locode\<close> and the vertex array.\<close>

record port =
  name :: string
  locode :: string
  polygon :: "(real \<times> real) list"

text \<open>
  A row of \<^verbatim>\<open>routes\<close>, of \<^verbatim>\<open>interpolated_routes\<close> and of \<^verbatim>\<open>waypoints\<close>: a ping (or a
  grid point) with its voyage \<^verbatim>\<open>id\<close> (a \<open>track\<close> row: the columns the resampler reads)
  and the origin and destination columns.
\<close>

record track = ping +
  voyage_id :: nat

record row = track +
  from_locode :: string
  from_lat :: float64
  from_long :: float64
  to_locode :: string
  to_lat :: float64
  to_long :: float64
  to_time :: int

text \<open>The object \<^verbatim>\<open>clean_ais\<close>: every frame is None until its stage has run.\<close>

record clean_ais =
  ports :: "port list option"
  routes :: "row list option"
  interpolated_routes :: "row list option"
  polygon_df :: "(real \<times> real) list option"
  ais_data :: "ping list option"
  waypoints :: "row list option"
  waypoint_amount :: "int option"

text \<open>
  A method call either returns or raises; either way the object is left in some state,
  which a raised exception carries along.
\<close>

datatype outcome = Raised error clean_ais | Returned clean_ais

text \<open>The constructor \<^verbatim>\<open>__init__\<close>: no frame yet.\<close>

definition init :: clean_ais where
  "init = \<lparr>ports = None, routes = None, interpolated_routes = None, polygon_df = None,
           ais_data = None, waypoints = None, waypoint_amount = None\<rparr>"

text \<open>
  Code this repository calls and does not define. \<^verbatim>\<open>mask_from_polygons\<close>
  (\<^verbatim>\<open>modules/points_in_polygons\<close>, not among the sources) takes the latitudes, the
  longitudes and the polygons and returns rows \<open>(indices, polygon_index)\<close>;
  \<^verbatim>\<open>haversine_vector\<close> is the great-circle distance in kilometres between two
  \<open>(lat, long)\<close> points; the resampler stands for pandas'
  \<^verbatim>\<open>groupby(['id','mmsi']).resample(interval).mean().interpolate('linear')\<close>.
  All three are parameters of the model.
\<close>

type_synonym membership =
  "float64 list \<Rightarrow> float64 list \<Rightarrow> (real \<times> real) list list \<Rightarrow> (nat list \<times> nat) list"

type_synonym distance = "float64 \<times> float64 \<Rightarrow> float64 \<times> float64 \<Rightarrow> float64"

type_synonym resampler = "int \<Rightarrow> track list \<Rightarrow> error + track list"

section \<open>pandas operations\<close>

text \<open>\<^verbatim>\<open>drop_duplicates(col)\<close>: of the rows that agree on the column, the first stays.\<close>

fun drop_duplicates :: "('a \<Rightarrow> 'k) \<Rightarrow> 'a list \<Rightarrow> 'a list" where
  "drop_duplicates key [] = []"
| "drop_duplicates key (x # xs) = x # drop_duplicates key (filter (\<lambda>y. key y \<noteq> key x) xs)"

definition unique :: "'a list \<Rightarrow> 'a list" where
  "unique xs = drop_duplicates (\<lambda>x. x) xs"

text \<open>\<^verbatim>\<open>explode('index')\<close>: one row per listed index; an empty list leaves one NaN row.\<close>

definition explode :: "(nat list \<times> nat) list \<Rightarrow> (nat option \<times> nat) list" where
  "explode masks =
     concat (map (\<lambda>(idxs, p). if idxs = [] then [(None, p)] else map (\<lambda>i. (Some i, p)) idxs) masks)"

text \<open>\<^verbatim>\<open>s != s.shift()\<close> and \<^verbatim>\<open>s != s.shift() + 1\<close>: the first row compares with NaN.\<close>

fun neq_shift :: "'a list \<Rightarrow> bool list" where
  "neq_shift [] = []"
| "neq_shift (x # xs) = True # map (\<lambda>(a, b). a \<noteq> b) (zip xs (x # xs))"

fun neq_shift_plus1 :: "nat list \<Rightarrow> bool list" where
  "neq_shift_plus1 [] = []"
| "neq_shift_plus1 (x # xs) = True # map (\<lambda>(a, b). a \<noteq> b + 1) (zip xs (x # xs))"

text \<open>\<^verbatim>\<open>cumsum()\<close> of a boolean column: the number of True cells up to each row.\<close>

definition cumsum :: "bool list \<Rightarrow> nat list" where
  "cumsum bs = map (\<lambda>j. length (filter (\<lambda>b. b) (take (j + 1) bs))) [0..<length bs]"

text \<open>
  \<^verbatim>\<open>groupby(key)\<close>: the groups in the sorted order of their keys, each with its rows in
  frame order; \<^verbatim>\<open>grouper.group_info[0]\<close> numbers each row's group in that order.
\<close>

definition groupby :: "('a \<Rightarrow> 'k::linorder) \<Rightarrow> 'a list \<Rightarrow> ('k \<times> 'a list) list" where
  "groupby key df = map (\<lambda>k. (k, filter (\<lambda>x. key x = k) df)) (sort (remdups (map key df)))"

definition group_codes :: "'k::linorder list \<Rightarrow> nat list" where
  "group_codes keys = map (\<lambda>k. length (filter (\<lambda>k'. k' < k) (remdups keys))) keys"

fun sequence_err :: "(error + 'a) list \<Rightarrow> error + 'a list" where
  "sequence_err [] = Inr []"
| "sequence_err (x # xs) =
     (case x of Inl e \<Rightarrow> Inl e
      | Inr v \<Rightarrow> (case sequence_err xs of Inl e \<Rightarrow> Inl e | Inr vs \<Rightarrow> Inr (v # vs)))"

section \<open>create_routes\<close>

definition sort_values :: "ping list \<Rightarrow> ping list" where
  "sort_values ais = sort_key (\<lambda>p. (mmsi p, time p)) ais"

record indexed_ping =
  index_col :: nat
  ping_of :: ping

record in_port_row = indexed_ping +
  label :: nat
  port_of :: port

record route_row = indexed_ping +
  route_id :: nat

definition exploded_masks_of :: "(nat list \<times> nat) list \<Rightarrow> (nat option \<times> nat) list" where
  "exploded_masks_of masks = drop_duplicates fst (explode masks)"

text \<open>\<^verbatim>\<open>constraint = ships.index.isin(exploded_masks['index'])\<close>, at position \<open>i\<close>.\<close>

definition constraint :: "(nat option \<times> nat) list \<Rightarrow> nat \<Rightarrow> bool" where
  "constraint exploded_masks i = (Some i \<in> fst ` set exploded_masks)"

text \<open>
  \<^verbatim>\<open>in_port\<close>: the rows of \<^verbatim>\<open>ships[constraint]\<close> merged (inner, in the order of the left
  keys) with the port of their polygon, then relabelled by position with
  \<^verbatim>\<open>set_index(in_port.index)\<close>, which raises ValueError when the merge lost a row.
\<close>

definition in_port_frame ::
  "ping list \<Rightarrow> port list \<Rightarrow> (nat option \<times> nat) list \<Rightarrow> error + in_port_row list" where
  "in_port_frame ships prts exploded_masks =
     (let locode_in_polygon =
            concat (map (\<lambda>(idx, pj). if pj < length prts then [(idx, prts ! pj)] else [])
                        exploded_masks);
          left = filter (constraint exploded_masks) [0..<length ships];
          merged =
            concat (map (\<lambda>i. map (\<lambda>(idx, prt). (i, prt))
                                  (filter (\<lambda>(idx, prt). idx = Some i) locode_in_polygon)) left)
      in if length merged \<noteq> length left then Inl ValueError
         else Inr (map (\<lambda>(lab, (i, prt)).
                          \<lparr>index_col = i, ping_of = ships ! i, label = lab, port_of = prt\<rparr>)
                       (zip left merged)))"

text \<open>
  \<^verbatim>\<open>times\<close>: the rows of \<^verbatim>\<open>in_port\<close> grouped by \<^verbatim>\<open>mmsi\<close> and by the running count of
  changes of \<^verbatim>\<open>locode\<close>; one dwell segment per group.
\<close>

definition dwell_keys :: "in_port_row list \<Rightarrow> (nat \<times> nat) list" where
  "dwell_keys in_port =
     zip (map (\<lambda>r. mmsi (ping_of r)) in_port)
         (cumsum (neq_shift (map (\<lambda>r. locode (port_of r)) in_port)))"

definition times_frame :: "in_port_row list \<Rightarrow> in_port_row list list" where
  "times_frame in_port =
     map (\<lambda>(k, g). map snd g) (groupby fst (zip (dwell_keys in_port) in_port))"

text \<open>
  The average speed in knots over a dwell segment, from its first and last timestamp and
  position. A segment of one ping has \<open>0 / 0\<close>, which is NaN.
\<close>

definition segment_speed :: "distance \<Rightarrow> in_port_row list \<Rightarrow> float64" where
  "segment_speed haversine_vector g =
     (let delta_time = time (ping_of (last g)) - time (ping_of (hd g));
          lats = map (\<lambda>r. lat (ping_of r)) g;
          longs = map (\<lambda>r. long (ping_of r)) g;
          haversine_distance =
            haversine_vector (first_valid lats, first_valid longs) (last_valid lats, last_valid longs)
      in fmul (fdiv haversine_distance (Fin (real_of_int delta_time / 3600))) (Fin 0.53996))"

text \<open>A segment docks when \<^verbatim>\<open>speed <= speed_limit\<close>; every other segment is a transit.\<close>

definition docked :: "distance \<Rightarrow> real \<Rightarrow> in_port_row list \<Rightarrow> bool" where
  "docked haversine_vector speed_limit g = fle (segment_speed haversine_vector g) speed_limit"

definition time_out_port_idx :: "distance \<Rightarrow> real \<Rightarrow> in_port_row list \<Rightarrow> nat list" where
  "time_out_port_idx haversine_vector speed_limit in_port =
     concat (map (map index_col)
                 (filter (\<lambda>g. \<not> docked haversine_vector speed_limit g) (times_frame in_port)))"

text \<open>
  \<^verbatim>\<open>routes\<close> before the ids: the pings outside every port and the transit pings,
  concatenated and sorted by their index.
\<close>

definition routes_frame ::
  "ping list \<Rightarrow> (nat option \<times> nat) list \<Rightarrow> nat list \<Rightarrow> indexed_ping list" where
  "routes_frame ships exploded_masks out_idx =
     (let out_port =
            map (\<lambda>i. \<lparr>index_col = i, ping_of = ships ! i\<rparr>)
                (filter (\<lambda>i. \<not> constraint exploded_masks i) [0..<length ships]);
          time_out_port_values =
            map (\<lambda>i. \<lparr>index_col = i, ping_of = ships ! i\<rparr>)
                (filter (\<lambda>i. i \<in> set out_idx) [0..<length ships])
      in sort_key index_col (out_port @ time_out_port_values))"

text \<open>
  The id of a route row: the group number of \<^verbatim>\<open>mmsi\<close> and the running count of breaks
  in the index.
\<close>

definition route_keys :: "indexed_ping list \<Rightarrow> (nat \<times> nat) list" where
  "route_keys rts =
     zip (map (\<lambda>r. mmsi (ping_of r)) rts) (cumsum (neq_shift_plus1 (map index_col rts)))"

definition with_ids :: "indexed_ping list \<Rightarrow> route_row list" where
  "with_ids rts =
     map (\<lambda>(r, v). \<lparr>index_col = index_col r, ping_of = ping_of r, route_id = v\<rparr>)
         (zip rts (group_codes (route_keys rts)))"

text \<open>\<^verbatim>\<open>route_port\<close> after "Remove routes where there is less then 10 points".\<close>

definition point_count :: "route_row list \<Rightarrow> nat \<Rightarrow> nat" where
  "point_count rts v = length (filter (\<lambda>r. route_id r = v) rts)"

definition enough_points :: "route_row list \<Rightarrow> route_row list" where
  "enough_points rts = filter (\<lambda>r. 10 \<le> point_count rts (route_id r)) rts"

text \<open>\<^verbatim>\<open>remove_idx\<close>: per ship, the id of its first and of its last row.\<close>

definition remove_idx :: "route_row list \<Rightarrow> nat list" where
  "remove_idx route_port =
     concat (map (\<lambda>(m, g). [route_id (hd g), route_id (last g)])
                 (groupby (\<lambda>r. mmsi (ping_of r)) route_port))"

definition route_port_frame :: "route_row list \<Rightarrow> route_row list" where
  "route_port_frame rts =
     (let route_port = enough_points rts
      in filter (\<lambda>r. route_id r \<notin> set (remove_idx route_port)) route_port)"

text \<open>\<^verbatim>\<open>from_to\<close>: per id, the index of its first and of its last row.\<close>

definition from_to_frame :: "route_row list \<Rightarrow> (nat \<times> nat \<times> nat) list" where
  "from_to_frame route_port =
     map (\<lambda>(v, g). (v, index_col (hd g), index_col (last g))) (groupby route_id route_port)"

text \<open>\<^verbatim>\<open>in_port.loc[k]\<close>: the row labelled \<open>k\<close>, KeyError when there is none.\<close>

definition loc ::
  "(in_port_row \<times> float64 \<times> float64) list \<Rightarrow> int \<Rightarrow> error + in_port_row \<times> float64 \<times> float64" where
  "loc in_port k =
     (case find (\<lambda>(r, c). int (label r) = k) in_port of
        None \<Rightarrow> Inl KeyError
      | Some rc \<Rightarrow> Inr rc)"

text \<open>The origin and destination columns of one row of \<^verbatim>\<open>from_to\<close>.\<close>

definition attribution ::
  "(in_port_row \<times> float64 \<times> float64) list \<Rightarrow> nat \<times> nat \<times> nat \<Rightarrow>
     error + nat \<times> (in_port_row \<times> float64 \<times> float64) \<times> (in_port_row \<times> float64 \<times> float64)" where
  "attribution in_port ft =
     (case ft of (v, first_index, last_index) \<Rightarrow>
        (case loc in_port (int first_index - 1) of
           Inl e \<Rightarrow> Inl e
         | Inr origin \<Rightarrow>
             (case loc in_port (int last_index + 1) of
                Inl e \<Rightarrow> Inl e
              | Inr destination \<Rightarrow> Inr (v, origin, destination))))"

definition merge_from_to ::
  "route_row list \<Rightarrow>
   (nat \<times> (in_port_row \<times> float64 \<times> float64) \<times> (in_port_row \<times> float64 \<times> float64)) list \<Rightarrow> row list" where
  "merge_from_to route_port from_to =
     concat (map (\<lambda>r. map (\<lambda>(v, (o_row, o_lat, o_long), (d_row, d_lat, d_long)).
                         \<lparr>mmsi = mmsi (ping_of r), time = time (ping_of r),
                          long = long (ping_of r), lat = lat (ping_of r),
                          sog = sog (ping_of r), cog = cog (ping_of r),
                          voyage_id = route_id r,
                          from_locode = locode (port_of o_row), from_lat = o_lat, from_long = o_long,
                          to_locode = locode (port_of d_row), to_lat = d_lat, to_long = d_long,
                          to_time = time (ping_of d_row)\<rparr>)
                       (filter (\<lambda>(v, od). v = route_id r) from_to)) route_port)"

text \<open>The body of \<^verbatim>\<open>create_routes\<close> after its two checks, in the order of the source.\<close>

definition create_routes_frame ::
  "membership \<Rightarrow> distance \<Rightarrow> real \<Rightarrow> ping list \<Rightarrow> port list \<Rightarrow> error + row list" where
  "create_routes_frame mask_from_polygons haversine_vector speed_limit ais prts =
     (let ships = sort_values ais;
          masks = mask_from_polygons (map lat ships) (map long ships) (map polygon prts);
          exploded_masks = exploded_masks_of masks
      in case in_port_frame ships prts exploded_masks of
           Inl e \<Rightarrow> Inl e
         | Inr in_port \<Rightarrow>
             (let out_idx = time_out_port_idx haversine_vector speed_limit in_port
              in case sequence_err (map (\<lambda>r. find_centroid (polygon (port_of r))) in_port) of
                   Inl e \<Rightarrow> Inl e
                 | Inr centroid \<Rightarrow>
                     (let route_port =
                            route_port_frame (with_ids (routes_frame ships exploded_masks out_idx))
                      in case sequence_err (map (attribution (zip in_port centroid))
                                                (from_to_frame route_port)) of
                           Inl e \<Rightarrow> Inl e
                         | Inr from_to \<Rightarrow> Inr (merge_from_to route_port from_to))))"

definition create_routes :: "membership \<Rightarrow> distance \<Rightarrow> real \<Rightarrow> clean_ais \<Rightarrow> outcome" where
  "create_routes mask_from_polygons haversine_vector speed_limit self =
     (case ais_data self of
        None \<Rightarrow> Raised (NotdefinedError ''ais_data'') self
      | Some ais \<Rightarrow>
          (case ports self of
             None \<Rightarrow> Raised (NotdefinedError ''ports'') self
           | Some prts \<Rightarrow>
               (case create_routes_frame mask_from_polygons haversine_vector speed_limit ais prts of
                  Inl e \<Rightarrow> Raised e self
                | Inr route_port \<Rightarrow> Returned (self\<lparr>routes := Some route_port\<rparr>))))"

section \<open>remove_routes_outside_polygon\<close>

definition remove_routes_outside_polygon :: "membership \<Rightarrow> clean_ais \<Rightarrow> outcome" where
  "remove_routes_outside_polygon mask_from_polygons self =
     (case polygon_df self of
        None \<Rightarrow> Raised (NotdefinedError ''polygon'') self
      | Some pol \<Rightarrow>
          (case routes self of
             None \<Rightarrow> Raised (NotdefinedError ''routes'') self
           | Some rts \<Rightarrow>
               (case mask_from_polygons (map lat rts) (map long rts) [pol] of
                  [] \<Rightarrow> Raised IndexError self
                | (inside, _) # _ \<Rightarrow>
                    (let remove_id =
                           unique (map (\<lambda>(i, r). voyage_id r)
                                       (filter (\<lambda>(i, r). i \<notin> set inside) (enumerate 0 rts)))
                     in Returned (self\<lparr>routes :=
                                    Some (filter (\<lambda>r. voyage_id r \<notin> set remove_id) rts)\<rparr>)))))"

section \<open>The resampling step (__interpolate) and interpolate_routes\<close>

type_synonym meta = "string \<times> string \<times> float64 \<times> float64 \<times> float64 \<times> float64 \<times> int"

definition meta_of :: "row \<Rightarrow> meta" where
  "meta_of r =
     (from_locode r, to_locode r, from_lat r, from_long r, to_lat r, to_long r, to_time r)"

definition track_of :: "row \<Rightarrow> track" where
  "track_of r =
     \<lparr>mmsi = mmsi r, time = time r, long = long r, lat = lat r, sog = sog r, cog = cog r,
      voyage_id = voyage_id r\<rparr>"

definition with_meta :: "track \<Rightarrow> meta \<Rightarrow> row" where
  "with_meta t m =
     (case m of (f_loc, t_loc, f_lat, f_long, t_lat, t_long, t_time) \<Rightarrow>
        \<lparr>mmsi = mmsi t, time = time t, long = long t, lat = lat t, sog = sog t, cog = cog t,
         voyage_id = voyage_id t,
         from_locode = f_loc, from_lat = f_lat, from_long = f_long,
         to_locode = t_loc, to_lat = t_lat, to_long = t_long, to_time = t_time\<rparr>)"

definition meta_has_nan :: "meta \<Rightarrow> bool" where
  "meta_has_nan m =
     (case m of (f_loc, t_loc, f_lat, f_long, t_lat, t_long, t_time) \<Rightarrow>
        f_lat = NaN \<or> f_long = NaN \<or> t_lat = NaN \<or> t_long = NaN)"

text \<open>
  \<^verbatim>\<open>id_locode\<close>: \<^verbatim>\<open>value_counts()\<close> of the id and port columns, that is the distinct
  combinations without a NaN cell in the sorted order of \<^verbatim>\<open>groupby\<close>, then sorted by
  falling count, combinations of equal count staying in their order.
\<close>

definition float_key :: "float64 \<Rightarrow> nat \<times> real" where
  "float_key x = (case x of NInf \<Rightarrow> (0, 0) | Fin r \<Rightarrow> (1, r) | PInf \<Rightarrow> (2, 0) | NaN \<Rightarrow> (3, 0))"

definition combination_key ::
  "nat \<times> meta \<Rightarrow>
     nat \<times> string \<times> string \<times> (nat \<times> real) \<times> (nat \<times> real) \<times> (nat \<times> real) \<times> (nat \<times> real) \<times> int" where
  "combination_key c =
     (case c of (v, f_loc, t_loc, f_lat, f_long, t_lat, t_long, t_time) \<Rightarrow>
        (v, f_loc, t_loc, float_key f_lat, float_key f_long, float_key t_lat, float_key t_long,
         t_time))"

definition id_locode :: "row list \<Rightarrow> (nat \<times> meta) list" where
  "id_locode dataframe =
     (let combos = filter (\<lambda>(v, m). \<not> meta_has_nan m)
                          (map (\<lambda>r. (voyage_id r, meta_of r)) dataframe)
      in sort_key (\<lambda>c. - int (length (filter (\<lambda>c'. c' = c) combos)))
                  (sort_key combination_key (unique combos)))"

text \<open>\<^verbatim>\<open>__interpolate\<close>: resample the track columns, then join the port columns back by id.\<close>

definition private_interpolate :: "resampler \<Rightarrow> int \<Rightarrow> row list \<Rightarrow> error + row list" where
  "private_interpolate resample interval_s dataframe =
     (case resample interval_s (map track_of dataframe) of
        Inl e \<Rightarrow> Inl e
      | Inr interpolated \<Rightarrow>
          Inr (concat (map (\<lambda>t. map (\<lambda>(v, m). with_meta t m)
                                   (filter (\<lambda>(v, m). v = voyage_id t) (id_locode dataframe)))
                           interpolated)))"

definition interpolate_routes :: "resampler \<Rightarrow> int \<Rightarrow> clean_ais \<Rightarrow> outcome" where
  "interpolate_routes resample interval_s self =
     (case routes self of
        None \<Rightarrow> Raised (NotdefinedError ''routes'') self
      | Some rts \<Rightarrow>
          (case private_interpolate resample interval_s rts of
             Inl e \<Rightarrow> Raised e self
           | Inr df \<Rightarrow> Returned (self\<lparr>interpolated_routes := Some df\<rparr>)))"

section \<open>clean_data\<close>

text \<open>\<^verbatim>\<open>groupby('id').shift(1)\<close>: beside each row, the row before it among those of its id.\<close>

fun shift_by_id :: "(nat \<Rightarrow> row option) \<Rightarrow> row list \<Rightarrow> row option list" where
  "shift_by_id prev [] = []"
| "shift_by_id prev (r # rs) = prev (voyage_id r) # shift_by_id (prev(voyage_id r := Some r)) rs"

text \<open>A row that \<^verbatim>\<open>dropna()\<close> keeps has no NaN cell.\<close>

definition complete :: "row \<Rightarrow> bool" where
  "complete r =
     (lat r \<noteq> NaN \<and> long r \<noteq> NaN \<and> sog r \<noteq> NaN \<and> cog r \<noteq> NaN \<and> \<not> meta_has_nan (meta_of r))"

text \<open>
  \<^verbatim>\<open>ais_inter_day_diff\<close>: each row merged with the shifted \<^verbatim>\<open>next_lat\<close>, \<^verbatim>\<open>next_long\<close> and
  \<^verbatim>\<open>next_time\<close> of the row before it, after \<^verbatim>\<open>dropna()\<close>.
\<close>

definition ais_inter_day_diff :: "row list \<Rightarrow> (row \<times> row) list" where
  "ais_inter_day_diff ais_inter_day =
     concat (map (\<lambda>(r, p). case p of
                     None \<Rightarrow> []
                   | Some q \<Rightarrow> if complete r \<and> lat q \<noteq> NaN \<and> long q \<noteq> NaN then [(r, q)] else [])
                 (zip ais_inter_day (shift_by_id (\<lambda>v. None) ais_inter_day)))"

definition stationary_ids :: "distance \<Rightarrow> real \<Rightarrow> row list \<Rightarrow> nat list" where
  "stationary_ids haversine_vector threshold ais_inter_day =
     unique (map (\<lambda>(r, q). voyage_id r)
                 (filter (\<lambda>(r, q). flt (haversine_vector (lat r, long r) (lat q, long q)) threshold)
                         (ais_inter_day_diff ais_inter_day)))"

definition slow_ids :: "real \<Rightarrow> row list \<Rightarrow> nat list" where
  "slow_ids speed interpolated = unique (map voyage_id (filter (\<lambda>r. fle (sog r) speed) interpolated))"

definition drop_ids :: "nat list \<Rightarrow> row list \<Rightarrow> row list" where
  "drop_ids remove_id df = filter (\<lambda>r. voyage_id r \<notin> set remove_id) df"

definition clean_data ::
  "resampler \<Rightarrow> distance \<Rightarrow> real \<Rightarrow> int \<Rightarrow> real \<Rightarrow> clean_ais \<Rightarrow> outcome" where
  "clean_data resample haversine_vector threshold interval_s speed self =
     (case routes self of
        None \<Rightarrow> Raised (NotdefinedError ''routes'') self
      | Some rts \<Rightarrow>
          (case interpolated_routes self of
             None \<Rightarrow> Raised (NotdefinedError ''interpolated_routes'') self
           | Some grid \<Rightarrow>
               (case private_interpolate resample interval_s grid of
                  Inl e \<Rightarrow> Raised e self
                | Inr ais_inter_day \<Rightarrow>
                    (let remove_id = stationary_ids haversine_vector threshold ais_inter_day;
                         rts1 = drop_ids remove_id rts;
                         grid1 = drop_ids remove_id grid;
                         remove_id2 = slow_ids speed grid1
                     in Returned (self\<lparr>routes := Some (drop_ids remove_id2 rts1),
                                      interpolated_routes := Some (drop_ids remove_id2 grid1)\<rparr>)))))"

text \<open>
  The words of the stationarity rule, for comparison with the code: two rows of a frame
  are consecutive grid points of a voyage when they carry the same id and no row between
  them does; a voyage is stationary when some consecutive pair of its grid points, the
  later one without a NaN cell and the earlier one with a position, lies closer than the
  threshold.
\<close>

definition consecutive :: "row list \<Rightarrow> row \<Rightarrow> row \<Rightarrow> bool" where
  "consecutive df q r =
     (\<exists>k<length df. \<exists>j<k. df ! j = q \<and> df ! k = r \<and> voyage_id q = voyage_id r \<and>
        (\<forall>i. j < i \<and> i < k \<longrightarrow> voyage_id (df ! i) \<noteq> voyage_id r))"

definition stationary :: "distance \<Rightarrow> real \<Rightarrow> row list \<Rightarrow> nat \<Rightarrow> bool" where
  "stationary haversine_vector threshold df v =
     (\<exists>q r. consecutive df q r \<and> voyage_id r = v \<and> complete r \<and> lat q \<noteq> NaN \<and> long q \<noteq> NaN \<and>
        flt (haversine_vector (lat r, long r) (lat q, long q)) threshold)"

section \<open>Waypoints (__waypoints)\<close>

text \<open>
  The column \<^verbatim>\<open>f\<close>: the duration in nanoseconds, divided by \<^verbatim>\<open>points - 1\<close> and
  floor-divided by \<open>10^9\<close>, as a float. With \<^verbatim>\<open>points = 1\<close> the quotient is infinite or
  NaN and its floor division is NaN, which is None here.
\<close>

definition bucket_width :: "int \<Rightarrow> int \<Rightarrow> int option" where
  "bucket_width points duration_s =
     (if points - 1 = 0 then None
      else Some \<lfloor>real_of_int (duration_s * 10 ^ 9) / real_of_int (points - 1) / 10 ^ 9\<rfloor>)"

text \<open>
  The column \<^verbatim>\<open>s_group = t0 + s_since_t0 // f * f\<close>. Nothing guards \<^verbatim>\<open>f\<close>: the float floor
  division by zero raises nothing, it gives an infinity or NaN, and the product with the
  zero width is NaN, which \<^verbatim>\<open>pd.to_datetime\<close> reads as NaT (None here).
\<close>

definition s_group :: "int \<Rightarrow> int \<Rightarrow> int option \<Rightarrow> int option" where
  "s_group t0 s_since_t0 f =
     (case f of
        None \<Rightarrow> None
      | Some w \<Rightarrow> if w = 0 then None else Some (t0 + s_since_t0 div w * w))"

definition voyage_times :: "row list \<Rightarrow> nat \<Rightarrow> int list" where
  "voyage_times route v = map time (filter (\<lambda>r. voyage_id r = v) route)"

definition voyage_f :: "int \<Rightarrow> row list \<Rightarrow> nat \<Rightarrow> int option" where
  "voyage_f points route v =
     bucket_width points (Max (set (voyage_times route v)) - Min (set (voyage_times route v)))"

definition voyage_t0 :: "row list \<Rightarrow> nat \<Rightarrow> int" where
  "voyage_t0 route v = Min (set (voyage_times route v)) div 86400 * 86400"

definition time_group :: "int \<Rightarrow> row list \<Rightarrow> row \<Rightarrow> int option" where
  "time_group points route r =
     s_group (voyage_t0 route (voyage_id r))
             (time r - voyage_t0 route (voyage_id r))
             (voyage_f points route (voyage_id r))"

text \<open>
  \<^verbatim>\<open>z.groupby(['id', 'time_group']).mean()\<close>: the rows whose \<^verbatim>\<open>time_group\<close> is NaT fall
  out of the grouping.
\<close>

definition waypoint_groups :: "int \<Rightarrow> row list \<Rightarrow> ((nat \<times> int) \<times> row list) list" where
  "waypoint_groups points route =
     map (\<lambda>(k, g). (k, map snd g))
         (groupby fst
            (concat (map (\<lambda>r. case time_group points route r of
                                None \<Rightarrow> []
                              | Some tg \<Rightarrow> [((voyage_id r, tg), r)]) route)))"

definition port_info :: "row list \<Rightarrow> (nat \<times> nat \<times> meta) list" where
  "port_info route = unique (map (\<lambda>r. (mmsi r, voyage_id r, meta_of r)) route)"

definition private_waypoints :: "row list \<Rightarrow> int \<Rightarrow> row list" where
  "private_waypoints route points =
     concat (map (\<lambda>((v, tg), g).
                    map (\<lambda>(m, v', meta).
                           with_meta \<lparr>mmsi = m, time = tg,
                                      long = fmean (map long g), lat = fmean (map lat g),
                                      sog = fmean (map sog g), cog = fmean (map cog g),
                                      voyage_id = v\<rparr> meta)
                        (filter (\<lambda>(m, v', meta). v' = v) (port_info route)))
                 (waypoint_groups points route))"

section \<open>create_waypoints\<close>

text \<open>\<^verbatim>\<open>point_amount\<close>: per id, the number of rows whose \<^verbatim>\<open>lat\<close> is not NaN.\<close>

definition point_amount :: "row list \<Rightarrow> (nat \<times> nat) list" where
  "point_amount interpolated =
     map (\<lambda>(v, g). (v, length (filter (\<lambda>r. lat r \<noteq> NaN) g))) (groupby voyage_id interpolated)"

definition missing_ids :: "int \<Rightarrow> row list \<Rightarrow> nat list" where
  "missing_ids amount interpolated =
     map fst (filter (\<lambda>(v, c). int c < amount) (point_amount interpolated))"

text \<open>
  \<^verbatim>\<open>delta_time\<close>: per id of \<^verbatim>\<open>missing_points_data\<close>, the whole minutes between its first
  and its last row in \<^verbatim>\<open>routes\<close> (the rows of a voyage are in time order).
\<close>

definition delta_time :: "row list \<Rightarrow> nat list \<Rightarrow> (nat \<times> int) list" where
  "delta_time rts missing =
     map (\<lambda>(v, g). (v, (time (last g) - time (hd g)) div 60))
         (groupby voyage_id (filter (\<lambda>r. voyage_id r \<in> set missing) rts))"

text \<open>\<^verbatim>\<open>port_route_copy\<close> after the merge with \<^verbatim>\<open>delta_time\<close>: each row with its length.\<close>

definition port_route_copy :: "row list \<Rightarrow> (nat \<times> int) list \<Rightarrow> (row \<times> int) list" where
  "port_route_copy interpolated dt =
     concat (map (\<lambda>r. map (\<lambda>(v, l). (r, l)) (filter (\<lambda>(v, l). v = voyage_id r) dt)) interpolated)"

text \<open>
  \<^verbatim>\<open>int(smallest_time*60/self.waypoint_amount)\<close>. The minimum of an empty column is the
  Python float NaN: dividing it by 0 raises ZeroDivisionError, and \<^verbatim>\<open>int\<close> refuses NaN
  with ValueError. Otherwise the minimum is a numpy float64: divided by 0 it is
  infinite, which \<^verbatim>\<open>int\<close> refuses with OverflowError, and any other quotient is
  truncated towards zero.
\<close>

definition resample_interval :: "int \<Rightarrow> int list \<Rightarrow> error + int" where
  "resample_interval amount lengths =
     (if lengths = [] then Inl (if amount = 0 then ZeroDivisionError else ValueError)
      else if amount = 0 then Inl OverflowError
      else Inr (sgn (Min (set lengths) * 60) * sgn amount
                  * (\<bar>Min (set lengths) * 60\<bar> div \<bar>amount\<bar>)))"

text \<open>
  The rows of the grid whose voyage has fewer than \<^verbatim>\<open>waypoint_amount\<close> points, each with
  the length of its voyage, and the interval handed to \<^verbatim>\<open>__interpolate\<close>.
\<close>

definition short_voyages :: "int \<Rightarrow> row list \<Rightarrow> row list \<Rightarrow> (row \<times> int) list" where
  "short_voyages amount rts grid = port_route_copy grid (delta_time rts (missing_ids amount grid))"

definition waypoint_interval :: "int \<Rightarrow> row list \<Rightarrow> row list \<Rightarrow> error + int" where
  "waypoint_interval amount rts grid =
     resample_interval amount (map snd (filter (\<lambda>(r, l). 30 \<le> l) (short_voyages amount rts grid)))"

definition create_waypoints :: "resampler \<Rightarrow> int \<Rightarrow> clean_ais \<Rightarrow> outcome" where
  "create_waypoints resample amount self =
     (case interpolated_routes self of
        None \<Rightarrow> Raised (NotdefinedError ''interpolated_routes'') self
      | Some grid \<Rightarrow>
          (case routes self of
             None \<Rightarrow> Raised (NotdefinedError ''routes'') self
           | Some rts \<Rightarrow>
               (let self1 = self\<lparr>waypoint_amount := Some amount\<rparr>;
                    merged = short_voyages amount rts grid;
                    remove_id = unique (map (\<lambda>(r, l). voyage_id r) merged);
                    kept = filter (\<lambda>(r, l). 30 \<le> l) merged
                in case waypoint_interval amount rts grid of
                     Inl e \<Rightarrow> Raised e self1
                   | Inr interval \<Rightarrow>
                       (case private_interpolate resample interval (map fst kept) of
                          Inl e \<Rightarrow> Raised e self1
                        | Inr new_inter \<Rightarrow>
                            Returned (self1\<lparr>waypoints :=
                              Some (private_waypoints (new_inter @ drop_ids remove_id grid)
                                                      amount)\<rparr>)))))"





section \<open>Saving\<close>

text \<open>
  \<^verbatim>\<open>__save_pickle\<close> writes the frame to disk, which is outside the model, and leaves
  the object as it is; without a frame it raises.
\<close>

definition private_save_pickle :: "'a option \<Rightarrow> string \<Rightarrow> clean_ais \<Rightarrow> outcome" where
  "private_save_pickle dataframe variable_name self =
     (case dataframe of
        None \<Rightarrow> Raised (NotdefinedError variable_name) self
      | Some df \<Rightarrow> Returned self)"

definition save_routes :: "clean_ais \<Rightarrow> outcome" where
  "save_routes self = private_save_pickle (routes self) ''routes'' self"

definition save_interpolated :: "clean_ais \<Rightarrow> outcome" where
  "save_interpolated self =
     private_save_pickle (interpolated_routes self) ''interpolated_routes'' self"

definition save_waypoints :: "clean_ais \<Rightarrow> outcome" where
  "save_waypoints self = private_save_pickle (waypoints self) ''waypoints'' self"

section \<open>Notions for the statements about create_routes\<close>

text \<open>
  The group number of a key, as \<^verbatim>\<open>group_info[0]\<close> gives it: the number of distinct
  keys below it.
\<close>

definition rank :: "'k::linorder list \<Rightarrow> 'k \<Rightarrow> nat" where
  "rank keys k = length (filter (\<lambda>k'. k' < k) (remdups keys))"

text \<open>Frames whose rows are in strictly increasing order of their index.\<close>

definition increasing :: "('a indexed_ping_scheme) list \<Rightarrow> bool" where
  "increasing df = sorted_wrt (\<lambda>a b. index_col a < index_col b) df"

text \<open>
  A frame \<open>R\<close> of route rows in increasing order of their index, every index below
  \<open>n\<close>, the ship of a row a monotone function \<open>mm\<close> of its index: what sorting by
  \<^verbatim>\<open>mmsi\<close> and \<^verbatim>\<open>time\<close> gives.
\<close>

definition ship_sorted :: "nat \<Rightarrow> (nat \<Rightarrow> nat) \<Rightarrow> indexed_ping list \<Rightarrow> bool" where
  "ship_sorted n mm R \<longleftrightarrow>
     increasing R \<and>
     (\<forall>r\<in>set R. index_col r < n \<and> mmsi (ping_of r) = mm (index_col r)) \<and>
     (\<forall>i j. i \<le> j \<and> j < n \<longrightarrow> mm i \<le> mm j)"

text \<open>The port a ping index is merged with: that of the first row of the exploded masks.\<close>

definition assigned_port :: "port list \<Rightarrow> (nat option \<times> nat) list \<Rightarrow> nat \<Rightarrow> port option" where
  "assigned_port prts exploded_masks i =
     (case find (\<lambda>e. fst e = Some i) exploded_masks of
        None \<Rightarrow> None
      | Some (idx, pj) \<Rightarrow> if pj < length prts then Some (prts ! pj) else None)"

text \<open>The ids of the voyages of a ship that have at least 10 points.\<close>

definition ship_ids :: "route_row list \<Rightarrow> nat \<Rightarrow> nat set" where
  "ship_ids W s =
     set (map route_id
            (filter (\<lambda>r. mmsi (ping_of r) = s \<and> 10 \<le> point_count W (route_id r)) W))"

section \<open>Concrete inputs\<close>

text \<open>
  Stand-ins for the three external functions, used to run the model on concrete frames:
  a membership test that finds no ping in any polygon, a distance that is zero between
  equal points and 100 km between different ones, and a resampler that returns the
  frame it is given (what pandas returns for a frame that is already on the grid and
  has no gap).
\<close>

definition no_masks :: membership where
  "no_masks lats longs polygons = []"

definition flat_distance :: distance where
  "flat_distance a b = (if a = b then Fin 0 else Fin 100)"

definition same_grid :: resampler where
  "same_grid interval_s df = Inr df"

text \<open>
  A frame of four voyages of two grid points each, 24 hours apart, used both as
  \<^verbatim>\<open>routes\<close> and as \<^verbatim>\<open>interpolated_routes\<close>. Voyage 1 has no course (NaN, at the head of
  the frame, where linear interpolation fills nothing) and does not move; voyage 2 does
  not move; voyage 3 moves and has one grid point at 0.3 knots; voyage 4 moves at 9 knots.
\<close>

definition grid_point :: "nat \<Rightarrow> int \<Rightarrow> real \<Rightarrow> real \<Rightarrow> float64 \<Rightarrow> float64 \<Rightarrow> row" where
  "grid_point v t la lo s c =
     \<lparr>mmsi = v, time = t, long = Fin lo, lat = Fin la, sog = s, cog = c, voyage_id = v,
      from_locode = ''DKAAR'', from_lat = Fin 56, from_long = Fin 10,
      to_locode = ''DKCPH'', to_lat = Fin 55, to_long = Fin 12, to_time = 172800\<rparr>"

definition example_grid :: "row list" where
  "example_grid =
     [grid_point 1 0 55 10 (Fin 8) NaN, grid_point 1 86400 55 10 (Fin 8) NaN,
      grid_point 2 0 56 11 (Fin 8) (Fin 90), grid_point 2 86400 56 11 (Fin 8) (Fin 90),
      grid_point 3 0 57 12 (Fin 8) (Fin 90), grid_point 3 86400 58 13 (Fin (3 / 10)) (Fin 90),
      grid_point 4 0 59 14 (Fin 9) (Fin 90), grid_point 4 86400 60 15 (Fin 9) (Fin 90)]"

definition example_cleaned :: "row list" where
  "example_cleaned =
     [grid_point 1 0 55 10 (Fin 8) NaN, grid_point 1 86400 55 10 (Fin 8) NaN,
      grid_point 4 0 59 14 (Fin 9) (Fin 90), grid_point 4 86400 60 15 (Fin 9) (Fin 90)]"

definition example_state :: clean_ais where
  "example_state = init\<lparr>routes := Some example_grid, interpolated_routes := Some example_grid\<rparr>"

text \<open>
  Grid points of one moving ship per voyage, and three frames built from them: a voyage
  of six grid points one second apart starting one second after midnight; a frame of a
  20 second voyage and a 990 second voyage; and raw routes with their grid for a voyage
  of 60 minutes and one of 10 minutes (two grid points each) and one of 60 minutes with
  three grid points.
\<close>

definition tick :: "nat \<Rightarrow> int \<Rightarrow> row" where
  "tick v t =
     \<lparr>mmsi = v, time = t, long = Fin 10, lat = Fin 55, sog = Fin 8, cog = Fin 90, voyage_id = v,
      from_locode = ''DKAAR'', from_lat = Fin 56, from_long = Fin 10,
      to_locode = ''DKCPH'', to_lat = Fin 55, to_long = Fin 12, to_time = 172800\<rparr>"

definition six_seconds :: "row list" where
  "six_seconds = [tick 1 1, tick 1 2, tick 1 3, tick 1 4, tick 1 5, tick 1 6]"

definition brief_and_long :: "row list" where
  "brief_and_long = [tick 2 0, tick 2 10, tick 2 20, tick 3 0, tick 3 990]"







text \<open>
  A synthetic ship and three ports. The membership test stands in for
  \<^verbatim>\<open>mask_from_polygons\<close> on rectangles with sides along the axes: a ping is inside when
  its position lies between the smallest and the largest vertex coordinate; as the
  source's, it lists per polygon the indices of the pings inside. The ship sends 34
  pings one minute apart: ten outside every port, two at rest in Alpha, ten outside, two
  at rest in Bravo, ten outside. The rectangle of Charlie contains that of Bravo, so the
  pings 22 and 23 are reported for both.
\<close>

definition in_box :: "float64 \<Rightarrow> float64 \<Rightarrow> (real \<times> real) list \<Rightarrow> bool" where
  "in_box la lo vertices =
     (case (la, lo) of
        (Fin a, Fin b) \<Rightarrow>
          list_ex (\<lambda>p. fst p \<le> a) vertices \<and> list_ex (\<lambda>p. a \<le> fst p) vertices \<and>
          list_ex (\<lambda>p. snd p \<le> b) vertices \<and> list_ex (\<lambda>p. b \<le> snd p) vertices
      | _ \<Rightarrow> False)"

definition box_membership :: membership where
  "box_membership lats longs polygons =
     map (\<lambda>j. (filter (\<lambda>i. in_box (lats ! i) (longs ! i) (polygons ! j)) [0..<length lats], j))
         [0..<length polygons]"

definition synthetic_ping :: "nat \<Rightarrow> real \<Rightarrow> ping" where
  "synthetic_ping k position =
     \<lparr>mmsi = 7, time = 60 * int k, long = Fin position, lat = Fin position,
      sog = Fin 8, cog = Fin 90\<rparr>"

definition synthetic_ais :: "ping list" where
  "synthetic_ais =
     map (\<lambda>k. synthetic_ping k 5) [0..<10] @
     [synthetic_ping 10 (1 / 2), synthetic_ping 11 (1 / 2)] @
     map (\<lambda>k. synthetic_ping k 5) [12..<22] @
     [synthetic_ping 22 (21 / 2), synthetic_ping 23 (21 / 2)] @
     map (\<lambda>k. synthetic_ping k 5) [24..<34]"

definition synthetic_ports :: "port list" where
  "synthetic_ports =
     [\<lparr>name = ''Alpha'', locode = ''AAA'', polygon = [(0, 0), (0, 1), (1, 1), (1, 0)]\<rparr>,
      \<lparr>name = ''Bravo'', locode = ''BBB'', polygon = [(10, 10), (10, 11), (11, 11), (11, 10)]\<rparr>,
      \<lparr>name = ''Charlie'', locode = ''CCC'', polygon = [(9, 9), (9, 12), (12, 12), (12, 9)]\<rparr>]"

definition synthetic_masks :: "(nat list \<times> nat) list" where
  "synthetic_masks = [([10, 11], 0), ([22, 23], 1), ([22, 23], 2)]"

definition synthetic_dock :: "nat \<Rightarrow> real \<Rightarrow> nat \<Rightarrow> in_port_row" where
  "synthetic_dock k position j =
     \<lparr>index_col = k, ping_of = synthetic_ping k position, label = k,
      port_of = synthetic_ports ! j\<rparr>"

definition synthetic_in_port :: "in_port_row list" where
  "synthetic_in_port =
     [synthetic_dock 10 (1 / 2) 0, synthetic_dock 11 (1 / 2) 0,
      synthetic_dock 22 (21 / 2) 1, synthetic_dock 23 (21 / 2) 1]"

definition synthetic_row :: "nat \<Rightarrow> row" where
  "synthetic_row k =
     \<lparr>mmsi = 7, time = 60 * int k, long = Fin 5, lat = Fin 5, sog = Fin 8, cog = Fin 90,
      voyage_id = 1,
      from_locode = ''AAA'', from_lat = Fin (1 / 2), from_long = Fin (1 / 2),
      to_locode = ''BBB'', to_lat = Fin (21 / 2), to_long = Fin (21 / 2), to_time = 1320\<rparr>"

definition synthetic_routes :: "row list" where
  "synthetic_routes = map synthetic_row [12..<22]"

definition synthetic_voyages :: "route_row list" where
  "synthetic_voyages =
     map (\<lambda>k. \<lparr>index_col = k, ping_of = synthetic_ping k 5, route_id = 0\<rparr>) [0..<10] @
     map (\<lambda>k. \<lparr>index_col = k, ping_of = synthetic_ping k 5, route_id = 1\<rparr>) [12..<22] @
     map (\<lambda>k. \<lparr>index_col = k, ping_of = synthetic_ping k 5, route_id = 2\<rparr>) [24..<34]"

text \<open>
  A ship that never stops. It sends 34 pings one hour apart: ten outside every port, two
  while it crosses Alpha (100 km by the stand-in distance, in one hour), ten outside,
  two while it crosses Alpha again on the way back, ten outside. The last ping inside
  Alpha is at the position of the first.
\<close>

definition crossing_ping :: "nat \<Rightarrow> real \<Rightarrow> ping" where
  "crossing_ping k position =
     \<lparr>mmsi = 7, time = 3600 * int k, long = Fin position, lat = Fin position,
      sog = Fin 8, cog = Fin 90\<rparr>"

definition crossing_ais :: "ping list" where
  "crossing_ais =
     map (\<lambda>k. crossing_ping k 5) [0..<10] @
     [crossing_ping 10 (1 / 4), crossing_ping 11 (3 / 4)] @
     map (\<lambda>k. crossing_ping k 5) [12..<22] @
     [crossing_ping 22 (3 / 4), crossing_ping 23 (1 / 4)] @
     map (\<lambda>k. crossing_ping k 5) [24..<34]"

definition crossing_masks :: "(nat list \<times> nat) list" where
  "crossing_masks = [([10, 11, 22, 23], 0), ([], 1), ([], 2)]"

definition crossing_visit :: "nat \<Rightarrow> real \<Rightarrow> in_port_row" where
  "crossing_visit k position =
     \<lparr>index_col = k, ping_of = crossing_ping k position, label = k,
      port_of = synthetic_ports ! 0\<rparr>"

definition first_crossing :: "in_port_row list" where
  "first_crossing = [crossing_visit 10 (1 / 4), crossing_visit 11 (3 / 4)]"

definition second_crossing :: "in_port_row list" where
  "second_crossing = [crossing_visit 22 (3 / 4), crossing_visit 23 (1 / 4)]"

definition crossing_row :: "nat \<Rightarrow> row" where
  "crossing_row k =
     \<lparr>mmsi = 7, time = 3600 * int k, long = Fin 5, lat = Fin 5, sog = Fin 8, cog = Fin 90,
      voyage_id = 1,
      from_locode = ''AAA'', from_lat = Fin (1 / 2), from_long = Fin (1 / 2),
      to_locode = ''AAA'', to_lat = Fin (1 / 2), to_long = Fin (1 / 2), to_time = 79200\<rparr>"

definition crossing_routes :: "row list" where
  "crossing_routes = map crossing_row [12..<22]"

section \<open>The centroid: no check for a degenerate polygon\<close>

lemma upt_3: "[0..<3] = [0, 1, 2]"
  by (simp add: upt_rec)

lemma upt_4: "[0..<4] = [0, 1, 2, 3]"
  by (simp add: upt_rec)

subsection \<open>Rounding\<close>

lemma round_half_even_int: "round_half_even (of_int k) = k"
  by (simp add: round_half_even_def)

text \<open>Every integer below \<open>2 ^ 53\<close> in magnitude is a float64 value.\<close>

lemma round_binary64_int:
  assumes "\<bar>n\<bar> < 2 ^ 53"
  shows "round_binary64 (of_int n) = B64 (of_int n)"
proof (cases "n = 0")
  case True
  then show ?thesis by (simp add: round_binary64_def)
next
  case False
  let ?x = "of_int n :: real"
  define e where "e = bitlen \<bar>n\<bar> - 1"
  have pos: "0 < \<bar>n\<bar>" using False by simp
  from bitlen_bounds [OF pos] have b: "2 ^ nat e \<le> \<bar>n\<bar>" "\<bar>n\<bar> < 2 ^ nat (bitlen \<bar>n\<bar>)"
    by (simp_all add: e_def)
  have "(2::int) ^ nat e < 2 ^ 53" using b(1) assms by linarith
  from power_less_imp_less_exp [OF _ this] have "nat e < 53" by simp
  moreover have "0 < bitlen \<bar>n\<bar>"
  proof (rule ccontr)
    assume "\<not> 0 < bitlen \<bar>n\<bar>"
    then have "nat (bitlen \<bar>n\<bar>) = 0" by simp
    with b(2) pos show False by simp
  qed
  ultimately have e: "0 \<le> e" "e \<le> 52" by (simp_all add: e_def)
  have one: "1 \<le> \<bar>?x\<bar>" using False by (simp flip: of_int_abs add: of_int_1_le_iff)
  have fl: "\<lfloor>\<bar>?x\<bar>\<rfloor> = \<bar>n\<bar>" by (simp flip: of_int_abs)
  have bin: "binade ?x = e" using one by (simp only: binade_def fl e_def if_True)
  have bin': "binade \<bar>?x\<bar> = e" using one by (simp only: binade_def fl e_def abs_abs if_True)
  have q: "max (binade ?x - 52) (- 1074) = e - 52" using e by (simp add: bin)
  have p: "pow2 (e - 52) = 1 / 2 ^ nat (52 - e)"
    using e by (cases "e = 52") (simp_all add: pow2_def)
  have m: "\<bar>?x\<bar> / pow2 (e - 52) = of_int (\<bar>n\<bar> * 2 ^ nat (52 - e))"
    by (simp add: p)
  have r: "of_int (round_half_even (\<bar>?x\<bar> / pow2 (e - 52))) * pow2 (e - 52) = \<bar>?x\<bar>"
    by (simp only: m round_half_even_int) (simp add: p)
  have x0: "?x \<noteq> 0" "\<bar>?x\<bar> \<noteq> 0" using False by simp_all
  have "round_binary64 ?x = B64 (sgn ?x * \<bar>?x\<bar>)"
    using x0 e by (simp only: round_binary64_def Let_def q r bin') simp
  then show ?thesis by (simp add: sgn_mult_abs)
qed

text \<open>Equations for evaluation: integers are not rounded, powers of two are shifts.\<close>

lemma round_binary64_code [code]:
  "round_binary64 x =
     (if x = of_int \<lfloor>x\<rfloor> \<and> \<bar>x\<bar> < 9007199254740992 then B64 x
      else (let ulp = pow2 (max (binade x - 52) (- 1074));
                r = of_int (round_half_even (\<bar>x\<bar> / ulp)) * ulp
            in if r = 0 then (if 0 < x then B64 0 else NegZero)
               else if 1024 \<le> binade r then (if 0 < x then PosInf else NegInf)
               else B64 (sgn x * r)))"
proof (cases "x = of_int \<lfloor>x\<rfloor> \<and> \<bar>x\<bar> < 9007199254740992")
  case True
  then have x: "x = of_int \<lfloor>x\<rfloor>" and "\<bar>of_int \<lfloor>x\<rfloor> :: real\<bar> < 9007199254740992"
    by simp_all
  then have "\<bar>\<lfloor>x\<rfloor>\<bar> < 2 ^ 53" by (simp flip: of_int_abs)
  then have "round_binary64 (of_int \<lfloor>x\<rfloor>) = B64 (of_int \<lfloor>x\<rfloor>)" by (rule round_binary64_int)
  with True x show ?thesis by simp
next
  case False
  then have "x \<noteq> 0" by auto
  with False show ?thesis by (simp only: round_binary64_def if_False)
qed

lemma pow2_code [code]:
  "pow2 e = (if 0 \<le> e then of_int (push_bit (nat e) 1) else 1 / of_int (push_bit (nat (- e)) 1))"
  by (simp add: pow2_def push_bit_eq_mult)

subsection \<open>Division by a zero\<close>

lemma b64_mul_zero: "is_zero a \<Longrightarrow> is_zero (b64_mul (B64 6) a)"
  by (cases a) (simp_all add: b64_mul_def signed_zero_def)

lemma b64_div_zero: "is_zero d \<Longrightarrow> \<not> is_finite (to_float64 (b64_div a d))"
  by (cases a; cases d) (simp_all add: b64_div_def signed_inf_def)

subsection \<open>Polygons\<close>

text \<open>
  Five polygons: three collinear points; the unit square; a thin triangle of area \<open>1/2\<close>
  whose float64 area sum is zero; three collinear points whose float64 area sum is
  \<open>- 2\<close>; and a triangle with vertices written in tenths, whose sum is zero too.
\<close>

lemma collinear_centroid: "find_centroid [(0, 0), (1, 1), (2, 2)] = Inr (NaN, NaN)"
  by code_simp

lemma collinear_area:
  "shoelace_area [(0, 0), (1, 1), (2, 2)] = 0" "signed_area [(0, 0), (1, 1), (2, 2)] = B64 0"
  by code_simp+

lemma square_centroid:
  "find_centroid [(0, 0), (1, 0), (1, 1), (0, 1)] = Inr (Fin (1 / 2), Fin (1 / 2))"
  by code_simp

lemma thin_centroid:
  "find_centroid [(94921191, 95087952), (94921192, 95087956), (94921193, 95087961)] =
     Inr (PInf, PInf)"
  by code_simp

lemma thin_area:
  "shoelace_area [(94921191, 95087952), (94921192, 95087956), (94921193, 95087961)] = 1 / 2"
  "signed_area [(94921191, 95087952), (94921192, 95087956), (94921193, 95087961)] = B64 0"
  by code_simp+

lemma long_centroid:
  "find_centroid [(95441755, 83364299), (97059505, 93568196), (98677255, 103772093)] =
     Inr (Fin (7505999378950827 / 134217728), Fin 67108864)"
  by code_simp

lemma long_area:
  "shoelace_area [(95441755, 83364299), (97059505, 93568196), (98677255, 103772093)] = 0"
  "signed_area [(95441755, 83364299), (97059505, 93568196), (98677255, 103772093)] = B64 (- 1)"
  by code_simp+

lemma tenths_centroid:
  "find_centroid [(1 / 10, 2 / 10), (2 / 10, 3 / 10), (3 / 10, 4 / 10)] = Inr (PInf, PInf)"
  by code_simp

text \<open>
  C2, the claim as stated fails: the three collinear vertices \<open>(0,0)\<close>, \<open>(1,1)\<close>, \<open>(2,2)\<close>
  have signed area zero, and \<^verbatim>\<open>find_centroid\<close> returns the pair \<open>(NaN, NaN)\<close> instead of
  reporting a degenerate polygon.
\<close>

theorem find_centroid_collinear_counterexample:
  "shoelace_area [(0, 0), (1, 1), (2, 2)] = 0 \<and>
   find_centroid [(0, 0), (1, 1), (2, 2)] = Inr (NaN, NaN)"
  using collinear_area(1) collinear_centroid by simp

text \<open>
  C2, as amended: \<^verbatim>\<open>find_centroid\<close> has no check of the signed area and reports no
  degenerate polygon. With no vertex the division raises ZeroDivisionError. With at
  least one vertex it raises nothing and returns a pair; whenever the signed area it
  has computed in float64 is a zero, neither coordinate of the pair is finite (each is
  NaN or an infinity). Whether the computed signed area is a zero is a matter of
  rounding and not of geometry alone, as the polygons above show.
\<close>

theorem find_centroid_no_degenerate_check:
  "(p = [] \<longrightarrow> find_centroid p = Inl ZeroDivisionError) \<and>
   (p \<noteq> [] \<longrightarrow>
      (\<exists>a b. find_centroid p = Inr (a, b) \<and>
         (is_zero (signed_area p) \<longrightarrow> \<not> is_finite a \<and> \<not> is_finite b)))"
proof (intro conjI impI)
  assume "p = []"
  then show "find_centroid p = Inl ZeroDivisionError" by (simp add: find_centroid_def)
next
  assume ne: "p \<noteq> []"
  obtain x y s where acc: "centroid_sums p = (x, y, s)" by (cases "centroid_sums p") auto
  let ?d = "b64_mul (B64 6) (signed_area p)"
  have area: "signed_area p = b64_mul s (B64 (1 / 2))" by (simp add: signed_area_def acc)
  have c: "find_centroid p = Inr (to_float64 (b64_div x ?d), to_float64 (b64_div y ?d))"
    using ne by (simp add: find_centroid_def centroid_quotients_def acc area Let_def)
  have "is_zero (signed_area p) \<longrightarrow>
      \<not> is_finite (to_float64 (b64_div x ?d)) \<and> \<not> is_finite (to_float64 (b64_div y ?d))"
    by (simp add: b64_mul_zero b64_div_zero)
  with c show "\<exists>a b. find_centroid p = Inr (a, b) \<and>
         (is_zero (signed_area p) \<longrightarrow> \<not> is_finite a \<and> \<not> is_finite b)"
    by blast
qed

text \<open>
  The theorem at the empty vertex list, at the collinear triple, at the thin triangle
  (area \<open>1/2\<close>, computed area zero, both coordinates infinite) and at the unit square;
  beside it the collinear triple whose computed area is not zero and whose centroid is
  a finite point.
\<close>

theorem find_centroid_no_degenerate_check_witness:
  "find_centroid [] = Inl ZeroDivisionError \<and>
   is_zero (signed_area [(0, 0), (1, 1), (2, 2)]) \<and>
   (\<exists>a b. find_centroid [(0, 0), (1, 1), (2, 2)] = Inr (a, b) \<and> \<not> is_finite a \<and> \<not> is_finite b) \<and>
   shoelace_area [(94921191, 95087952), (94921192, 95087956), (94921193, 95087961)] = 1 / 2 \<and>
   is_zero (signed_area [(94921191, 95087952), (94921192, 95087956), (94921193, 95087961)]) \<and>
   (\<exists>a b. find_centroid [(94921191, 95087952), (94921192, 95087956), (94921193, 95087961)] =
             Inr (a, b) \<and> \<not> is_finite a \<and> \<not> is_finite b) \<and>
   (\<exists>a b. find_centroid [(0, 0), (1, 0), (1, 1), (0, 1)] = Inr (a, b)) \<and>
   shoelace_area [(95441755, 83364299), (97059505, 93568196), (98677255, 103772093)] = 0 \<and>
   find_centroid [(95441755, 83364299), (97059505, 93568196), (98677255, 103772093)] =
     Inr (Fin (7505999378950827 / 134217728), Fin 67108864)"
  using find_centroid_no_degenerate_check [of "[]"]
        find_centroid_no_degenerate_check [of "[(0, 0), (1, 1), (2, 2)]"]
        find_centroid_no_degenerate_check
          [of "[(94921191, 95087952), (94921192, 95087956), (94921193, 95087961)]"]
        find_centroid_no_degenerate_check [of "[(0, 0), (1, 0), (1, 1), (0, 1)]"]
        collinear_area(2) thin_area long_area(1) long_centroid
  by simp blast

section \<open>Precondition checks\<close>

text \<open>
  C8: every stage checks the frames it needs before it does anything else. When one of
  them is None the call raises NotdefinedError naming the first missing frame, and the
  object is left exactly as it was.
\<close>

theorem stages_raise_NotdefinedError:
  "(ais_data self = None \<longrightarrow>
      create_routes m h sl self = Raised (NotdefinedError ''ais_data'') self) \<and>
   (ais_data self \<noteq> None \<and> ports self = None \<longrightarrow>
      create_routes m h sl self = Raised (NotdefinedError ''ports'') self) \<and>
   (polygon_df self = None \<longrightarrow>
      remove_routes_outside_polygon m self = Raised (NotdefinedError ''polygon'') self) \<and>
   (polygon_df self \<noteq> None \<and> routes self = None \<longrightarrow>
      remove_routes_outside_polygon m self = Raised (NotdefinedError ''routes'') self) \<and>
   (routes self = None \<longrightarrow>
      interpolate_routes rs i self = Raised (NotdefinedError ''routes'') self) \<and>
   (routes self = None \<longrightarrow>
      clean_data rs h th i sp self = Raised (NotdefinedError ''routes'') self) \<and>
   (routes self \<noteq> None \<and> interpolated_routes self = None \<longrightarrow>
      clean_data rs h th i sp self = Raised (NotdefinedError ''interpolated_routes'') self) \<and>
   (interpolated_routes self = None \<longrightarrow>
      create_waypoints rs n self = Raised (NotdefinedError ''interpolated_routes'') self) \<and>
   (interpolated_routes self \<noteq> None \<and> routes self = None \<longrightarrow>
      create_waypoints rs n self = Raised (NotdefinedError ''routes'') self) \<and>
   (routes self = None \<longrightarrow> save_routes self = Raised (NotdefinedError ''routes'') self) \<and>
   (interpolated_routes self = None \<longrightarrow>
      save_interpolated self = Raised (NotdefinedError ''interpolated_routes'') self) \<and>
   (waypoints self = None \<longrightarrow>
      save_waypoints self = Raised (NotdefinedError ''waypoints'') self)"
  by (auto simp: create_routes_def remove_routes_outside_polygon_def interpolate_routes_def
        clean_data_def create_waypoints_def save_routes_def save_interpolated_def
        save_waypoints_def private_save_pickle_def)

text \<open>The checks at the freshly constructed object and at objects holding one empty frame.\<close>

theorem stages_raise_NotdefinedError_witness:
  "create_routes no_masks flat_distance 3 init = Raised (NotdefinedError ''ais_data'') init \<and>
   create_routes no_masks flat_distance 3 (init\<lparr>ais_data := Some []\<rparr>) =
     Raised (NotdefinedError ''ports'') (init\<lparr>ais_data := Some []\<rparr>) \<and>
   remove_routes_outside_polygon no_masks init = Raised (NotdefinedError ''polygon'') init \<and>
   remove_routes_outside_polygon no_masks (init\<lparr>polygon_df := Some []\<rparr>) =
     Raised (NotdefinedError ''routes'') (init\<lparr>polygon_df := Some []\<rparr>) \<and>
   interpolate_routes same_grid 600 init = Raised (NotdefinedError ''routes'') init \<and>
   clean_data same_grid flat_distance 10 600 (1 / 2) init = Raised (NotdefinedError ''routes'') init \<and>
   clean_data same_grid flat_distance 10 600 (1 / 2) (init\<lparr>routes := Some []\<rparr>) =
     Raised (NotdefinedError ''interpolated_routes'') (init\<lparr>routes := Some []\<rparr>) \<and>
   create_waypoints same_grid 100 init = Raised (NotdefinedError ''interpolated_routes'') init \<and>
   create_waypoints same_grid 100 (init\<lparr>interpolated_routes := Some []\<rparr>) =
     Raised (NotdefinedError ''routes'') (init\<lparr>interpolated_routes := Some []\<rparr>) \<and>
   save_routes init = Raised (NotdefinedError ''routes'') init \<and>
   save_interpolated init = Raised (NotdefinedError ''interpolated_routes'') init \<and>
   save_waypoints init = Raised (NotdefinedError ''waypoints'') init"
  using stages_raise_NotdefinedError
          [of "init" no_masks flat_distance 3 same_grid 600 10 "1 / 2" 100]
        stages_raise_NotdefinedError
          [of "init\<lparr>ais_data := Some []\<rparr>" no_masks flat_distance 3 same_grid 600 10 "1 / 2" 100]
        stages_raise_NotdefinedError
          [of "init\<lparr>polygon_df := Some []\<rparr>" no_masks flat_distance 3 same_grid 600 10 "1 / 2" 100]
        stages_raise_NotdefinedError
          [of "init\<lparr>routes := Some []\<rparr>" no_masks flat_distance 3 same_grid 600 10 "1 / 2" 100]
        stages_raise_NotdefinedError
          [of "init\<lparr>interpolated_routes := Some []\<rparr>" no_masks flat_distance 3 same_grid 600 10 "1 / 2" 100]
  by (simp add: init_def)

section \<open>clean_data\<close>

lemma set_drop_duplicates: "set (drop_duplicates key xs) \<subseteq> set xs"
  by (induction key xs rule: drop_duplicates.induct) auto

lemma image_drop_duplicates: "key ` set (drop_duplicates key xs) = key ` set xs"
proof (induction key xs rule: drop_duplicates.induct)
  case (1 key)
  then show ?case by simp
next
  case (2 key x xs)
  have "key ` set (x # xs) = insert (key x) (key ` set (filter (\<lambda>y. key y \<noteq> key x) xs))"
    by auto
  with 2 show ?case by simp
qed

lemma set_unique: "set (unique xs) = set xs"
  using image_drop_duplicates [of "\<lambda>x. x" xs] by (simp add: unique_def)

lemma drop_ids_slow_ids:
  "drop_ids (slow_ids speed g) df =
     filter (\<lambda>r. \<not> (\<exists>p\<in>set g. voyage_id p = voyage_id r \<and> fle (sog p) speed)) df"
  unfolding drop_ids_def slow_ids_def set_unique
proof (rule filter_cong)
  fix x
  have "voyage_id x \<in> set (map voyage_id (filter (\<lambda>r. fle (sog r) speed) g)) \<longleftrightarrow>
        (\<exists>p\<in>set g. voyage_id p = voyage_id x \<and> fle (sog p) speed)"
    by (auto simp: image_iff)
  then show "(voyage_id x \<notin> set (map voyage_id (filter (\<lambda>r. fle (sog r) speed) g))) =
        (\<not> (\<exists>p\<in>set g. voyage_id p = voyage_id x \<and> fle (sog p) speed))"
    by simp
qed simp

lemma shift_by_id_length: "length (shift_by_id prev rs) = length rs"
  by (induction rs arbitrary: prev) auto

lemma shift_by_id_nth:
  "k < length rs \<Longrightarrow>
   shift_by_id prev rs ! k = Some q \<longleftrightarrow>
     (\<exists>j<k. rs ! j = q \<and> voyage_id (rs ! j) = voyage_id (rs ! k) \<and>
        (\<forall>i. j < i \<and> i < k \<longrightarrow> voyage_id (rs ! i) \<noteq> voyage_id (rs ! k))) \<or>
     ((\<forall>j<k. voyage_id (rs ! j) \<noteq> voyage_id (rs ! k)) \<and> prev (voyage_id (rs ! k)) = Some q)"
proof (induction rs arbitrary: prev k)
  case Nil
  then show ?case by simp
next
  case (Cons r rs)
  show ?case
  proof (cases k)
    case 0
    then show ?thesis by simp
  next
    case (Suc k')
    with Cons.prems have k': "k' < length rs" by simp
    let ?v = "voyage_id (rs ! k')"
    let ?A = "\<exists>j<k'. rs ! j = q \<and> voyage_id (rs ! j) = ?v \<and>
        (\<forall>i. j < i \<and> i < k' \<longrightarrow> voyage_id (rs ! i) \<noteq> ?v)"
    let ?N = "\<forall>j<k'. voyage_id (rs ! j) \<noteq> ?v"
    have ih: "shift_by_id (prev(voyage_id r := Some r)) rs ! k' = Some q \<longleftrightarrow>
        ?A \<or> (?N \<and> (prev(voyage_id r := Some r)) ?v = Some q)"
      using Cons.IH [OF k'] by simp
    let ?B = "\<exists>j<Suc k'. (r # rs) ! j = q \<and> voyage_id ((r # rs) ! j) = ?v \<and>
        (\<forall>i. j < i \<and> i < Suc k' \<longrightarrow> voyage_id ((r # rs) ! i) \<noteq> ?v)"
    let ?M = "\<forall>j<Suc k'. voyage_id ((r # rs) ! j) \<noteq> ?v"
    have Meq: "?M \<longleftrightarrow> voyage_id r \<noteq> ?v \<and> ?N"
      by (subst All_less_Suc2) simp
    have between: "\<And>j. (\<forall>i. Suc j < i \<and> i < Suc k' \<longrightarrow> voyage_id ((r # rs) ! i) \<noteq> ?v)
        \<longleftrightarrow> (\<forall>i. j < i \<and> i < k' \<longrightarrow> voyage_id (rs ! i) \<noteq> ?v)"
    proof
      fix j
      assume h: "\<forall>i. Suc j < i \<and> i < Suc k' \<longrightarrow> voyage_id ((r # rs) ! i) \<noteq> ?v"
      show "\<forall>i. j < i \<and> i < k' \<longrightarrow> voyage_id (rs ! i) \<noteq> ?v"
      proof (intro allI impI)
        fix i assume "j < i \<and> i < k'"
        then have "Suc j < Suc i \<and> Suc i < Suc k'" by simp
        with h have "voyage_id ((r # rs) ! Suc i) \<noteq> ?v" by blast
        then show "voyage_id (rs ! i) \<noteq> ?v" by simp
      qed
    next
      fix j
      assume h: "\<forall>i. j < i \<and> i < k' \<longrightarrow> voyage_id (rs ! i) \<noteq> ?v"
      show "\<forall>i. Suc j < i \<and> i < Suc k' \<longrightarrow> voyage_id ((r # rs) ! i) \<noteq> ?v"
      proof (intro allI impI)
        fix i assume a: "Suc j < i \<and> i < Suc k'"
        then obtain i' where i': "i = Suc i'" by (cases i) auto
        with a h show "voyage_id ((r # rs) ! i) \<noteq> ?v" by simp
      qed
    qed
    have zero: "(\<forall>i. 0 < i \<and> i < Suc k' \<longrightarrow> voyage_id ((r # rs) ! i) \<noteq> ?v) \<longleftrightarrow> ?N"
    proof
      assume h: "\<forall>i. 0 < i \<and> i < Suc k' \<longrightarrow> voyage_id ((r # rs) ! i) \<noteq> ?v"
      show ?N
      proof (intro allI impI)
        fix j assume "j < k'"
        then have "0 < Suc j \<and> Suc j < Suc k'" by simp
        with h have "voyage_id ((r # rs) ! Suc j) \<noteq> ?v" by blast
        then show "voyage_id (rs ! j) \<noteq> ?v" by simp
      qed
    next
      assume h: ?N
      show "\<forall>i. 0 < i \<and> i < Suc k' \<longrightarrow> voyage_id ((r # rs) ! i) \<noteq> ?v"
      proof (intro allI impI)
        fix i assume a: "0 < i \<and> i < Suc k'"
        then obtain i' where "i = Suc i'" by (cases i) auto
        with a h show "voyage_id ((r # rs) ! i) \<noteq> ?v" by simp
      qed
    qed
    have Beq: "?B \<longleftrightarrow> (r = q \<and> voyage_id r = ?v \<and> ?N) \<or> ?A"
    proof -
      have "?B \<longleftrightarrow> ((r # rs) ! 0 = q \<and> voyage_id ((r # rs) ! 0) = ?v \<and>
                (\<forall>i. 0 < i \<and> i < Suc k' \<longrightarrow> voyage_id ((r # rs) ! i) \<noteq> ?v)) \<or>
             (\<exists>j<k'. (r # rs) ! Suc j = q \<and> voyage_id ((r # rs) ! Suc j) = ?v \<and>
                (\<forall>i. Suc j < i \<and> i < Suc k' \<longrightarrow> voyage_id ((r # rs) ! i) \<noteq> ?v))"
        by (subst Ex_less_Suc2) simp
      then show ?thesis
        unfolding between zero by simp
    qed
    have "shift_by_id prev (r # rs) ! k = shift_by_id (prev(voyage_id r := Some r)) rs ! k'"
      using Suc by simp
    moreover have "(r # rs) ! k = rs ! k'" using Suc by simp
    ultimately show ?thesis
      unfolding Suc using ih Meq Beq
      by (auto simp del: nth_Cons_Suc nth_Cons_0 simp add: )
  qed
qed


lemma ais_inter_day_diff_iff:
  "(r, q) \<in> set (ais_inter_day_diff day) \<longleftrightarrow>
     consecutive day q r \<and> complete r \<and> lat q \<noteq> NaN \<and> long q \<noteq> NaN"
proof -
  let ?sh = "shift_by_id (\<lambda>v. None) day"
  have len: "length ?sh = length day" by (rule shift_by_id_length)
  have "(r, q) \<in> set (ais_inter_day_diff day) \<longleftrightarrow>
        (\<exists>k<length day. day ! k = r \<and> ?sh ! k = Some q \<and>
            complete r \<and> lat q \<noteq> NaN \<and> long q \<noteq> NaN)"
    unfolding ais_inter_day_diff_def
    by (auto simp: set_zip len split: option.splits if_splits)
  also have "\<dots> \<longleftrightarrow> consecutive day q r \<and> complete r \<and> lat q \<noteq> NaN \<and> long q \<noteq> NaN"
  proof -
    have *: "\<And>k. k < length day \<Longrightarrow> day ! k = r \<Longrightarrow>
       (?sh ! k = Some q) =
       (\<exists>j<k. day ! j = q \<and> voyage_id q = voyage_id r \<and>
          (\<forall>i. j < i \<and> i < k \<longrightarrow> voyage_id (day ! i) \<noteq> voyage_id r))"
      using shift_by_id_nth [of _ day "\<lambda>v. None" q] by auto
    show ?thesis
      unfolding consecutive_def using * by blast
  qed
  finally show ?thesis .
qed

lemma stationary_ids_iff:
  "v \<in> set (stationary_ids haversine_vector threshold day) \<longleftrightarrow>
     stationary haversine_vector threshold day v"
proof -
  have "v \<in> set (stationary_ids haversine_vector threshold day) \<longleftrightarrow>
        (\<exists>r q. (r, q) \<in> set (ais_inter_day_diff day) \<and> voyage_id r = v \<and>
           flt (haversine_vector (lat r, long r) (lat q, long q)) threshold)"
    unfolding stationary_ids_def set_unique by (auto simp: image_iff)
  then show ?thesis
    unfolding stationary_def ais_inter_day_diff_iff by blast
qed

lemma drop_ids_stationary_ids:
  "drop_ids (stationary_ids haversine_vector threshold day) df =
     filter (\<lambda>r. \<not> stationary haversine_vector threshold day (voyage_id r)) df"
  unfolding drop_ids_def by (rule filter_cong) (simp_all add: stationary_ids_iff)

lemma example_resampled: "private_interpolate same_grid 86400 example_grid = Inr example_grid"
  by code_simp

lemma example_stationary_ids: "stationary_ids flat_distance 10 example_grid = [2]"
  by code_simp

lemma example_clean_data:
  "clean_data same_grid flat_distance 10 86400 (1 / 2) example_state =
     Returned (example_state\<lparr>routes := Some example_cleaned,
                             interpolated_routes := Some example_cleaned\<rparr>)"
  by code_simp

text \<open>
  What the first pass of \<^verbatim>\<open>clean_data\<close> computes: it removes, from \<^verbatim>\<open>routes\<close> and from
  \<^verbatim>\<open>interpolated_routes\<close> alike, every row of each voyage that has, in the frame resampled
  at the interval, a consecutive pair of grid points closer than the threshold of which
  the later point has no NaN cell and the earlier one has a position. (The second pass
  then runs on what is left.)
\<close>

lemma clean_data_first_pass:
  fixes haversine_vector :: distance and threshold :: real
  defines "moving df \<equiv> filter (\<lambda>r. \<not> stationary haversine_vector threshold df (voyage_id r))"
  assumes "routes self = Some rts"
    and "interpolated_routes self = Some grid"
    and "private_interpolate resample interval_s grid = Inr day"
  shows "clean_data resample haversine_vector threshold interval_s speed self =
     Returned (self\<lparr>routes := Some (drop_ids (slow_ids speed (moving day grid)) (moving day rts)),
                    interpolated_routes :=
                      Some (drop_ids (slow_ids speed (moving day grid)) (moving day grid))\<rparr>)"
  using assms(2-4)
  by (simp add: clean_data_def Let_def drop_ids_stationary_ids moving_def)

text \<open>
  C3, the removal fails on the code: in the example frame the two grid points of voyage
  1 (rows 0 and 1 of the resampled frame, which is the frame itself) lie at distance
  \<open>0 < 10\<close>, as do those of voyage 2. \<^verbatim>\<open>clean_data\<close> removes voyage 2 and keeps voyage 1
  in both frames: the later point of voyage 1 has no course, so \<^verbatim>\<open>dropna()\<close>, meant for
  the first row of each voyage, discards the pair before any distance is computed.
\<close>

theorem clean_data_keeps_stationary_voyage:
  "private_interpolate same_grid 86400 example_grid = Inr example_grid \<and>
   voyage_id (example_grid ! 0) = 1 \<and> voyage_id (example_grid ! 1) = 1 \<and>
   cog (example_grid ! 1) = NaN \<and>
   flt (flat_distance (lat (example_grid ! 1), long (example_grid ! 1))
                      (lat (example_grid ! 0), long (example_grid ! 0))) 10 \<and>
   voyage_id (example_grid ! 2) = 2 \<and> voyage_id (example_grid ! 3) = 2 \<and>
   flt (flat_distance (lat (example_grid ! 3), long (example_grid ! 3))
                      (lat (example_grid ! 2), long (example_grid ! 2))) 10 \<and>
   clean_data same_grid flat_distance 10 86400 (1 / 2) example_state =
     Returned (example_state\<lparr>routes := Some example_cleaned,
                             interpolated_routes := Some example_cleaned\<rparr>) \<and>
   map voyage_id example_cleaned = [1, 1, 4, 4]"
  using example_resampled example_clean_data
  by (simp add: example_grid_def example_cleaned_def grid_point_def flat_distance_def)

text \<open>
  C7: the second pass of \<^verbatim>\<open>clean_data\<close> works on the frames the first pass left. It
  removes, from both, every row of each voyage that has a grid point in
  \<^verbatim>\<open>interpolated_routes\<close> whose speed over ground is at most the threshold, and it keeps
  every row of every other voyage.
\<close>

theorem clean_data_speed_filter:
  fixes haversine_vector :: distance and speed :: real
  defines "fast g \<equiv> filter (\<lambda>r. \<not> (\<exists>p\<in>set g. voyage_id p = voyage_id r \<and> fle (sog p) speed))"
  assumes "routes self = Some rts"
    and "interpolated_routes self = Some grid"
    and "private_interpolate resample interval_s grid = Inr day"
    and "rts1 = drop_ids (stationary_ids haversine_vector threshold day) rts"
    and "grid1 = drop_ids (stationary_ids haversine_vector threshold day) grid"
  shows "clean_data resample haversine_vector threshold interval_s speed self =
     Returned (self\<lparr>routes := Some (fast grid1 rts1),
                    interpolated_routes := Some (fast grid1 grid1)\<rparr>)"
  using assms(2-6)
  by (simp add: clean_data_def Let_def drop_ids_slow_ids fast_def)

lemma example_speed_pass:
  "filter (\<lambda>r. \<not> (\<exists>p\<in>set (drop_ids [2] example_grid).
                     voyage_id p = voyage_id r \<and> fle (sog p) (1 / 2)))
          (drop_ids [2] example_grid) = example_cleaned"
  by code_simp

text \<open>
  On the example frame, where the first pass removes voyage 2: voyage 3 has a grid point
  at 0.3 knots and goes; voyages 1 and 4 stay.
\<close>

theorem clean_data_speed_filter_witness:
  "clean_data same_grid flat_distance 10 86400 (1 / 2) example_state =
     Returned (example_state\<lparr>routes := Some example_cleaned,
                             interpolated_routes := Some example_cleaned\<rparr>)"
proof -
  have r: "routes example_state = Some example_grid"
    and g: "interpolated_routes example_state = Some example_grid"
    by (simp_all add: example_state_def)
  have s: "drop_ids [2] example_grid = drop_ids (stationary_ids flat_distance 10 example_grid) example_grid"
    by (simp add: example_stationary_ids)
  show ?thesis
    using clean_data_speed_filter [OF r g example_resampled s s, of "1 / 2"]
    by (simp only: example_speed_pass)
qed

section \<open>Waypoints\<close>

lemma groupby_keys: "fst ` set (groupby key df) = key ` set df"
  by (auto simp: groupby_def image_iff)

lemma groupby_member:
  "(k, g) \<in> set (groupby key df) \<longleftrightarrow> k \<in> key ` set df \<and> g = filter (\<lambda>x. key x = k) df"
  by (auto simp: groupby_def image_iff)

lemma bucket_width_div:
  "points \<noteq> 1 \<Longrightarrow> bucket_width points d = Some (d div (points - 1))"
proof -
  assume p: "points \<noteq> 1"
  have "\<And>a b :: real. a * 10 ^ 9 / b / 10 ^ 9 = a / b"
    by simp
  then have "real_of_int (d * 10 ^ 9) / real_of_int (points - 1) / 10 ^ 9
        = real_of_int d / real_of_int (points - 1)"
    by (simp only: of_int_mult of_int_power of_int_numeral)
  then have "\<lfloor>real_of_int (d * 10 ^ 9) / real_of_int (points - 1) / 10 ^ 9\<rfloor> = d div (points - 1)"
    by (simp only: floor_divide_of_int_eq)
  with p show ?thesis by (simp add: bucket_width_def)
qed

lemma waypoint_groups_keys:
  "((v, tg), g) \<in> set (waypoint_groups points route) \<Longrightarrow>
     \<exists>r\<in>set route. voyage_id r = v \<and> time_group points route r = Some tg"
proof -
  assume "((v, tg), g) \<in> set (waypoint_groups points route)"
  then have "(v, tg) \<in> fst ` set (waypoint_groups points route)" by force
  then have "(v, tg) \<in> fst ` set (concat (map (\<lambda>r. case time_group points route r of
                                None \<Rightarrow> []
                              | Some tg \<Rightarrow> [((voyage_id r, tg), r)]) route))"
    unfolding waypoint_groups_def
    by (auto simp: image_iff groupby_member split: prod.splits)
  then show ?thesis
    by (auto split: option.splits)
qed

lemma private_waypoints_voyage:
  "w \<in> set (private_waypoints route points) \<Longrightarrow>
     \<exists>r\<in>set route. voyage_id r = voyage_id w \<and> time_group points route r = Some (time w)"
proof -
  assume "w \<in> set (private_waypoints route points)"
  then obtain v tg g where "((v, tg), g) \<in> set (waypoint_groups points route)"
      and "voyage_id w = v" and "time w = tg"
    unfolding private_waypoints_def by (auto simp: with_meta_def split: prod.splits)
  with waypoint_groups_keys show ?thesis by blast
qed

lemma bucket_width_code [code]:
  "bucket_width points d = (if points - 1 = 0 then None else Some (d div (points - 1)))"
  using bucket_width_div [of points d] by (auto simp: bucket_width_def)

lemma tick_simps:
  "voyage_id (tick v t) = v" "time (tick v t) = t" "lat (tick v t) = Fin 55"
  by (simp_all add: tick_def)

text \<open>
  C10: the width \<^verbatim>\<open>f\<close> of a voyage is the floor of its duration in seconds over
  \<^verbatim>\<open>points - 1\<close>, and nothing guards the floor division by \<^verbatim>\<open>f\<close>. So for every voyage
  with rows whose duration is below \<^verbatim>\<open>points - 1\<close> seconds (with at least two points
  asked for), \<^verbatim>\<open>f\<close> is zero, the bucket of every one of its rows is undefined (the division
  by zero yields NaN, read as NaT), and the voyage has no row among the waypoints.
\<close>

theorem waypoints_zero_width:
  assumes "2 \<le> points"
    and "r0 \<in> set route" and "voyage_id r0 = v"
    and "Max (set (voyage_times route v)) - Min (set (voyage_times route v)) < points - 1"
  shows "voyage_f points route v = Some 0 \<and>
         (\<forall>r\<in>set route. voyage_id r = v \<longrightarrow> time_group points route r = None) \<and>
         (\<forall>w\<in>set (private_waypoints route points). voyage_id w \<noteq> v)"
proof -
  let ?T = "set (voyage_times route v)"
  have "time r0 \<in> ?T" using assms(2,3) by (auto simp: voyage_times_def)
  then have ne: "?T \<noteq> {}" by auto
  have "Min ?T \<le> Max ?T" using ne by simp
  then have d0: "0 \<le> Max ?T - Min ?T" by simp
  have "(Max ?T - Min ?T) div (points - 1) = 0"
    using d0 assms(4) by (simp add: div_pos_pos_trivial)
  then have f: "voyage_f points route v = Some 0"
    using assms(1) by (simp add: voyage_f_def bucket_width_div)
  then have tg: "\<forall>r\<in>set route. voyage_id r = v \<longrightarrow> time_group points route r = None"
    by (simp add: time_group_def s_group_def)
  have "\<forall>w\<in>set (private_waypoints route points). voyage_id w \<noteq> v"
  proof
    fix w assume "w \<in> set (private_waypoints route points)"
    then obtain r where "r \<in> set route" "voyage_id r = voyage_id w"
        "time_group points route r = Some (time w)"
      using private_waypoints_voyage by blast
    with tg show "voyage_id w \<noteq> v" by auto
  qed
  with f tg show ?thesis by blast
qed

lemma brief_times: "voyage_times brief_and_long 2 = [0, 10, 20]"
  by code_simp

lemma brief_waypoints: "map voyage_id (private_waypoints brief_and_long 100) = [3, 3]"
  by code_simp

text \<open>
  With 100 points asked for, the voyage of 20 seconds has width zero, its grid point at
  10 seconds has no bucket, and only the voyage of 990 seconds yields waypoints.
\<close>

theorem waypoints_zero_width_witness:
  "voyage_f 100 brief_and_long 2 = Some 0 \<and>
   time_group 100 brief_and_long (tick 2 10) = None \<and>
   map voyage_id (private_waypoints brief_and_long 100) = [3, 3]"
proof -
  have m: "tick 2 0 \<in> set brief_and_long" "tick 2 10 \<in> set brief_and_long"
    by (simp_all add: brief_and_long_def)
  have d: "Max (set (voyage_times brief_and_long 2)) - Min (set (voyage_times brief_and_long 2))
             < 100 - 1"
    by (simp add: brief_times)
  have "voyage_f 100 brief_and_long 2 = Some 0 \<and>
        (\<forall>r\<in>set brief_and_long. voyage_id r = 2 \<longrightarrow> time_group 100 brief_and_long r = None)"
    using waypoints_zero_width [OF _ m(1) _ d] by (simp add: tick_simps)
  with m(2) show ?thesis
    by (auto simp: tick_simps brief_waypoints)
qed

text \<open>
  C6, the bound fails on the code: with 3 points asked for, the voyage of six grid points
  at seconds 1 to 6 after midnight has width \<open>\<lfloor>5 / 2\<rfloor> = 2\<close>, its buckets start at the day
  boundary, and it yields the four waypoints at seconds 0, 2, 4 and 6.
\<close>

theorem private_waypoints_exceeds_amount:
  "map voyage_id (private_waypoints six_seconds 3) = [1, 1, 1, 1] \<and>
   map time (private_waypoints six_seconds 3) = [0, 2, 4, 6]"
  by code_simp

section \<open>create_waypoints\<close>








lemma ne_empty_member: "x \<in> A \<Longrightarrow> A \<noteq> {}"
  by blast

















section \<open>create_routes: the frames\<close>

subsection \<open>drop_duplicates\<close>

lemma drop_duplicates_distinct: "distinct (map key (drop_duplicates key xs))"
proof (induction key xs rule: drop_duplicates.induct)
  case (1 key)
  then show ?case by simp
next
  case (2 key x xs)
  have "key x \<notin> key ` set (drop_duplicates key (filter (\<lambda>y. key y \<noteq> key x) xs))"
    unfolding image_drop_duplicates by auto
  with 2 show ?case by simp
qed

lemma drop_duplicates_find:
  "find (\<lambda>y. key y = k) (drop_duplicates key xs) = find (\<lambda>y. key y = k) xs"
proof (induction key xs rule: drop_duplicates.induct)
  case (1 key)
  then show ?case by simp
next
  case (2 key x xs)
  show ?case
  proof (cases "key x = k")
    case True
    then show ?thesis by simp
  next
    case False
    have "find (\<lambda>y. key y = k) (filter (\<lambda>y. key y \<noteq> key x) xs) = find (\<lambda>y. key y = k) xs"
      using False by (induction xs) auto
    with 2 False show ?thesis by simp
  qed
qed

subsection \<open>cumsum\<close>

lemma length_cumsum [simp]: "length (cumsum bs) = length bs"
  by (simp add: cumsum_def)

lemma cumsum_nth: "j < length bs \<Longrightarrow> cumsum bs ! j = length (filter (\<lambda>b. b) (take (Suc j) bs))"
  by (simp add: cumsum_def)

lemma cumsum_Suc:
  "Suc j < length bs \<Longrightarrow> cumsum bs ! Suc j = cumsum bs ! j + (if bs ! Suc j then 1 else 0)"
  by (simp add: cumsum_nth take_Suc_conv_app_nth [of "Suc j"])

lemma cumsum_mono: "i \<le> j \<Longrightarrow> j < length bs \<Longrightarrow> cumsum bs ! i \<le> cumsum bs ! j"
proof (induction j)
  case 0
  then show ?case by simp
next
  case (Suc j)
  show ?case
  proof (cases "i = Suc j")
    case True
    then show ?thesis by simp
  next
    case False
    with Suc.prems have "i \<le> j" "j < length bs" by simp_all
    then have "cumsum bs ! i \<le> cumsum bs ! j" by (rule Suc.IH)
    also have "\<dots> \<le> cumsum bs ! Suc j" using Suc.prems by (simp add: cumsum_Suc)
    finally show ?thesis .
  qed
qed

lemma length_neq_shift_plus1 [simp]: "length (neq_shift_plus1 xs) = length xs"
  by (cases xs) simp_all

lemma length_neq_shift [simp]: "length (neq_shift xs) = length xs"
  by (cases xs) simp_all

lemma neq_shift_plus1_Suc:
  "Suc j < length xs \<Longrightarrow> neq_shift_plus1 xs ! Suc j = (xs ! Suc j \<noteq> xs ! j + 1)"
  by (cases xs) (simp_all add: nth_Cons')

subsection \<open>group codes\<close>

lemma rank_card: "rank keys k = card {k' \<in> set keys. k' < k}"
proof -
  have "rank keys k = card (set (filter (\<lambda>k'. k' < k) (remdups keys)))"
    unfolding rank_def by (rule distinct_card [symmetric]) simp
  also have "set (filter (\<lambda>k'. k' < k) (remdups keys)) = {k' \<in> set keys. k' < k}" by auto
  finally show ?thesis .
qed

lemma rank_mono: "k1 \<le> k2 \<Longrightarrow> rank keys k1 \<le> rank keys k2"
  unfolding rank_card by (rule card_mono) auto

lemma rank_less: "k1 < k2 \<Longrightarrow> k1 \<in> set keys \<Longrightarrow> rank keys k1 < rank keys k2"
  unfolding rank_card by (rule psubset_card_mono) auto

lemma rank_inj:
  assumes "k1 \<in> set keys" "k2 \<in> set keys" "rank keys k1 = rank keys k2"
  shows "k1 = k2"
proof (rule ccontr)
  assume "k1 \<noteq> k2"
  then consider "k1 < k2" | "k2 < k1" by (meson linorder_neqE)
  then show False
    using assms rank_less [of k1 k2 keys] rank_less [of k2 k1 keys] by cases auto
qed

lemma length_group_codes [simp]: "length (group_codes keys) = length keys"
  by (simp add: group_codes_def)

lemma group_codes_nth: "j < length keys \<Longrightarrow> group_codes keys ! j = rank keys (keys ! j)"
  by (simp add: group_codes_def rank_def)

subsection \<open>groupby\<close>

lemma groupby_nonempty: "(k, g) \<in> set (groupby key df) \<Longrightarrow> g \<noteq> []"
  by (auto simp: groupby_member filter_empty_conv)

lemma groupby_distinct_keys: "distinct (map fst (groupby key df))"
  by (simp add: groupby_def comp_def)

lemma length_route_keys [simp]: "length (route_keys R) = length R"
  by (simp add: route_keys_def)

lemma route_keys_nth:
  "j < length R \<Longrightarrow>
     route_keys R ! j =
       (mmsi (ping_of (R ! j)), cumsum (neq_shift_plus1 (map index_col R)) ! j)"
  by (simp add: route_keys_def)

lemma length_with_ids [simp]: "length (with_ids R) = length R"
  by (simp add: with_ids_def)

lemma with_ids_nth:
  assumes "j < length R"
  shows "index_col (with_ids R ! j) = index_col (R ! j)"
    and "ping_of (with_ids R ! j) = ping_of (R ! j)"
    and "route_id (with_ids R ! j) = rank (route_keys R) (route_keys R ! j)"
  using assms by (simp_all add: with_ids_def group_codes_nth)

lemma route_id_eq_iff:
  assumes "i < length R" "j < length R"
  shows "route_id (with_ids R ! i) = route_id (with_ids R ! j) \<longleftrightarrow>
         route_keys R ! i = route_keys R ! j"
proof
  assume "route_id (with_ids R ! i) = route_id (with_ids R ! j)"
  then have "rank (route_keys R) (route_keys R ! i) = rank (route_keys R) (route_keys R ! j)"
    using assms by (simp add: with_ids_nth)
  moreover have "route_keys R ! i \<in> set (route_keys R)" "route_keys R ! j \<in> set (route_keys R)"
    using assms by simp_all
  ultimately show "route_keys R ! i = route_keys R ! j" by (rule rank_inj [rotated 2])
next
  assume "route_keys R ! i = route_keys R ! j"
  then show "route_id (with_ids R ! i) = route_id (with_ids R ! j)"
    using assms by (simp add: with_ids_nth)
qed

lemma route_id_same_ship:
  assumes "i < length R" "j < length R"
    and "route_id (with_ids R ! i) = route_id (with_ids R ! j)"
  shows "mmsi (ping_of (R ! i)) = mmsi (ping_of (R ! j))"
  using assms route_id_eq_iff [OF assms(1,2)] by (simp add: route_keys_nth)

lemma route_id_adjacent:
  assumes "Suc j < length R"
    and "index_col (R ! Suc j) = index_col (R ! j) + 1"
    and "mmsi (ping_of (R ! Suc j)) = mmsi (ping_of (R ! j))"
  shows "route_id (with_ids R ! Suc j) = route_id (with_ids R ! j)"
proof -
  have j: "j < length R" using assms(1) by simp
  have "\<not> neq_shift_plus1 (map index_col R) ! Suc j"
    using assms(1,2) by (simp add: neq_shift_plus1_Suc)
  then have "cumsum (neq_shift_plus1 (map index_col R)) ! Suc j =
             cumsum (neq_shift_plus1 (map index_col R)) ! j"
    using assms(1) by (simp add: cumsum_Suc)
  then have "route_keys R ! Suc j = route_keys R ! j"
    using assms(1,3) j by (simp add: route_keys_nth)
  then show ?thesis using route_id_eq_iff [OF assms(1) j] by simp
qed

lemma route_id_mono_ship:
  assumes "i \<le> j" "j < length R"
    and "mmsi (ping_of (R ! i)) = mmsi (ping_of (R ! j))"
  shows "route_id (with_ids R ! i) \<le> route_id (with_ids R ! j)"
proof -
  have i: "i < length R" using assms(1,2) by simp
  have "cumsum (neq_shift_plus1 (map index_col R)) ! i \<le>
        cumsum (neq_shift_plus1 (map index_col R)) ! j"
    using assms(1,2) by (simp add: cumsum_mono)
  then have "route_keys R ! i \<le> route_keys R ! j"
    using assms i by (simp add: route_keys_nth)
  then show ?thesis using assms(2) i by (simp add: with_ids_nth rank_mono)
qed

lemma increasing_filter: "increasing df \<Longrightarrow> increasing (filter P df)"
  by (simp add: increasing_def sorted_wrt_filter)

lemma increasing_nth:
  "increasing df \<Longrightarrow> i < j \<Longrightarrow> j < length df \<Longrightarrow> index_col (df ! i) < index_col (df ! j)"
  by (simp add: increasing_def sorted_wrt_iff_nth_less)

lemma increasing_hd:
  assumes "increasing df" "x \<in> set df"
  shows "index_col (hd df) \<le> index_col x"
proof (cases df)
  case Nil
  with assms show ?thesis by simp
next
  case (Cons a as)
  with assms show ?thesis by (auto simp: increasing_def)
qed

lemma increasing_last:
  assumes "increasing df" "x \<in> set df"
  shows "index_col x \<le> index_col (last df)"
proof (cases df rule: rev_cases)
  case Nil
  with assms show ?thesis by simp
next
  case (snoc as a)
  with assms show ?thesis by (auto simp: increasing_def sorted_wrt_append)
qed

lemma increasing_inj:
  assumes "increasing df" "x \<in> set df" "y \<in> set df" "index_col x = index_col y"
  shows "x = y"
proof -
  obtain i j where ij: "i < length df" "df ! i = x" "j < length df" "df ! j = y"
    using assms(2,3) by (auto simp: in_set_conv_nth)
  have "i = j"
  proof (rule ccontr)
    assume "i \<noteq> j"
    then consider "i < j" | "j < i" by (meson linorder_neqE)
    then show False
      using increasing_nth [OF assms(1), of i j] increasing_nth [OF assms(1), of j i] ij assms(4)
      by cases auto
  qed
  with ij show ?thesis by simp
qed

lemma increasing_with_ids:
  assumes "increasing R"
  shows "increasing (with_ids R)"
  unfolding increasing_def sorted_wrt_iff_nth_less
  using assms by (auto simp: with_ids_nth increasing_nth)

text \<open>In an increasing frame, the row before index \<open>f\<close> is the row at the position before.\<close>

lemma increasing_pred:
  assumes "increasing df" "j < length df" "i < length df"
    and "index_col (df ! j) = Suc (index_col (df ! i))"
  shows "j = Suc i"
proof -
  have "i < j"
  proof (rule ccontr)
    assume "\<not> i < j"
    then have "j \<le> i" by simp
    then consider "j = i" | "j < i" by (meson le_neq_implies_less)
    then show False
      using increasing_nth [OF assms(1), of j i] assms by cases auto
  qed
  have "\<not> Suc i < j"
  proof
    assume s: "Suc i < j"
    have "index_col (df ! i) < index_col (df ! Suc i)"
      using increasing_nth [OF assms(1), of i "Suc i"] s assms(2) by simp
    moreover have "index_col (df ! Suc i) < index_col (df ! j)"
      using increasing_nth [OF assms(1), of "Suc i" j] s assms(2) by simp
    ultimately show False using assms(4) by simp
  qed
  with \<open>i < j\<close> show ?thesis by simp
qed

lemma with_ids_row:
  assumes "x \<in> set (with_ids R)"
  obtains j where "j < length R" "with_ids R ! j = x"
    "index_col x = index_col (R ! j)" "ping_of x = ping_of (R ! j)"
proof -
  from assms obtain j where "j < length (with_ids R)" "with_ids R ! j = x"
    by (auto simp: in_set_conv_nth)
  then show ?thesis
    using that [of j] with_ids_nth [of j R] by auto
qed

lemma enough_points_iff:
  "x \<in> set (enough_points W) \<longleftrightarrow> x \<in> set W \<and> 10 \<le> point_count W (route_id x)"
  by (simp add: enough_points_def)

lemma route_port_frame_iff:
  "x \<in> set (route_port_frame W) \<longleftrightarrow>
     x \<in> set (enough_points W) \<and> route_id x \<notin> set (remove_idx (enough_points W))"
  by (simp add: route_port_frame_def Let_def)

lemma remove_idx_first_last:
  assumes "x \<in> set RP0"
  shows "route_id (hd (filter (\<lambda>r. mmsi (ping_of r) = mmsi (ping_of x)) RP0)) \<in> set (remove_idx RP0)"
    and "route_id (last (filter (\<lambda>r. mmsi (ping_of r) = mmsi (ping_of x)) RP0)) \<in> set (remove_idx RP0)"
proof -
  let ?g = "filter (\<lambda>r. mmsi (ping_of r) = mmsi (ping_of x)) RP0"
  have "(mmsi (ping_of x), ?g) \<in> set (groupby (\<lambda>r. mmsi (ping_of r)) RP0)"
    using assms by (auto simp: groupby_member)
  then show "route_id (hd ?g) \<in> set (remove_idx RP0)" "route_id (last ?g) \<in> set (remove_idx RP0)"
    unfolding remove_idx_def by force+
qed

lemma from_to_frame_iff:
  "(v, f, l) \<in> set (from_to_frame RP) \<longleftrightarrow>
     v \<in> route_id ` set RP \<and>
     f = index_col (hd (filter (\<lambda>r. route_id r = v) RP)) \<and>
     l = index_col (last (filter (\<lambda>r. route_id r = v) RP))"
proof -
  have "(v, f, l) \<in> set (from_to_frame RP) \<longleftrightarrow>
        (\<exists>g. (v, g) \<in> set (groupby route_id RP) \<and> f = index_col (hd g) \<and> l = index_col (last g))"
    unfolding from_to_frame_def by (auto simp: image_iff split: prod.splits)
  then show ?thesis by (auto simp: groupby_member)
qed

lemma increasing_enough_points: "increasing W \<Longrightarrow> increasing (enough_points W)"
  unfolding enough_points_def by (rule increasing_filter)

lemma increasing_route_port_frame: "increasing W \<Longrightarrow> increasing (route_port_frame W)"
  unfolding route_port_frame_def Let_def
  by (rule increasing_filter) (rule increasing_enough_points)

lemma voyage_bounded_before:
  assumes ss: "ship_sorted n mm R"
    and ft: "(v, f, l) \<in> set (from_to_frame (route_port_frame (with_ids R)))"
  shows "0 < f \<and> f < n \<and> f - 1 \<notin> index_col ` set R \<and> mm (f - 1) = mm f"
proof -
  let ?W = "with_ids R"
  let ?E = "enough_points ?W"
  let ?RP = "route_port_frame ?W"
  let ?g = "filter (\<lambda>r. route_id r = v) ?RP"
  have inc: "increasing R" and bound: "\<And>r. r \<in> set R \<Longrightarrow> index_col r < n"
    and ship: "\<And>r. r \<in> set R \<Longrightarrow> mmsi (ping_of r) = mm (index_col r)"
    and mono: "\<And>i j. i \<le> j \<Longrightarrow> j < n \<Longrightarrow> mm i \<le> mm j"
    using ss by (auto simp: ship_sorted_def)
  have incW: "increasing ?W" using inc by (rule increasing_with_ids)
  have incRP0: "increasing ?E" using incW by (rule increasing_enough_points)
  have incRP: "increasing ?RP" using incW by (rule increasing_route_port_frame)
  have incg: "increasing ?g" using incRP by (rule increasing_filter)
  from ft have vin: "v \<in> route_id ` set ?RP" and f: "f = index_col (hd ?g)"
    by (simp_all add: from_to_frame_iff)
  from vin have gne: "?g \<noteq> []" by (auto simp: filter_empty_conv)
  define x where "x = hd ?g"
  have xg: "x \<in> set ?g" unfolding x_def using gne by (rule hd_in_set)
  then have xRP: "x \<in> set ?RP" and xv: "route_id x = v" by simp_all
  then have xRP0: "x \<in> set ?E" and vkeep: "v \<notin> set (remove_idx ?E)"
    by (simp_all add: route_port_frame_iff)
  then have xW: "x \<in> set ?W" and xcount: "10 \<le> point_count ?W v"
    using xv by (simp_all add: enough_points_iff)
  let ?S = "mmsi (ping_of x)"
  let ?gS = "filter (\<lambda>r. mmsi (ping_of r) = ?S) ?E"
  define a where "a = hd ?gS"
  have xgS: "x \<in> set ?gS" using xRP0 by simp
  have gSne: "?gS \<noteq> []" using xRP0 by (auto simp: filter_empty_conv)
  have agS: "a \<in> set ?gS" unfolding a_def using gSne by (rule hd_in_set)
  then have aRP0: "a \<in> set ?E" and aS: "mmsi (ping_of a) = ?S" by simp_all
  then have aW: "a \<in> set ?W" by (simp add: enough_points_iff)
  have "route_id a \<in> set (remove_idx ?E)"
    unfolding a_def using remove_idx_first_last(1) [OF xRP0] .
  with vkeep xv have ax: "route_id a \<noteq> route_id x" by auto
  have "index_col a \<le> index_col x"
    unfolding a_def using increasing_filter [OF incRP0] xgS by (rule increasing_hd)
  moreover have "index_col a \<noteq> index_col x"
    using increasing_inj [OF incW aW xW] ax by auto
  ultimately have alt: "index_col a < f" unfolding f x_def [symmetric] by simp
  then have fpos: "0 < f" by simp
  obtain j where j: "j < length R" "?W ! j = x" "index_col x = index_col (R ! j)"
      "ping_of x = ping_of (R ! j)"
    using xW by (rule with_ids_row)
  obtain ja where ja: "ja < length R" "?W ! ja = a" "index_col a = index_col (R ! ja)"
      "ping_of a = ping_of (R ! ja)"
    using aW by (rule with_ids_row)
  have fx: "f = index_col x" by (simp add: f x_def)
  have fn: "f < n" using bound [of "R ! j"] j fx by simp
  have mmf: "mm f = ?S" using ship [of "R ! j"] j fx by simp
  have mma: "mm (index_col a) = ?S" using ship [of "R ! ja"] ja aS by simp
  have "mm (index_col a) \<le> mm (f - 1)" using alt fn by (intro mono) simp_all
  moreover have "mm (f - 1) \<le> mm f" using fn by (intro mono) simp_all
  ultimately have mmp: "mm (f - 1) = mm f" using mma mmf by simp
  have "f - 1 \<notin> index_col ` set R"
  proof
    assume "f - 1 \<in> index_col ` set R"
    then obtain i where i: "i < length R" "index_col (R ! i) = f - 1"
      by (auto simp: in_set_conv_nth)
    have "index_col (R ! j) = Suc (index_col (R ! i))" using i j fx fpos by simp
    with inc j(1) i(1) have ji: "j = Suc i" by (rule increasing_pred)
    have "mmsi (ping_of (R ! i)) = mm (f - 1)" using ship [of "R ! i"] i by simp
    then have "mmsi (ping_of (R ! Suc i)) = mmsi (ping_of (R ! i))"
      using mmp mmf j ji by simp
    moreover have "index_col (R ! Suc i) = index_col (R ! i) + 1" using i j fx fpos ji by simp
    ultimately have "route_id (?W ! Suc i) = route_id (?W ! i)"
      using j(1) ji by (intro route_id_adjacent) simp_all
    then have yv: "route_id (?W ! i) = v" using j ji xv by simp
    have yW: "?W ! i \<in> set ?W" using i by simp
    with yv xcount have "?W ! i \<in> set ?E" by (simp add: enough_points_iff)
    with yv vkeep have "?W ! i \<in> set ?RP" by (simp add: route_port_frame_iff)
    with yv have "?W ! i \<in> set ?g" by simp
    with incg have "index_col (hd ?g) \<le> index_col (?W ! i)" by (rule increasing_hd)
    then show False using i f fpos by (simp add: with_ids_nth)
  qed
  with fpos fn mmp show ?thesis by simp
qed

lemma voyage_bounded_after:
  assumes ss: "ship_sorted n mm R"
    and ft: "(v, f, l) \<in> set (from_to_frame (route_port_frame (with_ids R)))"
  shows "l + 1 < n \<and> l + 1 \<notin> index_col ` set R \<and> mm (l + 1) = mm l"
proof -
  let ?W = "with_ids R"
  let ?E = "enough_points ?W"
  let ?RP = "route_port_frame ?W"
  let ?g = "filter (\<lambda>r. route_id r = v) ?RP"
  have inc: "increasing R" and bound: "\<And>r. r \<in> set R \<Longrightarrow> index_col r < n"
    and ship: "\<And>r. r \<in> set R \<Longrightarrow> mmsi (ping_of r) = mm (index_col r)"
    and mono: "\<And>i j. i \<le> j \<Longrightarrow> j < n \<Longrightarrow> mm i \<le> mm j"
    using ss by (auto simp: ship_sorted_def)
  have incW: "increasing ?W" using inc by (rule increasing_with_ids)
  have incRP0: "increasing ?E" using incW by (rule increasing_enough_points)
  have incRP: "increasing ?RP" using incW by (rule increasing_route_port_frame)
  have incg: "increasing ?g" using incRP by (rule increasing_filter)
  from ft have vin: "v \<in> route_id ` set ?RP" and l: "l = index_col (last ?g)"
    by (simp_all add: from_to_frame_iff)
  from vin have gne: "?g \<noteq> []" by (auto simp: filter_empty_conv)
  define x where "x = last ?g"
  have xg: "x \<in> set ?g" unfolding x_def using gne by (rule last_in_set)
  then have xRP: "x \<in> set ?RP" and xv: "route_id x = v" by simp_all
  then have xRP0: "x \<in> set ?E" and vkeep: "v \<notin> set (remove_idx ?E)"
    by (simp_all add: route_port_frame_iff)
  then have xW: "x \<in> set ?W" and xcount: "10 \<le> point_count ?W v"
    using xv by (simp_all add: enough_points_iff)
  let ?S = "mmsi (ping_of x)"
  let ?gS = "filter (\<lambda>r. mmsi (ping_of r) = ?S) ?E"
  define a where "a = last ?gS"
  have xgS: "x \<in> set ?gS" using xRP0 by simp
  have gSne: "?gS \<noteq> []" using xRP0 by (auto simp: filter_empty_conv)
  have agS: "a \<in> set ?gS" unfolding a_def using gSne by (rule last_in_set)
  then have aRP0: "a \<in> set ?E" and aS: "mmsi (ping_of a) = ?S" by simp_all
  then have aW: "a \<in> set ?W" by (simp add: enough_points_iff)
  have "route_id a \<in> set (remove_idx ?E)"
    unfolding a_def using remove_idx_first_last(2) [OF xRP0] .
  with vkeep xv have ax: "route_id a \<noteq> route_id x" by auto
  have "index_col x \<le> index_col a"
    unfolding a_def using increasing_filter [OF incRP0] xgS by (rule increasing_last)
  moreover have "index_col a \<noteq> index_col x"
    using increasing_inj [OF incW aW xW] ax by auto
  ultimately have alt: "l < index_col a" unfolding l x_def [symmetric] by simp
  obtain j where j: "j < length R" "?W ! j = x" "index_col x = index_col (R ! j)"
      "ping_of x = ping_of (R ! j)"
    using xW by (rule with_ids_row)
  obtain ja where ja: "ja < length R" "?W ! ja = a" "index_col a = index_col (R ! ja)"
      "ping_of a = ping_of (R ! ja)"
    using aW by (rule with_ids_row)
  have lx: "l = index_col x" by (simp add: l x_def)
  have an: "index_col a < n" using bound [of "R ! ja"] ja by simp
  with alt have ln: "l + 1 < n" by simp
  have mml: "mm l = ?S" using ship [of "R ! j"] j lx by simp
  have mma: "mm (index_col a) = ?S" using ship [of "R ! ja"] ja aS by simp
  have "mm l \<le> mm (l + 1)" using ln by (intro mono) simp_all
  moreover have "mm (l + 1) \<le> mm (index_col a)" using alt an by (intro mono) simp_all
  ultimately have mmp: "mm (l + 1) = mm l" using mma mml by simp
  have "l + 1 \<notin> index_col ` set R"
  proof
    assume "l + 1 \<in> index_col ` set R"
    then obtain i where i: "i < length R" "index_col (R ! i) = l + 1"
      by (auto simp: in_set_conv_nth)
    have "index_col (R ! i) = Suc (index_col (R ! j))" using i j lx by simp
    with inc i(1) j(1) have ij: "i = Suc j" by (rule increasing_pred)
    have "mmsi (ping_of (R ! i)) = mm (l + 1)" using ship [of "R ! i"] i by simp
    then have "mmsi (ping_of (R ! Suc j)) = mmsi (ping_of (R ! j))"
      using mmp mml j ij by simp
    moreover have "index_col (R ! Suc j) = index_col (R ! j) + 1" using i j lx ij by simp
    ultimately have "route_id (?W ! Suc j) = route_id (?W ! j)"
      using i(1) ij by (intro route_id_adjacent) simp_all
    then have yv: "route_id (?W ! i) = v" using j ij xv by simp
    have yW: "?W ! i \<in> set ?W" using i by simp
    with yv xcount have "?W ! i \<in> set ?E" by (simp add: enough_points_iff)
    with yv vkeep have "?W ! i \<in> set ?RP" by (simp add: route_port_frame_iff)
    with yv have "?W ! i \<in> set ?g" by simp
    with incg have "index_col (?W ! i) \<le> index_col (last ?g)" by (rule increasing_last)
    then show False using i l by (simp add: with_ids_nth)
  qed
  with ln mmp show ?thesis by simp
qed

subsection \<open>in_port\<close>

lemma locode_in_polygon_filter:
  assumes "distinct (map fst em)"
  shows "filter (\<lambda>(idx, prt). idx = Some i)
           (concat (map (\<lambda>(idx, pj). if pj < length prts then [(idx, prts ! pj)] else []) em)) =
         (case assigned_port prts em i of None \<Rightarrow> [] | Some prt \<Rightarrow> [(Some i, prt)])"
  using assms
proof (induction em)
  case Nil
  then show ?case by (simp add: assigned_port_def)
next
  case (Cons e es)
  obtain idx pj where e: "e = (idx, pj)" by (cases e)
  show ?case
  proof (cases "idx = Some i")
    case True
    with Cons.prems e have "Some i \<notin> fst ` set es" by auto
    then have "filter (\<lambda>(idx, prt). idx = Some i)
           (concat (map (\<lambda>(idx, pj). if pj < length prts then [(idx, prts ! pj)] else []) es)) = []"
      by (auto simp: filter_empty_conv split: if_splits) force
    with True e show ?thesis by (simp add: assigned_port_def)
  next
    case False
    with Cons e show ?thesis by (simp add: assigned_port_def)
  qed
qed

lemma concat_le_length:
  "(\<forall>x\<in>set xs. length (G x) \<le> 1) \<Longrightarrow> length (concat (map G xs)) \<le> length xs"
proof (induction xs)
  case Nil
  then show ?case by simp
next
  case (Cons x xs)
  then have "length (G x) \<le> 1" "length (concat (map G xs)) \<le> length xs" by simp_all
  then show ?case by simp
qed

lemma concat_singletons:
  assumes "\<forall>x\<in>set xs. length (G x) \<le> 1" "length (concat (map G xs)) = length xs"
  shows "\<forall>x\<in>set xs. length (G x) = 1"
  using assms
proof (induction xs)
  case Nil
  then show ?case by simp
next
  case (Cons x xs)
  have a: "length (G x) \<le> 1" and b: "\<forall>x\<in>set xs. length (G x) \<le> 1" using Cons.prems(1) by simp_all
  have c: "length (concat (map G xs)) \<le> length xs" using b by (rule concat_le_length)
  have d: "length (G x) + length (concat (map G xs)) = Suc (length xs)" using Cons.prems(2) by simp
  from a c d have "length (G x) = 1" "length (concat (map G xs)) = length xs" by simp_all
  with Cons.IH b show ?case by simp
qed

lemma zip_map_self: "zip xs (map g xs) = map (\<lambda>x. (x, g x)) xs"
  by (induction xs) simp_all

lemma in_port_frame_rows:
  assumes "in_port_frame ships prts (exploded_masks_of masks) = Inr in_port"
  shows "in_port =
           map (\<lambda>i. \<lparr>index_col = i, ping_of = ships ! i, label = i,
                      port_of = the (assigned_port prts (exploded_masks_of masks) i)\<rparr>)
               (filter (constraint (exploded_masks_of masks)) [0..<length ships])"
    and "\<forall>i\<in>set (filter (constraint (exploded_masks_of masks)) [0..<length ships]).
           assigned_port prts (exploded_masks_of masks) i \<noteq> None"
proof -
  let ?em = "exploded_masks_of masks"
  let ?left = "filter (constraint ?em) [0..<length ships]"
  let ?lip = "concat (map (\<lambda>(idx, pj). if pj < length prts then [(idx, prts ! pj)] else []) ?em)"
  let ?G = "\<lambda>i. map (\<lambda>(idx, prt). (i, prt)) (filter (\<lambda>(idx, prt). idx = Some i) ?lip)"
  let ?merged = "concat (map ?G ?left)"
  have d: "distinct (map fst ?em)" unfolding exploded_masks_of_def by (rule drop_duplicates_distinct)
  have G: "\<And>i. ?G i = (case assigned_port prts ?em i of None \<Rightarrow> [] | Some prt \<Rightarrow> [(i, prt)])"
    by (simp add: locode_in_polygon_filter [OF d] split: option.splits)
  from assms have len: "length ?merged = length ?left"
    and ip: "in_port = map (\<lambda>(lab, (i, prt)).
                          \<lparr>index_col = i, ping_of = ships ! i, label = lab, port_of = prt\<rparr>)
                       (zip ?left ?merged)"
    by (auto simp: in_port_frame_def Let_def split: if_splits)
  have le1: "\<forall>i\<in>set ?left. length (?G i) \<le> 1" by (simp add: G split: option.splits)
  have one: "\<forall>i\<in>set ?left. length (?G i) = 1" using le1 len by (rule concat_singletons)
  show some: "\<forall>i\<in>set ?left. assigned_port prts ?em i \<noteq> None"
  proof
    fix i assume "i \<in> set ?left"
    with one have "length (?G i) = 1" by blast
    then show "assigned_port prts ?em i \<noteq> None" by (auto simp: G split: option.splits)
  qed
  have "?merged = map (\<lambda>i. (i, the (assigned_port prts ?em i))) ?left"
  proof -
    have "map ?G ?left = map (\<lambda>i. [(i, the (assigned_port prts ?em i))]) ?left"
      using some by (intro map_cong) (auto simp: G)
    then have "?merged = concat (map (\<lambda>i. [(i, the (assigned_port prts ?em i))]) ?left)"
      by (rule arg_cong)
    also have "\<dots> = map (\<lambda>i. (i, the (assigned_port prts ?em i))) ?left"
      by (rule concat_map_singleton)
    finally show ?thesis .
  qed
  then show "in_port =
           map (\<lambda>i. \<lparr>index_col = i, ping_of = ships ! i, label = i,
                      port_of = the (assigned_port prts ?em i)\<rparr>) ?left"
    using ip by (simp add: zip_map_self comp_def)
qed

lemma in_port_frame_error: "in_port_frame ships prts em = Inl e \<Longrightarrow> e = ValueError"
  by (auto simp: in_port_frame_def Let_def split: if_splits)

subsection \<open>Dwell segments\<close>

lemma length_dwell_keys [simp]: "length (dwell_keys in_port) = length in_port"
  by (simp add: dwell_keys_def)

lemma times_frame_cover:
  assumes "r \<in> set in_port"
  shows "\<exists>g\<in>set (times_frame in_port). r \<in> set g"
proof -
  let ?Z = "zip (dwell_keys in_port) in_port"
  from assms obtain p where p: "p < length in_port" "in_port ! p = r"
    by (auto simp: in_set_conv_nth)
  let ?k = "dwell_keys in_port ! p"
  have z: "(?k, r) \<in> set ?Z" using p by (auto simp: set_zip)
  then have "(?k, filter (\<lambda>x. fst x = ?k) ?Z) \<in> set (groupby fst ?Z)"
    by (auto simp: groupby_member image_iff intro: bexI [of _ "(?k, r)"])
  then have "map snd (filter (\<lambda>x. fst x = ?k) ?Z) \<in> set (times_frame in_port)"
    unfolding times_frame_def by force
  moreover have "r \<in> set (map snd (filter (\<lambda>x. fst x = ?k) ?Z))" using z by force
  ultimately show ?thesis by blast
qed

lemma times_frame_subset:
  assumes "g \<in> set (times_frame in_port)"
  shows "set g \<subseteq> set in_port"
proof -
  from assms obtain k where "g = map snd (filter (\<lambda>x. fst x = k) (zip (dwell_keys in_port) in_port))"
    unfolding times_frame_def by (auto simp: groupby_member)
  then show ?thesis by (auto dest: set_zip_rightD)
qed

lemma docked_if_not_transit:
  assumes "r \<in> set in_port"
    and "index_col r \<notin> set (time_out_port_idx haversine_vector speed_limit in_port)"
  shows "\<exists>g\<in>set (times_frame in_port). r \<in> set g \<and> docked haversine_vector speed_limit g"
proof -
  from assms(1) obtain g where g: "g \<in> set (times_frame in_port)" "r \<in> set g"
    using times_frame_cover by blast
  have "docked haversine_vector speed_limit g"
  proof (rule ccontr)
    assume "\<not> docked haversine_vector speed_limit g"
    with g have "index_col r \<in> set (time_out_port_idx haversine_vector speed_limit in_port)"
      unfolding time_out_port_idx_def by auto
    with assms(2) show False by simp
  qed
  with g show ?thesis by blast
qed

lemma time_out_port_idx_subset:
  "set (time_out_port_idx haversine_vector speed_limit in_port) \<subseteq> index_col ` set in_port"
  unfolding time_out_port_idx_def using times_frame_subset by fastforce

subsection \<open>routes\<close>

lemma distinct_map_sort_key:
  assumes "distinct (map f xs)"
  shows "distinct (map f (sort_key f xs))"
proof (rule card_distinct)
  have "card (set (map f (sort_key f xs))) = card (set (map f xs))" by simp
  also have "\<dots> = length (map f xs)" using assms by (rule distinct_card)
  finally show "card (set (map f (sort_key f xs))) = length (map f (sort_key f xs))" by simp
qed

lemma routes_frame_set:
  "set (routes_frame ships em out_idx) =
     (\<lambda>i. \<lparr>index_col = i, ping_of = ships ! i\<rparr>) `
       {i. i < length ships \<and> (\<not> constraint em i \<or> i \<in> set out_idx)}"
  by (auto simp: routes_frame_def Let_def)

lemma routes_frame_index:
  "index_col ` set (routes_frame ships em out_idx) =
     {i. i < length ships \<and> (\<not> constraint em i \<or> i \<in> set out_idx)}"
  unfolding routes_frame_set by (auto simp: image_iff)

lemma routes_frame_ping:
  "r \<in> set (routes_frame ships em out_idx) \<Longrightarrow>
     index_col r < length ships \<and> ping_of r = ships ! index_col r"
  unfolding routes_frame_set by auto

lemma routes_frame_increasing:
  assumes "\<forall>i\<in>set out_idx. constraint em i"
  shows "increasing (routes_frame ships em out_idx)"
proof -
  let ?A = "filter (\<lambda>i. \<not> constraint em i) [0..<length ships]"
  let ?B = "filter (\<lambda>i. i \<in> set out_idx) [0..<length ships]"
  let ?mk = "\<lambda>i. \<lparr>index_col = i, ping_of = ships ! i\<rparr>"
  let ?X = "map ?mk ?A @ map ?mk ?B"
  have idx: "map index_col ?X = ?A @ ?B" by (simp add: comp_def)
  have "distinct (?A @ ?B)" using assms by auto
  then have "distinct (map index_col ?X)" by (simp only: idx)
  then have d: "distinct (map index_col (sort_key index_col ?X))" by (rule distinct_map_sort_key)
  have s: "sorted (map index_col (sort_key index_col ?X))" by (rule sorted_sort_key)
  from s d have "sorted_wrt (<) (map index_col (sort_key index_col ?X))"
    by (simp add: strict_sorted_iff)
  then show ?thesis
    by (simp add: increasing_def routes_frame_def Let_def sorted_wrt_map)
qed

lemma sort_values_mono:
  assumes "i \<le> j" "j < length (sort_values ais)"
  shows "mmsi (sort_values ais ! i) \<le> mmsi (sort_values ais ! j)"
proof -
  let ?s = "sort_values ais"
  have "sorted (map (\<lambda>p. (mmsi p, time p)) ?s)" unfolding sort_values_def by (rule sorted_sort_key)
  moreover note assms(1)
  moreover have "j < length (map (\<lambda>p. (mmsi p, time p)) ?s)" using assms(2) by simp
  ultimately have "map (\<lambda>p. (mmsi p, time p)) ?s ! i \<le> map (\<lambda>p. (mmsi p, time p)) ?s ! j"
    by (rule sorted_nth_mono)
  then have "(mmsi (?s ! i), time (?s ! i)) \<le> (mmsi (?s ! j), time (?s ! j))"
    using assms by simp
  then show ?thesis by (auto simp: less_eq_prod_def)
qed

subsection \<open>Errors and lookups\<close>

lemma sequence_err_Inl: "sequence_err xs = Inl e \<Longrightarrow> Inl e \<in> set xs"
  by (induction xs) (auto split: sum.splits)

lemma sequence_err_Inr:
  "sequence_err xs = Inr ys \<Longrightarrow> xs = map Inr ys"
  by (induction xs arbitrary: ys) (auto split: sum.splits)

lemma find_centroid_error: "find_centroid p = Inl e \<Longrightarrow> e = ZeroDivisionError"
  by (auto simp: find_centroid_def split: if_splits)

lemma loc_found:
  assumes "loc Z k = Inr (r, c)"
  shows "(r, c) \<in> set Z \<and> int (label r) = k"
proof -
  from assms have "find (\<lambda>(r, c). int (label r) = k) Z = Some (r, c)"
    by (auto simp: loc_def split: option.splits)
  then show ?thesis by (auto simp: find_Some_iff in_set_conv_nth)
qed

lemma loc_KeyError:
  assumes "loc Z k = Inl e"
  shows "e = KeyError \<and> (\<forall>(r, c)\<in>set Z. int (label r) \<noteq> k)"
  using assms by (auto simp: loc_def find_None_iff split: option.splits)

lemma route_port_frame_subset: "set (route_port_frame W) \<subseteq> set W"
  by (auto simp: route_port_frame_iff enough_points_iff)

lemma voyage_ship:
  assumes ss: "ship_sorted n mm R"
    and ft: "(v, f, l) \<in> set (from_to_frame (route_port_frame (with_ids R)))"
    and r: "r \<in> set (route_port_frame (with_ids R))" "route_id r = v"
  shows "mmsi (ping_of r) = mm f"
proof -
  let ?W = "with_ids R"
  let ?g = "filter (\<lambda>r. route_id r = v) (route_port_frame ?W)"
  have ship: "\<And>r. r \<in> set R \<Longrightarrow> mmsi (ping_of r) = mm (index_col r)"
    using ss by (auto simp: ship_sorted_def)
  from ft have f: "f = index_col (hd ?g)" by (simp add: from_to_frame_iff)
  have gne: "?g \<noteq> []" using r by (auto simp: filter_empty_conv)
  then have "hd ?g \<in> set ?g" by (rule hd_in_set)
  then have xRP: "hd ?g \<in> set (route_port_frame ?W)" and xv: "route_id (hd ?g) = v" by simp_all
  obtain j where j: "j < length R" "?W ! j = hd ?g" "index_col (hd ?g) = index_col (R ! j)"
      "ping_of (hd ?g) = ping_of (R ! j)"
    using xRP route_port_frame_subset by (blast intro: with_ids_row)
  obtain i where i: "i < length R" "?W ! i = r" "index_col r = index_col (R ! i)"
      "ping_of r = ping_of (R ! i)"
    using r(1) route_port_frame_subset by (blast intro: with_ids_row)
  have "route_id (?W ! i) = route_id (?W ! j)" using i j r(2) xv by simp
  with i(1) j(1) have "mmsi (ping_of (R ! i)) = mmsi (ping_of (R ! j))" by (rule route_id_same_ship)
  moreover have "mmsi (ping_of (R ! j)) = mm f" using ship [of "R ! j"] j f by simp
  ultimately show ?thesis using i by simp
qed

lemma in_port_labels:
  assumes "in_port_frame ships prts (exploded_masks_of masks) = Inr in_port"
  shows "r \<in> set in_port \<Longrightarrow> index_col r = label r \<and> ping_of r = ships ! label r \<and>
           label r < length ships \<and> constraint (exploded_masks_of masks) (label r)"
    and "i < length ships \<Longrightarrow> constraint (exploded_masks_of masks) i \<Longrightarrow>
           \<exists>r\<in>set in_port. label r = i"
    and "distinct (map label in_port)"
proof -
  let ?em = "exploded_masks_of masks"
  let ?left = "filter (constraint ?em) [0..<length ships]"
  let ?mk = "\<lambda>i. \<lparr>index_col = i, ping_of = ships ! i, label = i,
                   port_of = the (assigned_port prts ?em i)\<rparr>"
  have ip: "in_port = map ?mk ?left" using assms by (rule in_port_frame_rows(1))
  show "r \<in> set in_port \<Longrightarrow> index_col r = label r \<and> ping_of r = ships ! label r \<and>
           label r < length ships \<and> constraint ?em (label r)"
    unfolding ip by auto
  show "i < length ships \<Longrightarrow> constraint ?em i \<Longrightarrow> \<exists>r\<in>set in_port. label r = i"
    unfolding ip by (auto simp: image_iff)
  have "map label in_port = ?left" unfolding ip by (simp add: comp_def)
  then show "distinct (map label in_port)" by simp
qed

text \<open>A ping of the sorted frame that is no route row is a row of a docked segment.\<close>

lemma dock_row:
  assumes ip: "in_port_frame ships prts (exploded_masks_of masks) = Inr in_port"
    and i: "i < length ships"
    and out: "i \<notin> index_col ` set (routes_frame ships (exploded_masks_of masks)
                (time_out_port_idx haversine_vector speed_limit in_port))"
  shows "\<exists>r\<in>set in_port. label r = i \<and> ping_of r = ships ! i \<and>
           (\<exists>g\<in>set (times_frame in_port). r \<in> set g \<and> docked haversine_vector speed_limit g)"
proof -
  let ?em = "exploded_masks_of masks"
  let ?out = "time_out_port_idx haversine_vector speed_limit in_port"
  from out i have c: "constraint ?em i" and t: "i \<notin> set ?out"
    by (auto simp: routes_frame_index)
  from in_port_labels(2) [OF ip i c] obtain r where r: "r \<in> set in_port" "label r = i" by blast
  with in_port_labels(1) [OF ip] have ri: "index_col r = i" "ping_of r = ships ! i" by auto
  with t r(1) have "\<exists>g\<in>set (times_frame in_port). r \<in> set g \<and> docked haversine_vector speed_limit g"
    by (intro docked_if_not_transit) simp_all
  with r ri show ?thesis by blast
qed

lemma routes_ship_sorted:
  assumes ip: "in_port_frame (sort_values ais) prts (exploded_masks_of masks) = Inr in_port"
  shows "ship_sorted (length (sort_values ais)) (\<lambda>i. mmsi (sort_values ais ! i))
           (routes_frame (sort_values ais) (exploded_masks_of masks)
              (time_out_port_idx haversine_vector speed_limit in_port))"
proof -
  let ?em = "exploded_masks_of masks"
  let ?out = "time_out_port_idx haversine_vector speed_limit in_port"
  have "\<forall>i\<in>set ?out. constraint ?em i"
  proof
    fix i assume "i \<in> set ?out"
    then obtain r where "r \<in> set in_port" "index_col r = i"
      using time_out_port_idx_subset by blast
    with in_port_labels(1) [OF ip] show "constraint ?em i" by auto
  qed
  then have "increasing (routes_frame (sort_values ais) ?em ?out)" by (rule routes_frame_increasing)
  then show ?thesis
    unfolding ship_sorted_def using routes_frame_ping sort_values_mono by auto
qed

lemma voyage_between_docks:
  assumes ip: "in_port_frame (sort_values ais) prts (exploded_masks_of masks) = Inr in_port"
    and ft: "(v, f, l) \<in> set (from_to_frame (route_port_frame (with_ids
               (routes_frame (sort_values ais) (exploded_masks_of masks)
                  (time_out_port_idx haversine_vector speed_limit in_port)))))"
  shows "\<exists>origin\<in>set in_port. \<exists>destination\<in>set in_port.
           label origin + 1 = f \<and> label destination = l + 1 \<and>
           mmsi (ping_of origin) = mmsi (sort_values ais ! f) \<and>
           mmsi (ping_of destination) = mmsi (sort_values ais ! l) \<and>
           (\<exists>g\<in>set (times_frame in_port). origin \<in> set g \<and> docked haversine_vector speed_limit g) \<and>
           (\<exists>g\<in>set (times_frame in_port). destination \<in> set g \<and>
               docked haversine_vector speed_limit g)"
proof -
  let ?ships = "sort_values ais"
  let ?R = "routes_frame ?ships (exploded_masks_of masks)
              (time_out_port_idx haversine_vector speed_limit in_port)"
  have ss: "ship_sorted (length ?ships) (\<lambda>i. mmsi (?ships ! i)) ?R"
    using ip by (rule routes_ship_sorted)
  from voyage_bounded_before [OF ss ft]
  have b: "0 < f" "f < length ?ships" "f - 1 \<notin> index_col ` set ?R"
    "mmsi (?ships ! (f - 1)) = mmsi (?ships ! f)" by simp_all
  from voyage_bounded_after [OF ss ft]
  have a: "l + 1 < length ?ships" "l + 1 \<notin> index_col ` set ?R"
    "mmsi (?ships ! (l + 1)) = mmsi (?ships ! l)" by simp_all
  have "f - 1 < length ?ships" using b(2) by simp
  from dock_row [OF ip this b(3)] obtain origin where o: "origin \<in> set in_port"
    "label origin = f - 1" "ping_of origin = ?ships ! (f - 1)"
    "\<exists>g\<in>set (times_frame in_port). origin \<in> set g \<and> docked haversine_vector speed_limit g"
    by blast
  from dock_row [OF ip a(1) a(2)] obtain destination where d: "destination \<in> set in_port"
    "label destination = l + 1" "ping_of destination = ?ships ! (l + 1)"
    "\<exists>g\<in>set (times_frame in_port). destination \<in> set g \<and>
        docked haversine_vector speed_limit g"
    by blast
  have lo: "label origin + 1 = f" using o(2) b(1) by simp
  have mo: "mmsi (ping_of origin) = mmsi (?ships ! f)" using o(3) b(4) by simp
  have md: "mmsi (ping_of destination) = mmsi (?ships ! l)" using d(3) a(3) by simp
  show ?thesis
    by (rule bexI [OF _ o(1)], rule bexI [OF _ d(1)]) (use lo d(2) mo md o(4) d(4) in blast)
qed

lemma attribution_Inr:
  assumes "attribution Z (v, f, l) = Inr x"
  shows "\<exists>origin destination. x = (v, origin, destination) \<and>
           loc Z (int f - 1) = Inr origin \<and> loc Z (int l + 1) = Inr destination"
  using assms by (auto simp: attribution_def split: sum.splits)

lemma attribution_Inl:
  assumes "attribution Z (v, f, l) = Inl e"
  shows "(\<forall>(r, c)\<in>set Z. int (label r) \<noteq> int f - 1) \<or> (\<forall>(r, c)\<in>set Z. int (label r) \<noteq> int l + 1)"
  using assms loc_KeyError [of Z "int f - 1" e] loc_KeyError [of Z "int l + 1" e]
  by (auto simp: attribution_def split: sum.splits)

lemma merge_from_to_row:
  assumes "row \<in> set (merge_from_to route_port fts)"
  shows "\<exists>r\<in>set route_port. \<exists>origin o_lat o_long destination d_lat d_long.
           (route_id r, (origin, o_lat, o_long), (destination, d_lat, d_long)) \<in> set fts \<and>
           mmsi row = mmsi (ping_of r) \<and> voyage_id row = route_id r \<and>
           from_locode row = locode (port_of origin) \<and>
           to_locode row = locode (port_of destination) \<and>
           to_time row = time (ping_of destination)"
  using assms unfolding merge_from_to_def by fastforce

lemma zip_left_member:
  assumes "x \<in> set xs" "length ys = length xs"
  shows "\<exists>y. (x, y) \<in> set (zip xs ys)"
proof -
  from assms(1) obtain p where "p < length xs" "xs ! p = x" by (auto simp: in_set_conv_nth)
  with assms(2) have "(x, ys ! p) \<in> set (zip xs ys)" by (auto simp: set_zip)
  then show ?thesis by blast
qed

lemma create_routes_frame_no_KeyError:
  "create_routes_frame mask_from_polygons haversine_vector speed_limit ais prts \<noteq> Inl KeyError"
proof
  let ?ships = "sort_values ais"
  let ?masks = "mask_from_polygons (map lat ?ships) (map long ?ships) (map polygon prts)"
  let ?em = "exploded_masks_of ?masks"
  assume k: "create_routes_frame mask_from_polygons haversine_vector speed_limit ais prts = Inl KeyError"
  show False
  proof (cases "in_port_frame ?ships prts ?em")
    case (Inl e)
    then have "e = ValueError" by (rule in_port_frame_error)
    with k Inl show False by (simp add: create_routes_frame_def Let_def)
  next
    case ip: (Inr in_port)
    let ?RP = "route_port_frame (with_ids (routes_frame ?ships ?em
                 (time_out_port_idx haversine_vector speed_limit in_port)))"
    show False
    proof (cases "sequence_err (map (\<lambda>r. find_centroid (polygon (port_of r))) in_port)")
      case (Inl e)
      then have "Inl e \<in> set (map (\<lambda>r. find_centroid (polygon (port_of r))) in_port)"
        by (rule sequence_err_Inl)
      then have "e = ZeroDivisionError" by (auto dest: find_centroid_error [OF sym])
      with k ip Inl show False by (simp add: create_routes_frame_def Let_def)
    next
      case cs: (Inr cents)
      then have "map (\<lambda>r. find_centroid (polygon (port_of r))) in_port = map Inr cents"
        by (rule sequence_err_Inr)
      then have "length (map (\<lambda>r. find_centroid (polygon (port_of r))) in_port) = length (map Inr cents :: (error + float64 \<times> float64) list)"
        by (rule arg_cong)
      then have len: "length cents = length in_port" by simp
      let ?Z = "zip in_port cents"
      from k ip cs have "sequence_err (map (attribution ?Z) (from_to_frame ?RP)) = Inl KeyError"
        by (simp add: create_routes_frame_def Let_def split: sum.splits)
      then have "Inl KeyError \<in> set (map (attribution ?Z) (from_to_frame ?RP))"
        by (rule sequence_err_Inl)
      then obtain v f l where ft: "(v, f, l) \<in> set (from_to_frame ?RP)"
        and at: "attribution ?Z (v, f, l) = Inl KeyError"
        by (auto simp: image_iff)
      from voyage_between_docks [OF ip ft] obtain origin destination
        where o: "origin \<in> set in_port" "label origin + 1 = f"
          and d: "destination \<in> set in_port" "label destination = l + 1"
        by blast
      from zip_left_member [OF o(1) len] obtain c1 where c1: "(origin, c1) \<in> set ?Z" by blast
      from zip_left_member [OF d(1) len] obtain c2 where c2: "(destination, c2) \<in> set ?Z" by blast
      have "int (label origin) = int f - 1" using o(2) by simp
      moreover have "int (label destination) = int l + 1" using d(2) by simp
      ultimately show False using attribution_Inl [OF at] c1 c2 by auto
    qed
  qed
qed

lemma voyage_ship_last:
  assumes ss: "ship_sorted n mm R"
    and ft: "(v, f, l) \<in> set (from_to_frame (route_port_frame (with_ids R)))"
  shows "mm l = mm f"
proof -
  let ?W = "with_ids R"
  let ?g = "filter (\<lambda>r. route_id r = v) (route_port_frame ?W)"
  have ship: "\<And>r. r \<in> set R \<Longrightarrow> mmsi (ping_of r) = mm (index_col r)"
    using ss by (auto simp: ship_sorted_def)
  from ft have l: "l = index_col (last ?g)" and vin: "v \<in> route_id ` set (route_port_frame ?W)"
    by (simp_all add: from_to_frame_iff)
  from vin have gne: "?g \<noteq> []" by (auto simp: filter_empty_conv)
  then have "last ?g \<in> set ?g" by (rule last_in_set)
  then have xRP: "last ?g \<in> set (route_port_frame ?W)" and xv: "route_id (last ?g) = v"
    by simp_all
  obtain j where j: "j < length R" "?W ! j = last ?g" "index_col (last ?g) = index_col (R ! j)"
      "ping_of (last ?g) = ping_of (R ! j)"
    using xRP route_port_frame_subset by (blast intro: with_ids_row)
  have "mmsi (ping_of (last ?g)) = mm l" using ship [of "R ! j"] j l by simp
  with voyage_ship [OF ss ft xRP xv] show ?thesis by simp
qed

lemma label_unique:
  assumes "distinct (map label in_port)" "a \<in> set in_port" "b \<in> set in_port" "label a = label b"
  shows "a = b"
  using assms by (auto simp: distinct_map inj_on_def)

lemma create_routes_frame_Inr:
  assumes a: "create_routes_frame mask_from_polygons haversine_vector speed_limit ais prts = Inr out"
  shows "\<exists>in_port cents fts.
     in_port_frame (sort_values ais) prts (exploded_masks_of
          (mask_from_polygons (map lat (sort_values ais)) (map long (sort_values ais))
             (map polygon prts))) = Inr in_port \<and>
     sequence_err (map (\<lambda>r. find_centroid (polygon (port_of r))) in_port) = Inr cents \<and>
     sequence_err (map (attribution (zip in_port cents))
        (from_to_frame (route_port_frame (with_ids (routes_frame (sort_values ais)
           (exploded_masks_of
              (mask_from_polygons (map lat (sort_values ais)) (map long (sort_values ais))
                 (map polygon prts)))
           (time_out_port_idx haversine_vector speed_limit in_port)))))) = Inr fts \<and>
     out = merge_from_to (route_port_frame (with_ids (routes_frame (sort_values ais)
           (exploded_masks_of
              (mask_from_polygons (map lat (sort_values ais)) (map long (sort_values ais))
                 (map polygon prts)))
           (time_out_port_idx haversine_vector speed_limit in_port)))) fts"
proof -
  let ?ships = "sort_values ais"
  let ?em = "exploded_masks_of
          (mask_from_polygons (map lat ?ships) (map long ?ships) (map polygon prts))"
  show ?thesis
  proof (cases "in_port_frame ?ships prts ?em")
    case (Inl e)
    with a show ?thesis by (simp add: create_routes_frame_def Let_def)
  next
    case ip: (Inr in_port)
    let ?RP = "route_port_frame (with_ids (routes_frame ?ships ?em
                 (time_out_port_idx haversine_vector speed_limit in_port)))"
    show ?thesis
    proof (cases "sequence_err (map (\<lambda>r. find_centroid (polygon (port_of r))) in_port)")
      case (Inl e)
      with a ip show ?thesis by (simp add: create_routes_frame_def Let_def)
    next
      case cs: (Inr cents)
      show ?thesis
      proof (cases "sequence_err (map (attribution (zip in_port cents)) (from_to_frame ?RP))")
        case (Inl e)
        with a ip cs show ?thesis by (simp add: create_routes_frame_def Let_def)
      next
        case fs: (Inr fts)
        with a ip cs have "out = merge_from_to ?RP fts"
          by (simp add: create_routes_frame_def Let_def)
        with ip cs fs show ?thesis by blast
      qed
    qed
  qed
qed

lemma find_app:
  "find P (xs @ ys) = (case find P xs of None \<Rightarrow> find P ys | Some x \<Rightarrow> Some x)"
  by (induction xs) auto

lemma find_exploded_row:
  "find (\<lambda>e. fst e = Some i) (map (\<lambda>i'. (Some i', p)) idxs) =
     (if i \<in> set idxs then Some (Some i, p) else None)"
  by (induction idxs) auto

lemma find_explode:
  "find (\<lambda>e. fst e = Some i) (explode masks) =
     map_option (\<lambda>(idxs, pj). (Some i, pj)) (find (\<lambda>(idxs, pj). i \<in> set idxs) masks)"
proof (induction masks)
  case Nil
  then show ?case by (simp add: explode_def)
next
  case (Cons m ms)
  obtain idxs p where m: "m = (idxs, p)" by (cases m)
  have e: "explode (m # ms) =
      (if idxs = [] then [(None, p)] else map (\<lambda>i. (Some i, p)) idxs) @ explode ms"
    by (simp add: explode_def m)
  show ?case
  proof (cases "i \<in> set idxs")
    case True
    then have "idxs \<noteq> []" by auto
    with True show ?thesis unfolding e by (simp add: find_app find_exploded_row m)
  next
    case False
    then show ?thesis
      unfolding e using Cons.IH by (simp add: find_app find_exploded_row m)
  qed
qed

lemma find_first_sorted:
  assumes "find P xs = Some x" and "sorted_wrt (<) (map key xs)" and "y \<in> set xs" and "P y"
  shows "(key x :: nat) \<le> key y"
proof -
  from assms(1) obtain i where i: "i < length xs" "x = xs ! i" "\<forall>j<i. \<not> P (xs ! j)"
    by (auto simp: find_Some_iff)
  from assms(3) obtain j where j: "j < length xs" "y = xs ! j" by (auto simp: in_set_conv_nth)
  have "\<not> j < i" using i(3) j(2) assms(4) by auto
  then have "i \<le> j" by simp
  show ?thesis
  proof (cases "i = j")
    case True
    with i j show ?thesis by simp
  next
    case False
    with \<open>i \<le> j\<close> have "i < j" by simp
    then have "map key xs ! i < map key xs ! j"
      using assms(2) j(1) by (simp add: sorted_wrt_iff_nth_less)
    with i j show ?thesis by simp
  qed
qed

lemma hd_filter_nth:
  assumes "filter P xs \<noteq> []"
  shows "\<exists>i<length xs. hd (filter P xs) = xs ! i \<and> P (xs ! i) \<and> (\<forall>j<i. \<not> P (xs ! j))"
  using assms
proof (induction xs)
  case Nil
  then show ?case by simp
next
  case (Cons x xs)
  show ?case
  proof (cases "P x")
    case True
    then show ?thesis by (intro exI [of _ 0]) simp
  next
    case False
    with Cons obtain i where i: "i < length xs" "hd (filter P xs) = xs ! i" "P (xs ! i)"
        "\<forall>j<i. \<not> P (xs ! j)" by auto
    have "\<forall>j<Suc i. \<not> P ((x # xs) ! j)"
      using False i(4) by (auto simp: less_Suc_eq_0_disj)
    with i False show ?thesis by (intro exI [of _ "Suc i"]) simp
  qed
qed

lemma last_filter_nth:
  assumes "filter P xs \<noteq> []"
  shows "\<exists>i<length xs. last (filter P xs) = xs ! i \<and> P (xs ! i) \<and>
           (\<forall>j. i < j \<and> j < length xs \<longrightarrow> \<not> P (xs ! j))"
proof -
  have ne: "filter P (rev xs) \<noteq> []" using assms by (simp add: filter_empty_conv)
  from hd_filter_nth [OF ne] obtain i where i: "i < length xs"
      "hd (filter P (rev xs)) = rev xs ! i" "P (rev xs ! i)" "\<forall>j<i. \<not> P (rev xs ! j)"
    by auto
  let ?k = "length xs - Suc i"
  have k: "?k < length xs" using i(1) by simp
  have "last (filter P xs) = hd (rev (filter P xs))" using assms by (simp add: hd_rev)
  also have "\<dots> = hd (filter P (rev xs))" by (simp add: rev_filter)
  also have "\<dots> = xs ! ?k" using i(1,2) by (simp add: rev_nth)
  finally have a: "last (filter P xs) = xs ! ?k" .
  have b: "P (xs ! ?k)" using i(1,3) by (simp add: rev_nth)
  have c: "\<forall>j. ?k < j \<and> j < length xs \<longrightarrow> \<not> P (xs ! j)"
  proof (intro allI impI)
    fix j assume j: "?k < j \<and> j < length xs"
    then have "length xs - Suc j < i" by linarith
    with i(4) have "\<not> P (rev xs ! (length xs - Suc j))" by blast
    moreover have "rev xs ! (length xs - Suc j) = xs ! j"
    proof -
      have a: "length xs - Suc j < length xs" using j by linarith
      have b: "length xs - Suc (length xs - Suc j) = j" using j by linarith
      show ?thesis using rev_nth [OF a] b by simp
    qed
    ultimately show "\<not> P (xs ! j)" by simp
  qed
  from k a b c show ?thesis by blast
qed

lemma ship_ids_first_last:
  fixes R :: "indexed_ping list"
  defines "W \<equiv> with_ids R"
  defines "E \<equiv> enough_points W"
  assumes x: "x \<in> set E"
  defines "gS \<equiv> filter (\<lambda>r. mmsi (ping_of r) = mmsi (ping_of x)) E"
  shows "route_id (hd gS) = Min (ship_ids W (mmsi (ping_of x)))"
    and "route_id (last gS) = Max (ship_ids W (mmsi (ping_of x)))"
proof -
  let ?s = "mmsi (ping_of x)"
  let ?P = "\<lambda>r. mmsi (ping_of r) = ?s \<and> 10 \<le> point_count W (route_id r)"
  have gS: "gS = filter ?P W"
    unfolding gS_def E_def enough_points_def by (simp add: conj_commute)
  have ids: "ship_ids W ?s = route_id ` set gS"
    unfolding gS ship_ids_def by auto
  have ne: "filter ?P W \<noteq> []" using x unfolding E_def enough_points_def
    by (auto simp: filter_empty_conv)
  have fin: "finite (route_id ` set gS)" by simp
  have lenW: "length W = length R" unfolding W_def by simp
  from hd_filter_nth [OF ne] obtain i where i: "i < length W" "hd (filter ?P W) = W ! i"
      "?P (W ! i)" "\<forall>j<i. \<not> ?P (W ! j)" by blast
  from last_filter_nth [OF ne] obtain k where k: "k < length W" "last (filter ?P W) = W ! k"
      "?P (W ! k)" "\<forall>j. k < j \<and> j < length W \<longrightarrow> \<not> ?P (W ! j)" by blast
  have low: "\<And>y. y \<in> set gS \<Longrightarrow> route_id (hd gS) \<le> route_id y"
    and high: "\<And>y. y \<in> set gS \<Longrightarrow> route_id y \<le> route_id (last gS)"
  proof -
    fix y assume "y \<in> set gS"
    then have yW: "y \<in> set W" and yP: "?P y" unfolding gS by simp_all
    then obtain j where j: "j < length W" "W ! j = y" by (auto simp: in_set_conv_nth)
    have "\<not> j < i" using i(4) j yP by auto
    then have ij: "i \<le> j" by simp
    have "\<not> k < j" using k(4) j yP by auto
    then have jk: "j \<le> k" by simp
    have mi: "mmsi (ping_of (R ! i)) = mmsi (ping_of (R ! j))"
      using i(1,3) j yP lenW with_ids_nth(2) [of i R] with_ids_nth(2) [of j R]
      unfolding W_def by simp
    have mk: "mmsi (ping_of (R ! j)) = mmsi (ping_of (R ! k))"
      using k(1,3) j yP lenW with_ids_nth(2) [of k R] with_ids_nth(2) [of j R]
      unfolding W_def by simp
    have "route_id (with_ids R ! i) \<le> route_id (with_ids R ! j)"
      using ij j(1) lenW mi by (intro route_id_mono_ship) simp_all
    then show "route_id (hd gS) \<le> route_id y" using i(2) j(2) unfolding gS W_def by simp
    have "route_id (with_ids R ! j) \<le> route_id (with_ids R ! k)"
      using jk k(1) lenW mk by (intro route_id_mono_ship) simp_all
    then show "route_id y \<le> route_id (last gS)" using k(2) j(2) unfolding gS W_def by simp
  qed
  have gne: "gS \<noteq> []" using ne unfolding gS .
  have hin: "route_id (hd gS) \<in> route_id ` set gS" using gne by simp
  have lin: "route_id (last gS) \<in> route_id ` set gS" using gne by simp
  show "route_id (hd gS) = Min (ship_ids W ?s)"
    unfolding ids using fin hin low by (intro Min_eqI [symmetric]) auto
  show "route_id (last gS) = Max (ship_ids W ?s)"
    unfolding ids using fin lin high by (intro Max_eqI [symmetric]) auto
qed

lemma remove_idx_iff:
  "v \<in> set (remove_idx E) \<longleftrightarrow>
     (\<exists>x\<in>set E. v = route_id (hd (filter (\<lambda>r. mmsi (ping_of r) = mmsi (ping_of x)) E)) \<or>
                 v = route_id (last (filter (\<lambda>r. mmsi (ping_of r) = mmsi (ping_of x)) E)))"
proof
  assume "v \<in> set (remove_idx E)"
  then obtain s g where sg: "(s, g) \<in> set (groupby (\<lambda>r. mmsi (ping_of r)) E)"
      and v: "v = route_id (hd g) \<or> v = route_id (last g)"
    unfolding remove_idx_def by auto
  from sg obtain x where "x \<in> set E" "s = mmsi (ping_of x)"
      "g = filter (\<lambda>r. mmsi (ping_of r) = s) E"
    by (auto simp: groupby_member)
  with v show "\<exists>x\<in>set E. v = route_id (hd (filter (\<lambda>r. mmsi (ping_of r) = mmsi (ping_of x)) E)) \<or>
                 v = route_id (last (filter (\<lambda>r. mmsi (ping_of r) = mmsi (ping_of x)) E))"
    by blast
next
  assume "\<exists>x\<in>set E. v = route_id (hd (filter (\<lambda>r. mmsi (ping_of r) = mmsi (ping_of x)) E)) \<or>
                 v = route_id (last (filter (\<lambda>r. mmsi (ping_of r) = mmsi (ping_of x)) E))"
  then show "v \<in> set (remove_idx E)" using remove_idx_first_last by blast
qed

lemma same_id_same_ship:
  assumes "x \<in> set (with_ids R)" "y \<in> set (with_ids R)" "route_id x = route_id y"
  shows "mmsi (ping_of x) = mmsi (ping_of y)"
proof -
  obtain i where i: "i < length R" "with_ids R ! i = x" "ping_of x = ping_of (R ! i)"
    using assms(1) by (blast intro: with_ids_row)
  obtain j where j: "j < length R" "with_ids R ! j = y" "ping_of y = ping_of (R ! j)"
    using assms(2) by (blast intro: with_ids_row)
  have "route_id (with_ids R ! i) = route_id (with_ids R ! j)" using i j assms(3) by simp
  with i(1) j(1) have "mmsi (ping_of (R ! i)) = mmsi (ping_of (R ! j))" by (rule route_id_same_ship)
  with i j show ?thesis by simp
qed

lemma route_port_frame_survivors:
  "route_port_frame (with_ids R) =
     filter (\<lambda>r. 10 \<le> point_count (with_ids R) (route_id r) \<and>
                 route_id r \<noteq> Min (ship_ids (with_ids R) (mmsi (ping_of r))) \<and>
                 route_id r \<noteq> Max (ship_ids (with_ids R) (mmsi (ping_of r))))
            (with_ids R)"
proof -
  let ?W = "with_ids R"
  let ?E = "enough_points ?W"
  have key: "\<And>r. r \<in> set ?E \<Longrightarrow>
      route_id r \<in> set (remove_idx ?E) \<longleftrightarrow>
        route_id r = Min (ship_ids ?W (mmsi (ping_of r))) \<or>
        route_id r = Max (ship_ids ?W (mmsi (ping_of r)))"
  proof -
    fix r assume r: "r \<in> set ?E"
    let ?g = "\<lambda>x. filter (\<lambda>r. mmsi (ping_of r) = mmsi (ping_of x)) ?E"
    show "route_id r \<in> set (remove_idx ?E) \<longleftrightarrow>
        route_id r = Min (ship_ids ?W (mmsi (ping_of r))) \<or>
        route_id r = Max (ship_ids ?W (mmsi (ping_of r)))"
    proof
      assume "route_id r \<in> set (remove_idx ?E)"
      then obtain x where x: "x \<in> set ?E"
          "route_id r = route_id (hd (?g x)) \<or> route_id r = route_id (last (?g x))"
        unfolding remove_idx_iff by blast
      have gne: "?g x \<noteq> []" using x(1) by (auto simp: filter_empty_conv)
      have h: "hd (?g x) \<in> set (?g x)" using gne by (rule hd_in_set)
      have l: "last (?g x) \<in> set (?g x)" using gne by (rule last_in_set)
      have rW: "r \<in> set ?W" using r by (simp add: enough_points_iff)
      have "mmsi (ping_of r) = mmsi (ping_of x)"
      proof -
        from x(2) show ?thesis
        proof
          assume e: "route_id r = route_id (hd (?g x))"
          have "hd (?g x) \<in> set ?W" using h by (simp add: enough_points_iff)
          from same_id_same_ship [OF rW this e] h show ?thesis by simp
        next
          assume e: "route_id r = route_id (last (?g x))"
          have "last (?g x) \<in> set ?W" using l by (simp add: enough_points_iff)
          from same_id_same_ship [OF rW this e] l show ?thesis by simp
        qed
      qed
      with x(2) ship_ids_first_last [OF x(1)]
      show "route_id r = Min (ship_ids ?W (mmsi (ping_of r))) \<or>
        route_id r = Max (ship_ids ?W (mmsi (ping_of r)))" by simp
    next
      assume "route_id r = Min (ship_ids ?W (mmsi (ping_of r))) \<or>
        route_id r = Max (ship_ids ?W (mmsi (ping_of r)))"
      with ship_ids_first_last [OF r] remove_idx_first_last [OF r]
      show "route_id r \<in> set (remove_idx ?E)" by auto
    qed
  qed
  have "route_port_frame ?W =
        filter (\<lambda>r. route_id r \<notin> set (remove_idx ?E)) ?E"
    by (simp add: route_port_frame_def Let_def)
  also have "\<dots> = filter (\<lambda>r. route_id r \<noteq> Min (ship_ids ?W (mmsi (ping_of r))) \<and>
                   route_id r \<noteq> Max (ship_ids ?W (mmsi (ping_of r)))) ?E"
    by (rule filter_cong) (auto simp: key)
  also have "\<dots> = filter (\<lambda>r. 10 \<le> point_count ?W (route_id r) \<and>
                 route_id r \<noteq> Min (ship_ids ?W (mmsi (ping_of r))) \<and>
                 route_id r \<noteq> Max (ship_ids ?W (mmsi (ping_of r)))) ?W"
    unfolding enough_points_def by (simp add: conj_commute conj_left_commute)
  finally show ?thesis .
qed

lemma single_filter:
  "distinct (map fst xs) \<Longrightarrow> k \<in> fst ` set xs \<Longrightarrow> \<exists>x. filter (\<lambda>y. fst y = k) xs = [x]"
proof (induction xs)
  case Nil
  then show ?case by simp
next
  case (Cons a xs)
  show ?case
  proof (cases "fst a = k")
    case True
    with Cons.prems(1) have "filter (\<lambda>y. fst y = k) xs = []"
      by (force simp: filter_empty_conv image_iff)
    with True show ?thesis by simp
  next
    case False
    with Cons show ?thesis by auto
  qed
qed

lemma map_fst_results:
  "map f xs = map Inr ys \<Longrightarrow> (\<And>x y. f x = Inr y \<Longrightarrow> fst y = fst x) \<Longrightarrow>
     map fst ys = map fst xs"
proof (induction xs arbitrary: ys)
  case Nil
  then show ?case by simp
next
  case (Cons x xs)
  then obtain y ys' where ys: "ys = y # ys'" by (cases ys) auto
  with Cons.prems(1) have "f x = Inr y" "map f xs = map Inr ys'" by simp_all
  with Cons.IH [of ys'] Cons.prems(2) ys show ?case by simp
qed

lemma from_to_frame_keys:
  "distinct (map fst (from_to_frame RP))" "fst ` set (from_to_frame RP) = route_id ` set RP"
proof -
  have "map fst (from_to_frame RP) = map fst (groupby route_id RP)"
    unfolding from_to_frame_def by (simp add: comp_def case_prod_unfold)
  then show "distinct (map fst (from_to_frame RP))" "fst ` set (from_to_frame RP) = route_id ` set RP"
    using groupby_distinct_keys [of route_id RP] groupby_keys [of route_id RP]
    by (simp_all flip: set_map)
qed

lemma merge_from_to_ids:
  assumes "map fst fts = map fst (from_to_frame RP)"
  shows "map (\<lambda>r. (voyage_id r, mmsi r, time r)) (merge_from_to RP fts) = map (\<lambda>r. (route_id r, mmsi (ping_of r), time (ping_of r))) RP"
proof -
  have d: "distinct (map fst fts)" using assms from_to_frame_keys(1) by simp
  have "set (map fst fts) = set (map fst (from_to_frame RP))" using assms by simp
  then have s: "fst ` set fts = route_id ` set RP" using from_to_frame_keys(2) by simp
  have "\<And>ys. set ys \<subseteq> set RP \<Longrightarrow>
      map (\<lambda>r. (voyage_id r, mmsi r, time r)) (merge_from_to ys fts) = map (\<lambda>r. (route_id r, mmsi (ping_of r), time (ping_of r))) ys"
  proof -
    fix ys :: "route_row list"
    show "set ys \<subseteq> set RP \<Longrightarrow> map (\<lambda>r. (voyage_id r, mmsi r, time r)) (merge_from_to ys fts) = map (\<lambda>r. (route_id r, mmsi (ping_of r), time (ping_of r))) ys"
    proof (induction ys)
      case Nil
      then show ?case by (simp add: merge_from_to_def)
    next
      case (Cons r ys)
      then have "route_id r \<in> fst ` set fts" using s by auto
      from single_filter [OF d this] obtain x where "filter (\<lambda>y. fst y = route_id r) fts = [x]"
        by blast
      then have x: "filter (\<lambda>(v, od). v = route_id r) fts = [x]"
        by (simp add: case_prod_unfold)
      have "merge_from_to (r # ys) fts =
            map (\<lambda>(v, (o_row, o_lat, o_long), (d_row, d_lat, d_long)).
                         \<lparr>mmsi = mmsi (ping_of r), time = time (ping_of r),
                          long = long (ping_of r), lat = lat (ping_of r),
                          sog = sog (ping_of r), cog = cog (ping_of r),
                          voyage_id = route_id r,
                          from_locode = locode (port_of o_row), from_lat = o_lat, from_long = o_long,
                          to_locode = locode (port_of d_row), to_lat = d_lat, to_long = d_long,
                          to_time = time (ping_of d_row)\<rparr>) [x] @ merge_from_to ys fts"
        unfolding merge_from_to_def by (simp only: list.map concat.simps x)
      then show ?case using Cons by (simp add: case_prod_unfold)
    qed
  qed
  then show ?thesis by simp
qed

lemma create_routes_frame_ids:
  assumes "create_routes_frame mask_from_polygons haversine_vector speed_limit ais prts = Inr out"
    and "in_port_frame (sort_values ais) prts (exploded_masks_of
          (mask_from_polygons (map lat (sort_values ais)) (map long (sort_values ais))
             (map polygon prts))) = Inr in_port"
  shows "map (\<lambda>r. (voyage_id r, mmsi r, time r)) out =
         map (\<lambda>r. (route_id r, mmsi (ping_of r), time (ping_of r))) (route_port_frame (with_ids (routes_frame (sort_values ais)
           (exploded_masks_of
              (mask_from_polygons (map lat (sort_values ais)) (map long (sort_values ais))
                 (map polygon prts)))
           (time_out_port_idx haversine_vector speed_limit in_port))))"
proof -
  from create_routes_frame_Inr [OF assms(1)] assms(2) obtain cents fts
    where fs: "sequence_err (map (attribution (zip in_port cents))
        (from_to_frame (route_port_frame (with_ids (routes_frame (sort_values ais)
           (exploded_masks_of
              (mask_from_polygons (map lat (sort_values ais)) (map long (sort_values ais))
                 (map polygon prts)))
           (time_out_port_idx haversine_vector speed_limit in_port)))))) = Inr fts"
     and out: "out = merge_from_to (route_port_frame (with_ids (routes_frame (sort_values ais)
           (exploded_masks_of
              (mask_from_polygons (map lat (sort_values ais)) (map long (sort_values ais))
                 (map polygon prts)))
           (time_out_port_idx haversine_vector speed_limit in_port)))) fts"
    by auto
  have "\<And>x y. attribution (zip in_port cents) x = Inr y \<Longrightarrow> fst y = fst x"
  proof -
    fix x :: "nat \<times> nat \<times> nat" and y
    assume a: "attribution (zip in_port cents) x = Inr y"
    obtain v f l where x: "x = (v, f, l)" by (cases x)
    from attribution_Inr [OF a [unfolded x]] x show "fst y = fst x" by auto
  qed
  with sequence_err_Inr [OF fs] have "map fst fts = map fst (from_to_frame (route_port_frame
     (with_ids (routes_frame (sort_values ais)
           (exploded_masks_of
              (mask_from_polygons (map lat (sort_values ais)) (map long (sort_values ais))
                 (map polygon prts)))
           (time_out_port_idx haversine_vector speed_limit in_port)))))"
    by (rule map_fst_results)
  then show ?thesis unfolding out by (rule merge_from_to_ids)
qed

section \<open>create_routes on the synthetic ship\<close>

lemma synthetic_sorted: "sort_values synthetic_ais = synthetic_ais"
  by code_simp

lemma synthetic_membership:
  "box_membership (map lat synthetic_ais) (map long synthetic_ais) (map polygon synthetic_ports) =
     synthetic_masks"
  by code_simp

lemma synthetic_in_port_frame:
  "in_port_frame synthetic_ais synthetic_ports (exploded_masks_of synthetic_masks) =
     Inr synthetic_in_port"
  by code_simp

lemma synthetic_transits:
  "time_out_port_idx flat_distance 3 synthetic_in_port = []"
  by code_simp

lemma synthetic_with_ids:
  "with_ids (routes_frame synthetic_ais (exploded_masks_of synthetic_masks) []) = synthetic_voyages"
  by code_simp

lemma synthetic_route_port:
  "route_port_frame synthetic_voyages = filter (\<lambda>r. route_id r = 1) synthetic_voyages"
  by code_simp

lemma synthetic_from_to:
  "from_to_frame (route_port_frame synthetic_voyages) = [(1, 12, 21)]"
  by code_simp

lemma synthetic_create_routes:
  "create_routes_frame box_membership flat_distance 3 synthetic_ais synthetic_ports =
     Inr synthetic_routes"
  by code_simp

lemma synthetic_ship_ids: "ship_ids synthetic_voyages 7 = {0, 1, 2}"
  by code_simp

lemma synthetic_ids: "remdups (map route_id synthetic_voyages) = [0, 1, 2]"
  by code_simp

lemma synthetic_survivor: "remdups (map voyage_id synthetic_routes) = [1]"
  by code_simp

lemma synthetic_dock_member: "synthetic_dock 22 (21 / 2) 1 \<in> set synthetic_in_port"
  by code_simp

lemma synthetic_masks_sorted: "sorted_wrt (<) (map snd synthetic_masks)"
  by code_simp

lemma synthetic_overlap:
  "([22, 23], 1) \<in> set synthetic_masks \<and> ([22, 23], 2) \<in> set synthetic_masks \<and>
   locode (port_of (synthetic_dock 22 (21 / 2) 1)) = ''BBB''"
  by code_simp

section \<open>create_routes: origin and destination\<close>

text \<open>
  The lookups \<^verbatim>\<open>in_port.loc[first - 1]\<close> and \<^verbatim>\<open>in_port.loc[last + 1]\<close> never raise
  KeyError: every voyage that is left after the first and the last voyage of each ship
  are dropped has a row of \<^verbatim>\<open>in_port\<close> at the index before its first ping and one at the
  index after its last ping, both of the voyage's ship and both in a group of \<^verbatim>\<open>times\<close>
  that the code takes for a dock. These two rows give the origin and the destination of
  every row of the voyage.
\<close>

lemma create_routes_lookups_in_range:
  fixes mask_from_polygons :: membership and haversine_vector :: distance and speed_limit :: real
    and ais :: "ping list" and prts :: "port list"
  defines "ships \<equiv> sort_values ais"
  defines "em \<equiv> exploded_masks_of
                   (mask_from_polygons (map lat ships) (map long ships) (map polygon prts))"
  defines "route_port \<equiv> \<lambda>in_port. route_port_frame (with_ids (routes_frame ships em
                   (time_out_port_idx haversine_vector speed_limit in_port)))"
  shows "create_routes_frame mask_from_polygons haversine_vector speed_limit ais prts \<noteq> Inl KeyError \<and>
    (in_port_frame ships prts em = Inr in_port \<and> (v, f, l) \<in> set (from_to_frame (route_port in_port)) \<longrightarrow>
       (\<exists>origin\<in>set in_port. \<exists>destination\<in>set in_port.
          label origin + 1 = f \<and> label destination = l + 1 \<and>
          mmsi (ping_of origin) = mmsi (ships ! f) \<and>
          mmsi (ping_of destination) = mmsi (ships ! l) \<and>
          (\<exists>g\<in>set (times_frame in_port). origin \<in> set g \<and> docked haversine_vector speed_limit g) \<and>
          (\<exists>g\<in>set (times_frame in_port). destination \<in> set g \<and>
              docked haversine_vector speed_limit g))) \<and>
    (create_routes_frame mask_from_polygons haversine_vector speed_limit ais prts = Inr out \<and>
     row \<in> set out \<longrightarrow>
       (\<exists>in_port first_index last_index. \<exists>origin\<in>set in_port. \<exists>destination\<in>set in_port.
          in_port_frame ships prts em = Inr in_port \<and>
          (voyage_id row, first_index, last_index) \<in> set (from_to_frame (route_port in_port)) \<and>
          label origin + 1 = first_index \<and> label destination = last_index + 1 \<and>
          mmsi (ping_of origin) = mmsi row \<and> mmsi (ping_of destination) = mmsi row \<and>
          (\<exists>g\<in>set (times_frame in_port). origin \<in> set g \<and> docked haversine_vector speed_limit g) \<and>
          (\<exists>g\<in>set (times_frame in_port). destination \<in> set g \<and>
              docked haversine_vector speed_limit g) \<and>
          from_locode row = locode (port_of origin) \<and>
          to_locode row = locode (port_of destination) \<and>
          to_time row = time (ping_of destination)))"
proof (intro conjI impI)
  show "create_routes_frame mask_from_polygons haversine_vector speed_limit ais prts \<noteq> Inl KeyError"
    by (rule create_routes_frame_no_KeyError)
next
  assume "in_port_frame ships prts em = Inr in_port \<and>
          (v, f, l) \<in> set (from_to_frame (route_port in_port))"
  then show "\<exists>origin\<in>set in_port. \<exists>destination\<in>set in_port.
          label origin + 1 = f \<and> label destination = l + 1 \<and>
          mmsi (ping_of origin) = mmsi (ships ! f) \<and>
          mmsi (ping_of destination) = mmsi (ships ! l) \<and>
          (\<exists>g\<in>set (times_frame in_port). origin \<in> set g \<and> docked haversine_vector speed_limit g) \<and>
          (\<exists>g\<in>set (times_frame in_port). destination \<in> set g \<and>
              docked haversine_vector speed_limit g)"
    unfolding ships_def em_def route_port_def
    using voyage_between_docks by blast
next
  let ?f = "create_routes_frame mask_from_polygons haversine_vector speed_limit ais prts"
  assume a: "?f = Inr out \<and> row \<in> set out"
  then have "?f = Inr out" by simp
  from create_routes_frame_Inr [OF this] obtain in_port cents fts
    where ip: "in_port_frame ships prts em = Inr in_port"
      and cs: "sequence_err (map (\<lambda>r. find_centroid (polygon (port_of r))) in_port) = Inr cents"
      and fs: "sequence_err (map (attribution (zip in_port cents))
                 (from_to_frame (route_port in_port))) = Inr fts"
      and out: "out = merge_from_to (route_port in_port) fts"
    unfolding ships_def em_def route_port_def by blast
  let ?Z = "zip in_port cents"
  let ?RP = "route_port in_port"
  from a out have "row \<in> set (merge_from_to ?RP fts)" by simp
  from merge_from_to_row [OF this] obtain r origin o_lat o_long destination d_lat d_long
    where r: "r \<in> set ?RP"
      and e: "(route_id r, (origin, o_lat, o_long), (destination, d_lat, d_long)) \<in> set fts"
      and row: "mmsi row = mmsi (ping_of r)" "voyage_id row = route_id r"
        "from_locode row = locode (port_of origin)"
        "to_locode row = locode (port_of destination)"
        "to_time row = time (ping_of destination)"
    by blast
  have "map (attribution ?Z) (from_to_frame ?RP) = map Inr fts" using fs by (rule sequence_err_Inr)
  then have "set (map (attribution ?Z) (from_to_frame ?RP)) = set (map Inr fts)" by (rule arg_cong)
  then have img: "attribution ?Z ` set (from_to_frame ?RP) = Inr ` set fts" by simp
  have "Inr (route_id r, (origin, o_lat, o_long), (destination, d_lat, d_long)) \<in> Inr ` set fts"
    using e by (rule imageI)
  then have "Inr (route_id r, (origin, o_lat, o_long), (destination, d_lat, d_long))
       \<in> attribution ?Z ` set (from_to_frame ?RP)"
    by (simp only: img)
  then obtain ft where ft: "ft \<in> set (from_to_frame ?RP)"
    and at: "attribution ?Z ft = Inr (route_id r, (origin, o_lat, o_long), (destination, d_lat, d_long))"
    by (elim imageE) simp
  obtain v f l where ftv: "ft = (v, f, l)" by (cases ft)
  from attribution_Inr [OF at [unfolded ftv]]
  have vr: "v = route_id r" and lo: "loc ?Z (int f - 1) = Inr (origin, o_lat, o_long)"
    and ld: "loc ?Z (int l + 1) = Inr (destination, d_lat, d_long)" by auto
  from loc_found [OF lo] have oin: "origin \<in> set in_port" and ol: "int (label origin) = int f - 1"
    by (auto dest: set_zip_leftD)
  from loc_found [OF ld] have din: "destination \<in> set in_port"
    and dl: "int (label destination) = int l + 1"
    by (auto dest: set_zip_leftD)
  have ip': "in_port_frame (sort_values ais) prts (exploded_masks_of
          (mask_from_polygons (map lat (sort_values ais)) (map long (sort_values ais))
             (map polygon prts))) = Inr in_port"
    using ip unfolding ships_def em_def .
  have ft': "(v, f, l) \<in> set (from_to_frame (route_port_frame (with_ids
               (routes_frame (sort_values ais) (exploded_masks_of
          (mask_from_polygons (map lat (sort_values ais)) (map long (sort_values ais))
             (map polygon prts)))
                  (time_out_port_idx haversine_vector speed_limit in_port)))))"
    using ft ftv unfolding ships_def em_def route_port_def by simp
  from voyage_between_docks [OF ip' ft'] obtain origin' destination'
    where o': "origin' \<in> set in_port" "label origin' + 1 = f"
        "mmsi (ping_of origin') = mmsi (sort_values ais ! f)"
        "\<exists>g\<in>set (times_frame in_port). origin' \<in> set g \<and> docked haversine_vector speed_limit g"
      and d': "destination' \<in> set in_port" "label destination' = l + 1"
        "mmsi (ping_of destination') = mmsi (sort_values ais ! l)"
        "\<exists>g\<in>set (times_frame in_port). destination' \<in> set g \<and>
            docked haversine_vector speed_limit g"
    by blast
  have dist: "distinct (map label in_port)" using ip' by (rule in_port_labels(3))
  have "label origin = label origin'" using ol o'(2) by simp
  with dist oin o'(1) have oeq: "origin = origin'" by (rule label_unique)
  have "label destination = label destination'" using dl d'(2) by simp
  with dist din d'(1) have deq: "destination = destination'" by (rule label_unique)
  have ss: "ship_sorted (length (sort_values ais)) (\<lambda>i. mmsi (sort_values ais ! i))
           (routes_frame (sort_values ais) (exploded_masks_of
          (mask_from_polygons (map lat (sort_values ais)) (map long (sort_values ais))
             (map polygon prts)))
              (time_out_port_idx haversine_vector speed_limit in_port))"
    using ip' by (rule routes_ship_sorted)
  have r': "r \<in> set (route_port_frame (with_ids
               (routes_frame (sort_values ais) (exploded_masks_of
          (mask_from_polygons (map lat (sort_values ais)) (map long (sort_values ais))
             (map polygon prts)))
                  (time_out_port_idx haversine_vector speed_limit in_port))))"
    using r unfolding ships_def em_def route_port_def .
  have mf: "mmsi (ping_of r) = mmsi (sort_values ais ! f)"
    using voyage_ship [OF ss ft' r' vr [symmetric]] .
  have ml: "mmsi (sort_values ais ! l) = mmsi (sort_values ais ! f)"
    using voyage_ship_last [OF ss ft'] .
  have p1: "(voyage_id row, f, l) \<in> set (from_to_frame ?RP)" using ft ftv vr row(2) by simp
  have p2: "label origin + 1 = f" using oeq o'(2) by simp
  have p3: "label destination = l + 1" using deq d'(2) by simp
  have p4: "mmsi (ping_of origin) = mmsi row" using oeq o'(3) mf row(1) by simp
  have p5: "mmsi (ping_of destination) = mmsi row" using deq d'(3) ml mf row(1) by simp
  have p6: "\<exists>g\<in>set (times_frame in_port). origin \<in> set g \<and> docked haversine_vector speed_limit g"
    using oeq o'(4) by simp
  have p7: "\<exists>g\<in>set (times_frame in_port). destination \<in> set g \<and>
      docked haversine_vector speed_limit g"
    using deq d'(4) by simp
  show "\<exists>in_port first_index last_index. \<exists>origin\<in>set in_port. \<exists>destination\<in>set in_port.
          in_port_frame ships prts em = Inr in_port \<and>
          (voyage_id row, first_index, last_index) \<in> set (from_to_frame (route_port in_port)) \<and>
          label origin + 1 = first_index \<and> label destination = last_index + 1 \<and>
          mmsi (ping_of origin) = mmsi row \<and> mmsi (ping_of destination) = mmsi row \<and>
          (\<exists>g\<in>set (times_frame in_port). origin \<in> set g \<and> docked haversine_vector speed_limit g) \<and>
          (\<exists>g\<in>set (times_frame in_port). destination \<in> set g \<and>
              docked haversine_vector speed_limit g) \<and>
          from_locode row = locode (port_of origin) \<and>
          to_locode row = locode (port_of destination) \<and>
          to_time row = time (ping_of destination)"
    apply (rule exI [of _ in_port], rule exI [of _ f], rule exI [of _ l])
    apply (rule bexI [OF _ oin], rule bexI [OF _ din])
    using ip p1 p2 p3 p4 p5 p6 p7 row(3-5) by simp
qed

text \<open>
  The crossing ship, step by step: the four pings inside Alpha form one group of
  \<^verbatim>\<open>times\<close>, because \<^verbatim>\<open>in_port\<close> holds no row between the two crossings at which the
  port could change.
\<close>

lemma crossing_sorted: "sort_values crossing_ais = crossing_ais"
  by code_simp

lemma crossing_membership:
  "box_membership (map lat crossing_ais) (map long crossing_ais) (map polygon synthetic_ports) =
     crossing_masks"
  by code_simp

lemma crossing_in_port_frame:
  "in_port_frame crossing_ais synthetic_ports (exploded_masks_of crossing_masks) =
     Inr (first_crossing @ second_crossing)"
  by code_simp

lemma crossing_times: "times_frame (first_crossing @ second_crossing) = [first_crossing @ second_crossing]"
  by code_simp

lemma crossing_speeds:
  "segment_speed flat_distance first_crossing = Fin (53996 / 1000)"
  "segment_speed flat_distance second_crossing = Fin (53996 / 1000)"
  "segment_speed flat_distance (first_crossing @ second_crossing) = Fin 0"
  by code_simp+

lemma crossing_docked:
  "\<not> docked flat_distance 3 first_crossing"
  "\<not> docked flat_distance 3 second_crossing"
  "docked flat_distance 3 (first_crossing @ second_crossing)"
  by code_simp+

lemma crossing_create_routes:
  "create_routes_frame box_membership flat_distance 3 crossing_ais synthetic_ports =
     Inr crossing_routes"
  by code_simp

lemma crossing_attribution:
  "map (\<lambda>r. (voyage_id r, from_locode r, to_locode r)) crossing_routes =
     replicate 10 (1, ''AAA'', ''AAA'')"
  by code_simp

text \<open>
  C1, the attribution fails on the code: the crossing ship is never at rest in a port.
  Each of its two crossings of Alpha, a run of in-port pings contiguous in time, has an
  average speed of 54 knots and is a transit by the code's own limit of 3 knots. But
  \<^verbatim>\<open>create_routes\<close> groups the rows of \<^verbatim>\<open>in_port\<close> by ship and by changes of the port
  alone, so the two crossings are one group that starts and ends at the same position,
  has speed 0 and is taken for a dock. The voyage between the crossings, which no dock
  precedes or follows, is returned as a voyage from Alpha to Alpha; nothing is rejected
  or flagged.
\<close>

theorem create_routes_transits_taken_for_a_dock:
  "box_membership (map lat (sort_values crossing_ais)) (map long (sort_values crossing_ais))
     (map polygon synthetic_ports) = crossing_masks \<and>
   in_port_frame (sort_values crossing_ais) synthetic_ports (exploded_masks_of crossing_masks) =
     Inr (first_crossing @ second_crossing) \<and>
   map label (first_crossing @ second_crossing) = [10, 11, 22, 23] \<and>
   segment_speed flat_distance first_crossing = Fin (53996 / 1000) \<and>
   segment_speed flat_distance second_crossing = Fin (53996 / 1000) \<and>
   \<not> docked flat_distance 3 first_crossing \<and>
   \<not> docked flat_distance 3 second_crossing \<and>
   times_frame (first_crossing @ second_crossing) = [first_crossing @ second_crossing] \<and>
   docked flat_distance 3 (first_crossing @ second_crossing) \<and>
   create_routes_frame box_membership flat_distance 3 crossing_ais synthetic_ports =
     Inr crossing_routes \<and>
   map (\<lambda>r. (voyage_id r, from_locode r, to_locode r)) crossing_routes =
     replicate 10 (1, ''AAA'', ''AAA'')"
  using crossing_membership crossing_in_port_frame crossing_times crossing_speeds crossing_docked
    crossing_create_routes crossing_attribution
  by (simp only: crossing_sorted simp_thms)
    (simp add: first_crossing_def second_crossing_def crossing_visit_def)

section \<open>create_routes: overlapping port polygons\<close>

text \<open>
  C9: A ping of \<^verbatim>\<open>in_port\<close> has one row, and its port is that of the first row of
  \<^verbatim>\<open>masks\<close> whose index list holds the ping; every later row of \<^verbatim>\<open>masks\<close> for the
  ping is discarded. When \<^verbatim>\<open>masks\<close> lists the polygons in the order of the ports, this
  is the first port in input order whose polygon contains the ping.
\<close>

theorem create_routes_first_match_wins:
  assumes "in_port_frame ships prts (exploded_masks_of masks) = Inr in_port"
    and "r \<in> set in_port"
  shows "distinct (map label in_port) \<and>
         (\<exists>idxs pj. find (\<lambda>(idxs, pj). label r \<in> set idxs) masks = Some (idxs, pj) \<and>
            pj < length prts \<and> port_of r = prts ! pj \<and>
            (sorted_wrt (<) (map snd masks) \<longrightarrow>
               (\<forall>(idxs', pj')\<in>set masks. label r \<in> set idxs' \<longrightarrow> pj \<le> pj')))"
proof
  show "distinct (map label in_port)" using assms(1) by (rule in_port_labels(3))
next
  let ?em = "exploded_masks_of masks"
  let ?left = "filter (constraint ?em) [0..<length ships]"
  have ip: "in_port =
           map (\<lambda>i. \<lparr>index_col = i, ping_of = ships ! i, label = i,
                      port_of = the (assigned_port prts ?em i)\<rparr>) ?left"
    using assms(1) by (rule in_port_frame_rows(1))
  have some: "\<forall>i\<in>set ?left. assigned_port prts ?em i \<noteq> None"
    using assms(1) by (rule in_port_frame_rows(2))
  from assms(2) have l: "label r \<in> set ?left"
    and p: "port_of r = the (assigned_port prts ?em (label r))"
    unfolding ip by auto
  from some l obtain prt where a: "assigned_port prts ?em (label r) = Some prt" by auto
  have f: "find (\<lambda>e. fst e = Some (label r)) ?em =
        map_option (\<lambda>(idxs, pj). (Some (label r), pj))
          (find (\<lambda>(idxs, pj). label r \<in> set idxs) masks)"
    unfolding exploded_masks_of_def by (simp only: drop_duplicates_find find_explode)
  from a obtain m where m: "find (\<lambda>(idxs, pj). label r \<in> set idxs) masks = Some m"
    unfolding assigned_port_def f by (cases "find (\<lambda>(idxs, pj). label r \<in> set idxs) masks") auto
  obtain idxs pj where mp: "m = (idxs, pj)" by (cases m)
  from a m mp have pj: "pj < length prts" "prt = prts ! pj"
    unfolding assigned_port_def f by (auto split: if_splits)
  have least: "sorted_wrt (<) (map snd masks) \<longrightarrow>
      (\<forall>(idxs', pj')\<in>set masks. label r \<in> set idxs' \<longrightarrow> pj \<le> pj')"
  proof (intro impI)
    assume s: "sorted_wrt (<) (map snd masks)"
    show "\<forall>(idxs', pj')\<in>set masks. label r \<in> set idxs' \<longrightarrow> pj \<le> pj'"
    proof (clarify)
      fix idxs' pj' assume y: "(idxs', pj') \<in> set masks" "label r \<in> set idxs'"
      have "snd (idxs, pj) \<le> snd (idxs', pj')"
        using m [unfolded mp] s y(1) by (rule find_first_sorted) (use y(2) in simp)
      then show "pj \<le> pj'" by simp
    qed
  qed
  show "\<exists>idxs pj. find (\<lambda>(idxs, pj). label r \<in> set idxs) masks = Some (idxs, pj) \<and>
            pj < length prts \<and> port_of r = prts ! pj \<and>
            (sorted_wrt (<) (map snd masks) \<longrightarrow>
               (\<forall>(idxs', pj')\<in>set masks. label r \<in> set idxs' \<longrightarrow> pj \<le> pj'))"
    using m mp pj p a least by (intro exI [of _ idxs] exI [of _ pj]) simp
qed

text \<open>The theorem at ping 22 of the synthetic ship, inside Bravo and Charlie.\<close>

theorem create_routes_first_match_wins_witness:
  "in_port_frame synthetic_ais synthetic_ports (exploded_masks_of synthetic_masks) =
     Inr synthetic_in_port \<and>
   synthetic_dock 22 (21 / 2) 1 \<in> set synthetic_in_port \<and>
   sorted_wrt (<) (map snd synthetic_masks) \<and>
   ([22, 23], 1) \<in> set synthetic_masks \<and> ([22, 23], 2) \<in> set synthetic_masks \<and>
   locode (port_of (synthetic_dock 22 (21 / 2) 1)) = ''BBB'' \<and>
   distinct (map label synthetic_in_port) \<and>
   (\<exists>idxs pj. find (\<lambda>(idxs, pj). label (synthetic_dock 22 (21 / 2) 1) \<in> set idxs) synthetic_masks =
                 Some (idxs, pj) \<and>
      pj < length synthetic_ports \<and> port_of (synthetic_dock 22 (21 / 2) 1) = synthetic_ports ! pj \<and>
      (\<forall>(idxs', pj')\<in>set synthetic_masks.
          label (synthetic_dock 22 (21 / 2) 1) \<in> set idxs' \<longrightarrow> pj \<le> pj'))"
  using create_routes_first_match_wins [OF synthetic_in_port_frame synthetic_dock_member]
    synthetic_in_port_frame synthetic_dock_member synthetic_masks_sorted synthetic_overlap
  by (simp only: simp_thms)

section \<open>create_routes: the voyages that are dropped\<close>

text \<open>
  C5: Every voyage of fewer than 10 points is dropped; of the voyages of a ship that
  are left, the one with the smallest and the one with the largest id are dropped; the
  rows of \<^verbatim>\<open>routes\<close> are the rows of the other voyages, in order. The synthetic ship
  (outside, dock, outside, dock, outside) has the voyages 0, 1 and 2 and keeps voyage 1.
\<close>

theorem create_routes_drops_short_first_last:
  fixes mask_from_polygons :: membership and haversine_vector :: distance and speed_limit :: real
    and ais :: "ping list" and prts :: "port list"
  defines "ships \<equiv> sort_values ais"
  defines "em \<equiv> exploded_masks_of
                   (mask_from_polygons (map lat ships) (map long ships) (map polygon prts))"
  defines "voyages \<equiv> \<lambda>in_port. with_ids (routes_frame ships em
                   (time_out_port_idx haversine_vector speed_limit in_port))"
  shows "(create_routes_frame mask_from_polygons haversine_vector speed_limit ais prts = Inr out \<and>
          in_port_frame ships prts em = Inr in_port \<longrightarrow>
            map (\<lambda>r. (voyage_id r, mmsi r, time r)) out =
            map (\<lambda>r. (route_id r, mmsi (ping_of r), time (ping_of r)))
              (filter (\<lambda>r. 10 \<le> point_count (voyages in_port) (route_id r) \<and>
                           route_id r \<noteq> Min (ship_ids (voyages in_port) (mmsi (ping_of r))) \<and>
                           route_id r \<noteq> Max (ship_ids (voyages in_port) (mmsi (ping_of r))))
                      (voyages in_port))) \<and>
         with_ids (routes_frame (sort_values synthetic_ais)
            (exploded_masks_of (box_membership (map lat (sort_values synthetic_ais))
               (map long (sort_values synthetic_ais)) (map polygon synthetic_ports)))
            (time_out_port_idx flat_distance 3 synthetic_in_port)) = synthetic_voyages \<and>
         remdups (map route_id synthetic_voyages) = [0, 1, 2] \<and>
         create_routes_frame box_membership flat_distance 3 synthetic_ais synthetic_ports =
           Inr synthetic_routes \<and>
         remdups (map voyage_id synthetic_routes) = [1]"
proof (intro conjI impI)
  assume a: "create_routes_frame mask_from_polygons haversine_vector speed_limit ais prts = Inr out \<and>
          in_port_frame ships prts em = Inr in_port"
  then have "map (\<lambda>r. (voyage_id r, mmsi r, time r)) out =
      map (\<lambda>r. (route_id r, mmsi (ping_of r), time (ping_of r)))
        (route_port_frame (voyages in_port))"
    unfolding ships_def em_def voyages_def by (intro create_routes_frame_ids) simp_all
  then show "map (\<lambda>r. (voyage_id r, mmsi r, time r)) out =
            map (\<lambda>r. (route_id r, mmsi (ping_of r), time (ping_of r)))
              (filter (\<lambda>r. 10 \<le> point_count (voyages in_port) (route_id r) \<and>
                           route_id r \<noteq> Min (ship_ids (voyages in_port) (mmsi (ping_of r))) \<and>
                           route_id r \<noteq> Max (ship_ids (voyages in_port) (mmsi (ping_of r))))
                      (voyages in_port))"
    unfolding voyages_def by (simp only: route_port_frame_survivors)
next
  show "with_ids (routes_frame (sort_values synthetic_ais)
            (exploded_masks_of (box_membership (map lat (sort_values synthetic_ais))
               (map long (sort_values synthetic_ais)) (map polygon synthetic_ports)))
            (time_out_port_idx flat_distance 3 synthetic_in_port)) = synthetic_voyages"
    by (simp only: synthetic_sorted synthetic_membership synthetic_transits synthetic_with_ids)
next
  show "remdups (map route_id synthetic_voyages) = [0, 1, 2]" by (rule synthetic_ids)
next
  show "create_routes_frame box_membership flat_distance 3 synthetic_ais synthetic_ports =
           Inr synthetic_routes" by (rule synthetic_create_routes)
next
  show "remdups (map voyage_id synthetic_routes) = [1]" by (rule synthetic_survivor)
qed

text \<open>The theorem at the synthetic ship: the voyages 0 and 2 are the smallest and the largest.\<close>

theorem create_routes_drops_short_first_last_witness:
  "create_routes_frame box_membership flat_distance 3 synthetic_ais synthetic_ports =
     Inr synthetic_routes \<and>
   in_port_frame synthetic_ais synthetic_ports (exploded_masks_of synthetic_masks) =
     Inr synthetic_in_port \<and>
   ship_ids synthetic_voyages 7 = {0, 1, 2} \<and>
   map (\<lambda>r. (voyage_id r, mmsi r, time r)) synthetic_routes =
   map (\<lambda>r. (route_id r, mmsi (ping_of r), time (ping_of r)))
     (filter (\<lambda>r. 10 \<le> point_count synthetic_voyages (route_id r) \<and>
                  route_id r \<noteq> Min (ship_ids synthetic_voyages (mmsi (ping_of r))) \<and>
                  route_id r \<noteq> Max (ship_ids synthetic_voyages (mmsi (ping_of r))))
             synthetic_voyages)"
  using create_routes_drops_short_first_last [where mask_from_polygons = box_membership
      and haversine_vector = flat_distance and speed_limit = 3 and ais = synthetic_ais
      and prts = synthetic_ports and out = synthetic_routes and in_port = synthetic_in_port]
    synthetic_create_routes synthetic_in_port_frame synthetic_ship_ids
  by (simp only: synthetic_sorted synthetic_membership synthetic_transits synthetic_with_ids
        simp_thms)

end
